(* ===== verification/Prelude.thy ===== *)
theory Prelude
  imports Complex_Main "HOL-Library.Code_Target_Nat" "HOL-Library.AList" "HOL-Library.List_Lexorder" "HOL-Library.Product_Lexorder"
begin

text \<open>
  What every component shares: Python text as a list of code points, the exceptions of the
  program and of the interpreter as a datatype, results as a sum with the exception on the
  left, insertion-ordered dictionaries as association lists, and three interfaces as locales:
  a machine that keeps an invariant, a machine that simulates another one, and a table read in
  key order one page at a time.
\<close>

named_theorems py_simps \<open>evaluation of Python text and numbers\<close>
named_theorems frame_simps \<open>what an operation leaves alone\<close>
named_theorems inv_intros \<open>operations keep the invariant of their component\<close>

section \<open>Text and exceptions\<close>

text \<open>A Python \<open>str\<close> is a sequence of Unicode code points; \<open>asc\<close> embeds a literal.\<close>

type_synonym pystr = "nat list"

definition asc :: "string \<Rightarrow> pystr" where
  "asc s = map of_char s"

lemma asc_Nil [simp]: "asc [] = []"
  by (simp add: asc_def)

lemma asc_Cons [py_simps]: "asc (c # s) = of_char c # asc s"
  by (simp add: asc_def)

lemma asc_inject [simp]: "asc s = asc t \<longleftrightarrow> s = t"
  unfolding asc_def by (rule inj_map_eq_map) (simp add: inj_on_def)

lemma asc_append: "asc (s @ t) = asc s @ asc t"
  by (simp add: asc_def)

lemma asc_eq_Nil [simp]: "asc s = [] \<longleftrightarrow> s = []" "[] = asc s \<longleftrightarrow> s = []"
  by (auto simp: asc_def)

lemma length_asc [simp]: "length (asc s) = length s"
  by (simp add: asc_def)

text \<open>
  The exceptions: the service errors of \<open>app/services/service_errors.py\<close> with their class,
  FastAPI's \<open>HTTPException\<close>, and those of the interpreter and of the libraries. A text that
  only the interpreter chooses is not modelled (\<open>ValueErr None\<close>).
\<close>

datatype service_class = ServiceBase | ValidationClass | AuthClass | ConflictClass | NotFoundClass

datatype exn =
    ServiceError service_class int pystr
  | HTTPException int pystr
  | SettingsError pystr
  | NonRetryableHTTPError int
  | ValueErr "pystr option"
  | RuntimeErr pystr
  | TypeErr | KeyErr | IndexErr | OverflowErr | AttributeErr
  | Timeout | ConnectionErr | HTTPStatusErr int | JSONDecodeErr
  | OtherErr pystr

abbreviation "ValidationError \<equiv> ServiceError ValidationClass"
abbreviation "AuthError \<equiv> ServiceError AuthClass"
abbreviation "NotFoundError \<equiv> ServiceError NotFoundClass"

type_synonym 'a result = "exn + 'a"

fun is_service_error :: "exn \<Rightarrow> bool" where
  "is_service_error (ServiceError _ _ _) = True"
| "is_service_error _ = False"

section \<open>Results\<close>

abbreviation isr :: "'e + 'a \<Rightarrow> bool" where
  "isr m \<equiv> \<not> isl m"

definition bindR :: "'e + 'a \<Rightarrow> ('a \<Rightarrow> 'e + 'b) \<Rightarrow> 'e + 'b" where
  "bindR m f = (case m of Inl e \<Rightarrow> Inl e | Inr x \<Rightarrow> f x)"

lemma bindR_simps [simp]: "bindR (Inl e) f = Inl e" "bindR (Inr x) f = f x"
  by (simp_all add: bindR_def)

lemma bindR_Inr_iff: "bindR m f = Inr y \<longleftrightarrow> (\<exists>x. m = Inr x \<and> f x = Inr y)"
  by (cases m) auto

lemma bindR_Inl_iff: "bindR m f = Inl e \<longleftrightarrow> m = Inl e \<or> (\<exists>x. m = Inr x \<and> f x = Inl e)"
  by (cases m) auto

lemma bindR_cong [fundef_cong]:
  "m = m' \<Longrightarrow> (\<And>x. m' = Inr x \<Longrightarrow> f x = g x) \<Longrightarrow> bindR m f = bindR m' g"
  by (cases m') auto

text \<open>A guard that raises, and a list comprehension whose body may raise.\<close>

definition guardR :: "bool \<Rightarrow> 'e \<Rightarrow> 'e + unit" where
  "guardR ok e = (if ok then Inr () else Inl e)"

lemma guardR_simps [simp]: "guardR True e = Inr ()" "guardR False e = Inl e"
  by (simp_all add: guardR_def)

lemma guardR_iff [simp]:
  "guardR ok e = Inr u \<longleftrightarrow> ok" "guardR ok e = Inl e' \<longleftrightarrow> \<not> ok \<and> e' = e"
  by (auto simp: guardR_def)

fun mapR :: "('a \<Rightarrow> 'e + 'b) \<Rightarrow> 'a list \<Rightarrow> 'e + 'b list" where
  "mapR f [] = Inr []"
| "mapR f (x # xs) = bindR (f x) (\<lambda>y. bindR (mapR f xs) (\<lambda>ys. Inr (y # ys)))"

lemma mapR_cong [fundef_cong]:
  "xs = ys \<Longrightarrow> (\<And>x. x \<in> set ys \<Longrightarrow> f x = g x) \<Longrightarrow> mapR f xs = mapR g ys"
  by (induction ys arbitrary: xs) (auto intro!: bindR_cong)

lemma mapR_Inr_length: "mapR f xs = Inr ys \<Longrightarrow> length ys = length xs"
  by (induction xs arbitrary: ys) (auto simp: bindR_Inr_iff)

lemma mapR_total: "(\<And>x. x \<in> set xs \<Longrightarrow> f x = Inr (g x)) \<Longrightarrow> mapR f xs = Inr (map g xs)"
  by (induction xs) auto

section \<open>Dictionaries\<close>

text \<open>
  A \<open>dict\<close> whose order or size the code looks at is an association list in insertion order:
  \<open>AList.update\<close> overwrites in place or appends, as Python does.
\<close>

definition dict_ok :: "('k \<times> 'v) list \<Rightarrow> bool" where
  "dict_ok d \<longleftrightarrow> distinct (map fst d)"

definition setdefault :: "'k \<Rightarrow> 'v \<Rightarrow> ('k \<times> 'v) list \<Rightarrow> ('k \<times> 'v) list" where
  "setdefault k v d = (case map_of d k of None \<Rightarrow> AList.update k v d | Some _ \<Rightarrow> d)"

lemma map_of_update: "map_of (AList.update k v d) = (map_of d)(k \<mapsto> v)"
  by (rule AList.update_conv')

lemma map_of_setdefault:
  "map_of (setdefault k v d) = (case map_of d k of None \<Rightarrow> (map_of d)(k \<mapsto> v) | Some _ \<Rightarrow> map_of d)"
  by (simp add: setdefault_def map_of_update split: option.splits)

lemma dict_ok_update [inv_intros]: "dict_ok d \<Longrightarrow> dict_ok (AList.update k v d)"
  by (simp add: dict_ok_def distinct_update)

lemma dict_ok_setdefault [inv_intros]: "dict_ok d \<Longrightarrow> dict_ok (setdefault k v d)"
  by (auto simp: setdefault_def split: option.splits intro: dict_ok_update)

lemma dict_ok_filter [inv_intros]: "dict_ok d \<Longrightarrow> dict_ok (filter P d)"
  by (simp add: dict_ok_def distinct_map_filter)

lemma map_of_filter_key:
  "dict_ok d \<Longrightarrow>
   map_of (filter P d) k = (case map_of d k of None \<Rightarrow> None | Some v \<Rightarrow> if P (k, v) then Some v else None)"
proof (induction d)
  case (Cons x d)
  then have "dict_ok d" and "fst x \<notin> fst ` set d" by (simp_all add: dict_ok_def)
  moreover from this have "map_of d (fst x) = None" by (simp add: map_of_eq_None_iff)
  ultimately show ?case using Cons.IH by (cases x) (auto split: option.splits)
qed simp

lemma length_update:
  "length (AList.update k v d) = (if map_of d k = None then Suc (length d) else length d)"
  by (induction d) auto

section \<open>Python slices and clamping\<close>

definition clamp :: "int \<Rightarrow> int \<Rightarrow> int \<Rightarrow> int" where
  "clamp lo hi x = max lo (min x hi)"

lemma clamp_bounds: "lo \<le> hi \<Longrightarrow> lo \<le> clamp lo hi x \<and> clamp lo hi x \<le> hi"
  by (auto simp: clamp_def)

lemma clamp_id: "lo \<le> x \<Longrightarrow> x \<le> hi \<Longrightarrow> clamp lo hi x = x"
  by (simp add: clamp_def)

section \<open>Sorted lists\<close>

lemma dropWhile_eq_filter_sorted:
  fixes xs :: "'a::linorder list"
  shows "sorted xs \<Longrightarrow> dropWhile (\<lambda>t. t \<le> c) xs = filter (\<lambda>t. c < t) xs"
proof (induction xs)
  case (Cons x xs)
  show ?case
  proof (cases "x \<le> c")
    case True
    with Cons show ?thesis by auto
  next
    case False
    with Cons.prems have "\<forall>y \<in> set (x # xs). c < y" by auto
    then have "filter (\<lambda>t. c < t) (x # xs) = x # xs" by (simp only: filter_id_conv)
    with False show ?thesis by simp
  qed
qed simp

lemma sorted_last_max:
  fixes xs :: "'a::linorder list"
  shows "sorted xs \<Longrightarrow> x \<in> set xs \<Longrightarrow> x \<le> last xs"
  by (induction xs) (auto split: if_splits)

lemma filter_less_filter:
  fixes c :: "'a::linorder"
  shows "c' \<le> c \<Longrightarrow> filter (\<lambda>t. c < t) (filter (\<lambda>t. c' < t) xs) = filter (\<lambda>t. c < t) xs"
  by (induction xs) auto

text \<open>The events of the interval of \<open>w\<close> seconds that ends at \<open>s\<close>.\<close>

definition in_window :: "int \<Rightarrow> rat \<Rightarrow> rat list \<Rightarrow> rat list" where
  "in_window w s ts = filter (\<lambda>t. s - of_int w < t \<and> t \<le> s) ts"

section \<open>Machines\<close>

text \<open>
  A component with state is a step function from an input to an output and a new state.
  \<open>enabled\<close> says which input may come next (a clock that does not run backwards, say).
\<close>

fun run_steps :: "('i \<Rightarrow> 's \<Rightarrow> 'o \<times> 's) \<Rightarrow> 'i list \<Rightarrow> 's \<Rightarrow> 'o list \<times> 's" where
  "run_steps step [] s = ([], s)"
| "run_steps step (i # is) s =
     (fst (step i s) # fst (run_steps step is (snd (step i s))),
      snd (run_steps step is (snd (step i s))))"

fun admissible :: "('s \<Rightarrow> 'i \<Rightarrow> bool) \<Rightarrow> ('i \<Rightarrow> 's \<Rightarrow> 'o \<times> 's) \<Rightarrow> 'i list \<Rightarrow> 's \<Rightarrow> bool" where
  "admissible en step [] s = True"
| "admissible en step (i # is) s = (en s i \<and> admissible en step is (snd (step i s)))"

lemma run_steps_append:
  "run_steps step (is @ js) s =
     (fst (run_steps step is s) @ fst (run_steps step js (snd (run_steps step is s))),
      snd (run_steps step js (snd (run_steps step is s))))"
  by (induction "is" arbitrary: s) auto

lemma length_run_steps: "length (fst (run_steps step is s)) = length is"
  by (induction "is" arbitrary: s) auto

locale invariant_machine =
  fixes step :: "'i \<Rightarrow> 's \<Rightarrow> 'o \<times> 's"
    and enabled :: "'s \<Rightarrow> 'i \<Rightarrow> bool"
    and inv :: "'s \<Rightarrow> bool"
  assumes step_inv: "inv s \<Longrightarrow> enabled s i \<Longrightarrow> inv (snd (step i s))"
begin

lemma run_inv: "inv s \<Longrightarrow> admissible enabled step is s \<Longrightarrow> inv (snd (run_steps step is s))"
proof (induction "is" arbitrary: s)
  case (Cons i "is")
  then have "inv (snd (run_steps step is (snd (step i s))))"
    by (simp add: step_inv)
  then show ?case by simp
qed simp

end

locale simulation =
  fixes cstep :: "'i \<Rightarrow> 'c \<Rightarrow> 'o \<times> 'c"
    and astep :: "'i \<Rightarrow> 'a \<Rightarrow> 'o \<times> 'a"
    and rel :: "'c \<Rightarrow> 'a \<Rightarrow> bool"
    and enabled :: "'a \<Rightarrow> 'i \<Rightarrow> bool"
  assumes step_output: "rel c a \<Longrightarrow> enabled a i \<Longrightarrow> fst (cstep i c) = fst (astep i a)"
    and step_rel: "rel c a \<Longrightarrow> enabled a i \<Longrightarrow> rel (snd (cstep i c)) (snd (astep i a))"
begin

lemma run_simulates:
  "rel c a \<Longrightarrow> admissible enabled astep is a \<Longrightarrow>
   fst (run_steps cstep is c) = fst (run_steps astep is a) \<and>
   rel (snd (run_steps cstep is c)) (snd (run_steps astep is a))"
proof (induction "is" arbitrary: c a)
  case (Cons i "is")
  from Cons.prems have en: "enabled a i" by simp
  from Cons.prems en have "rel (snd (cstep i c)) (snd (astep i a))" by (simp add: step_rel)
  with Cons.prems Cons.IH [of "snd (cstep i c)" "snd (astep i a)"]
  have "fst (run_steps cstep is (snd (cstep i c))) = fst (run_steps astep is (snd (astep i a))) \<and>
        rel (snd (run_steps cstep is (snd (cstep i c)))) (snd (run_steps astep is (snd (astep i a))))"
    by simp
  with step_output [OF Cons.prems(1) en] show ?case by simp
qed simp

end

section \<open>Tables read in key order\<close>

text \<open>
  \<open>SELECT ... WHERE key > ? ORDER BY key LIMIT ?\<close>: a page is the first \<open>n\<close> rows after a key.
  Reading page after page, each from the last key of the one before, reads every row once.
\<close>

locale keyset =
  fixes rows :: "'t \<Rightarrow> 'r list"
    and key :: "'r \<Rightarrow> int"
    and page :: "'t \<Rightarrow> int \<Rightarrow> nat \<Rightarrow> 'r list"
    and ok :: "'t \<Rightarrow> bool"
  assumes page_eq: "ok t \<Longrightarrow> page t a n = take n (filter (\<lambda>r. a < key r) (rows t))"
    and rows_sorted: "ok t \<Longrightarrow> sorted_wrt (\<lambda>r s. key r < key s) (rows t)"
begin

lemma page_split:
  assumes ok: "ok t"
  shows "filter (\<lambda>r. a < key r) (rows t) =
         page t a n @ (if page t a n = [] then filter (\<lambda>r. a < key r) (rows t)
                       else filter (\<lambda>r. key (last (page t a n)) < key r) (rows t))"
proof (cases "page t a n = []")
  case False
  let ?f = "filter (\<lambda>r. a < key r) (rows t)"
  have pg: "page t a n = take n ?f" by (rule page_eq [OF ok])
  let ?k = "key (last (take n ?f))"
  have srt: "sorted_wrt (\<lambda>r s. key r < key s) (take n ?f @ drop n ?f)"
    using rows_sorted [OF ok] by (simp add: sorted_wrt_filter)
  from False pg have ne: "take n ?f \<noteq> []" by simp
  then have inr: "last (take n ?f) \<in> set (take n ?f)" by (rule last_in_set)
  then have ak: "a < ?k" by (auto dest: in_set_takeD)
  have upto: "key r \<le> ?k" if "r \<in> set (take n ?f)" for r
  proof -
    have "sorted_wrt (\<lambda>r s. key r < key s) (butlast (take n ?f) @ [last (take n ?f)])"
      using srt ne by (simp add: sorted_wrt_append)
    moreover have "r \<in> set (butlast (take n ?f)) \<or> r = last (take n ?f)"
      using that ne by (metis append_butlast_last_id in_set_conv_decomp_first rotate1.simps(2)
          set_ConsD set_rotate1)
    ultimately show ?thesis by (auto simp: sorted_wrt_append)
  qed
  have beyond: "?k < key r" if "r \<in> set (drop n ?f)" for r
    using srt [unfolded sorted_wrt_append] inr that by blast
  have "filter (\<lambda>r. ?k < key r) (rows t) = filter (\<lambda>r. ?k < key r) ?f"
    using ak by (induction "rows t") (auto intro: filter_cong)
  also have "\<dots> = filter (\<lambda>r. ?k < key r) (take n ?f) @ filter (\<lambda>r. ?k < key r) (drop n ?f)"
    by (metis append_take_drop_id filter_append)
  also have "filter (\<lambda>r. ?k < key r) (take n ?f) = []"
    using upto by (auto simp: filter_empty_conv not_less)
  also have "filter (\<lambda>r. ?k < key r) (drop n ?f) = drop n ?f"
    using beyond by (auto simp: filter_id_conv)
  finally have "filter (\<lambda>r. ?k < key r) (rows t) = drop n ?f" by simp
  with False pg show ?thesis by simp
qed simp

lemma page_after: "ok t \<Longrightarrow> r \<in> set (page t a n) \<Longrightarrow> a < key r"
  by (auto simp: page_eq dest: in_set_takeD)

lemma page_in_rows: "ok t \<Longrightarrow> r \<in> set (page t a n) \<Longrightarrow> r \<in> set (rows t)"
  by (auto simp: page_eq dest: in_set_takeD)

lemma page_empty_iff:
  "ok t \<Longrightarrow> 0 < n \<Longrightarrow> page t a n = [] \<longleftrightarrow> filter (\<lambda>r. a < key r) (rows t) = []"
  by (simp add: page_eq)

lemma page_short:
  "ok t \<Longrightarrow> length (page t a n) < n \<Longrightarrow> page t a n = filter (\<lambda>r. a < key r) (rows t)"
  by (simp add: page_eq)

lemma rest_shorter:
  assumes "ok t" "page t a n \<noteq> []"
  shows "length (filter (\<lambda>r. key (last (page t a n)) < key r) (rows t)) <
         length (filter (\<lambda>r. a < key r) (rows t))"
  using arg_cong [OF page_split [OF assms(1), of a n], of length] assms(2) by simp

end

end
