(* ===== verification/Py_Text.thy ===== *)
theory Py_Text
  imports Unicode_Tables
begin

text \<open>
  The \<open>str\<close> operations of the interpreter that the program calls: \<open>strip\<close>, \<open>lower\<close>,
  \<open>split\<close>, \<open>startswith\<close>, \<open>endswith\<close>, \<open>in\<close>, slices, \<open>isdigit\<close>, \<open>isdecimal\<close>,
  \<open>int\<close> on a text and \<open>str\<close> of an integer. \<open>lower\<close> follows the simple case mapping and
  U+0130; the one context-dependent rule of the interpreter (a final capital sigma) is left out.
\<close>

section \<open>Characters\<close>

definition is_space :: "nat \<Rightarrow> bool" where
  "is_space c = (if c < 128 then (9 \<le> c \<and> c \<le> 13) \<or> (28 \<le> c \<and> c \<le> 32) else c \<in> set space_points)"

definition decimal_value :: "nat \<Rightarrow> nat option" where
  "decimal_value c =
     (if c < 128 then (if 48 \<le> c \<and> c \<le> 57 then Some (c - 48) else None)
      else map_option (\<lambda>z. c - z) (find (\<lambda>z. z \<le> c \<and> c \<le> z + 9) decimal_zeros))"

definition is_decimal_char :: "nat \<Rightarrow> bool" where
  "is_decimal_char c \<longleftrightarrow> decimal_value c \<noteq> None"

definition is_digit_char :: "nat \<Rightarrow> bool" where
  "is_digit_char c \<longleftrightarrow> is_decimal_char c \<or> (128 \<le> c \<and> list_ex (\<lambda>(a, b). a \<le> c \<and> c \<le> b) other_digits)"

definition lower_char :: "nat \<Rightarrow> nat list" where
  "lower_char c =
     (if c < 128 then [if 65 \<le> c \<and> c \<le> 90 then c + 32 else c]
      else if c = 304 then [105, 775]
      else case find (\<lambda>(a, b, s, d). a \<le> c \<and> c \<le> b \<and> (c - a) mod s = 0) lower_runs of
             None \<Rightarrow> [c] | Some (a, b, s, d) \<Rightarrow> [nat (int c + d)])"

section \<open>Text\<close>

definition strip :: "pystr \<Rightarrow> pystr" where
  "strip s = rev (dropWhile is_space (rev (dropWhile is_space s)))"

definition lower :: "pystr \<Rightarrow> pystr" where
  "lower s = concat (map lower_char s)"

definition startswith :: "pystr \<Rightarrow> pystr \<Rightarrow> bool" where
  "startswith s p \<longleftrightarrow> take (length p) s = p"

definition endswith :: "pystr \<Rightarrow> pystr \<Rightarrow> bool" where
  "endswith s p \<longleftrightarrow> length p \<le> length s \<and> drop (length s - length p) s = p"

fun contains_str :: "pystr \<Rightarrow> pystr \<Rightarrow> bool" where
  "contains_str p [] = (p = [])"
| "contains_str p (c # s) = (startswith (c # s) p \<or> contains_str p s)"

fun split_on :: "nat \<Rightarrow> pystr \<Rightarrow> pystr list" where
  "split_on sep [] = [[]]"
| "split_on sep (c # s) =
     (if c = sep then [] # split_on sep s
      else case split_on sep s of [] \<Rightarrow> [[c]] | w # ws \<Rightarrow> (c # w) # ws)"

fun join :: "pystr \<Rightarrow> pystr list \<Rightarrow> pystr" where
  "join sep [] = []"
| "join sep [w] = w"
| "join sep (w # v # ws) = w @ sep @ join sep (v # ws)"

definition lstrip_chars :: "nat list \<Rightarrow> pystr \<Rightarrow> pystr" where
  "lstrip_chars cs s = dropWhile (\<lambda>c. c \<in> set cs) s"

definition strip_chars :: "nat list \<Rightarrow> pystr \<Rightarrow> pystr" where
  "strip_chars cs s = rev (lstrip_chars cs (rev (lstrip_chars cs s)))"

definition isdigit :: "pystr \<Rightarrow> bool" where
  "isdigit s \<longleftrightarrow> s \<noteq> [] \<and> list_all is_digit_char s"

definition isdecimal :: "pystr \<Rightarrow> bool" where
  "isdecimal s \<longleftrightarrow> s \<noteq> [] \<and> list_all is_decimal_char s"

definition is_ascii :: "pystr \<Rightarrow> bool" where
  "is_ascii s \<longleftrightarrow> list_all (\<lambda>c. c < 128) s"

section \<open>Integers\<close>

fun digits_value :: "int \<Rightarrow> pystr \<Rightarrow> int" where
  "digits_value acc [] = acc"
| "digits_value acc (c # s) =
     (case decimal_value c of Some d \<Rightarrow> digits_value (10 * acc + int d) s | None \<Rightarrow> digits_value acc s)"

text \<open>Digits with single underscores between them, as \<open>int\<close> and \<open>float\<close> read them.\<close>

fun digit_run :: "pystr \<Rightarrow> bool" where
  "digit_run [] = False"
| "digit_run [c] = is_decimal_char c"
| "digit_run (c # d # s) =
     (is_decimal_char c \<and> (if d = 95 then digit_run s else digit_run (d # s)))"

fun split_sign :: "pystr \<Rightarrow> int \<times> pystr" where
  "split_sign [] = (1, [])"
| "split_sign (c # s) = (if c = 45 then (-1, s) else if c = 43 then (1, s) else (1, c # s))"

definition MAX_INT_DIGITS :: nat where
  "MAX_INT_DIGITS = 4300"

definition py_int :: "pystr \<Rightarrow> int result" where
  "py_int s = (let (sg, ds) = split_sign (strip s) in
     if digit_run ds \<and> length (filter is_decimal_char ds) \<le> MAX_INT_DIGITS
     then Inr (sg * digits_value 0 ds) else Inl (ValueErr None))"

fun nat_digits :: "nat \<Rightarrow> pystr" where
  "nat_digits n = (if n < 10 then [48 + n] else nat_digits (n div 10) @ [48 + n mod 10])"

declare nat_digits.simps [simp del]

definition str_of_int :: "int \<Rightarrow> pystr" where
  "str_of_int i = (if i < 0 then 45 # nat_digits (nat (- i)) else nat_digits (nat i))"

section \<open>UTF-8\<close>

text \<open>\<open>str.encode("utf-8")\<close>: a surrogate has no encoding (a \<open>ValueError\<close>).\<close>

definition utf8_char :: "nat \<Rightarrow> nat list result" where
  "utf8_char c =
     (if c < 128 then Inr [c]
      else if c < 2048 then Inr [192 + c div 64, 128 + c mod 64]
      else if 55296 \<le> c \<and> c < 57344 then Inl (ValueErr None)
      else if c < 65536 then Inr [224 + c div 4096, 128 + c div 64 mod 64, 128 + c mod 64]
      else Inr [240 + c div 262144, 128 + c div 4096 mod 64, 128 + c div 64 mod 64, 128 + c mod 64])"

definition encode_utf8 :: "pystr \<Rightarrow> nat list result" where
  "encode_utf8 s = bindR (mapR utf8_char s) (\<lambda>bs. Inr (concat bs))"

section \<open>Laws\<close>

lemma strip_Nil [simp]: "strip [] = []"
  by (simp add: strip_def)

lemma strip_strip [simp]: "strip (strip s) = strip s"
proof -
  let ?d = "dropWhile is_space"
  have hd: "t \<noteq> [] \<Longrightarrow> \<not> is_space (hd t) \<Longrightarrow> ?d (rev (?d (rev t))) = rev (?d (rev t))" for t
  proof -
    assume t: "t \<noteq> []" "\<not> is_space (hd t)"
    obtain x xs where tx: "t = x # xs" and nx: "\<not> is_space x" using t by (cases t) auto
    have "?d (rev t) = ?d (rev xs @ [x])" by (simp add: tx)
    then have "?d (rev t) \<noteq> []" and "last (?d (rev t)) = x" using nx
      by (auto simp: dropWhile_append)
    then have "hd (rev (?d (rev t))) = x" and "rev (?d (rev t)) \<noteq> []" by (auto simp: hd_rev)
    with nx show "?d (rev (?d (rev t))) = rev (?d (rev t))"
      by (cases "rev (?d (rev t))") auto
  qed
  have "?d (rev (?d (rev (?d s)))) = rev (?d (rev (?d s)))"
  proof (cases "?d s")
    case (Cons x xs)
    then have "\<not> is_space (hd (?d s))" by (metis hd_dropWhile list.distinct(1))
    with Cons show ?thesis by (intro hd) auto
  next
    case Nil
    then show ?thesis by (simp only: Nil) simp
  qed
  then show ?thesis by (simp add: strip_def dropWhile_idem)
qed

lemma strip_id: "s = [] \<or> \<not> is_space (hd s) \<and> \<not> is_space (last s) \<Longrightarrow> strip s = s"
proof (cases s)
  case (Cons c cs)
  assume h: "s = [] \<or> \<not> is_space (hd s) \<and> \<not> is_space (last s)"
  have "dropWhile is_space s = s" using h Cons by simp
  moreover have "rev s = last s # rev (butlast s)"
    using Cons by (metis append_butlast_last_id list.distinct(1) rev.simps(2) rev_rev_ident rev_append
        rev_singleton_conv append_Cons append_Nil)
  ultimately show ?thesis using h Cons by (simp add: strip_def)
qed simp

lemma strip_eq_Nil_iff: "strip s = [] \<longleftrightarrow> list_all is_space s"
proof
  assume "strip s = []"
  then have "list_all is_space (dropWhile is_space s)"
    by (simp add: strip_def list_all_iff)
  moreover have "list_all is_space (takeWhile is_space s)"
    by (auto simp: list_all_iff dest: set_takeWhileD)
  ultimately show "list_all is_space s"
    by (metis list_all_append takeWhile_dropWhile_id)
next
  assume "list_all is_space s"
  then have "dropWhile is_space s = []" by (simp add: list_all_iff)
  then show "strip s = []" by (simp only: strip_def) simp
qed

lemma set_strip: "set (strip s) \<subseteq> set s"
  by (auto simp: strip_def dest!: set_dropWhileD)

lemma length_strip: "length (strip s) \<le> length s"
  unfolding strip_def
  by (metis dual_order.trans length_dropWhile_le length_rev)

lemma split_on_ne [simp]: "split_on sep s \<noteq> []"
  by (induction s) (auto split: list.splits)

lemma join_split_on: "join [sep] (split_on sep s) = s"
proof (induction s)
  case (Cons c s)
  obtain w ws where sp: "split_on sep s = w # ws" by (meson neq_Nil_conv split_on_ne)
  with Cons show ?case by (cases ws) auto
qed simp

lemma split_on_free: "sep \<notin> set s \<Longrightarrow> split_on sep s = [s]"
  by (induction s) auto

lemma set_split_on: "w \<in> set (split_on sep s) \<Longrightarrow> set w \<subseteq> set s \<and> sep \<notin> set w"
proof (induction s arbitrary: w)
  case (Cons c s)
  then show ?case by (fastforce split: list.splits if_splits)
qed simp

lemma startswith_iff: "startswith s p \<longleftrightarrow> (\<exists>t. s = p @ t)"
  by (metis append_eq_conv_conj append_take_drop_id startswith_def)

lemma endswith_iff: "endswith s p \<longleftrightarrow> (\<exists>t. s = t @ p)"
  unfolding endswith_def by (metis append_eq_append_conv append_take_drop_id diff_diff_cancel
      le_add2 length_append length_drop)

lemma contains_str_iff: "contains_str p s \<longleftrightarrow> (\<exists>a b. s = a @ p @ b)"
proof (induction s)
  case (Cons c s)
  have "(\<exists>a b. c # s = a @ p @ b) \<longleftrightarrow> (\<exists>b. c # s = p @ b) \<or> (\<exists>a b. s = a @ p @ b)"
    by (metis append_Cons append_Nil list.inject neq_Nil_conv)
  with Cons.IH show ?case by (simp add: startswith_iff)
qed simp

lemma decimal_value_digit [simp]: "d < 10 \<Longrightarrow> decimal_value (48 + d) = Some d"
  by (simp add: decimal_value_def)

lemma is_decimal_char_digit [simp]: "d < 10 \<Longrightarrow> is_decimal_char (48 + d)"
  by (simp add: is_decimal_char_def)

lemma digits_value_append_digit:
  "digits_value a (s @ [48 + d]) = 10 * digits_value a s + int d" if "d < 10"
  using that by (induction a s rule: digits_value.induct) (auto split: option.splits)

lemma nat_digits_ascii: "c \<in> set (nat_digits n) \<Longrightarrow> 48 \<le> c \<and> c \<le> 57"
proof (induction n rule: nat_digits.induct)
  case (1 n)
  show ?case
  proof (cases "n < 10")
    case True
    with 1 show ?thesis by (simp add: nat_digits.simps [of n])
  next
    case False
    then show ?thesis using 1 by (auto simp: nat_digits.simps [of n])
  qed
qed

lemma nat_digits_ne [simp]: "nat_digits n \<noteq> []"
  by (subst nat_digits.simps) simp

lemma digits_value_nat_digits: "digits_value 0 (nat_digits n) = int n"
proof (induction n rule: nat_digits.induct)
  case (1 n)
  show ?case
  proof (cases "n < 10")
    case True
    then show ?thesis by (simp add: nat_digits.simps [of n])
  next
    case False
    with 1 have "digits_value 0 (nat_digits (n div 10)) = int (n div 10)" by simp
    moreover have "10 * int (n div 10) + int (n mod 10) = int n"
      by (metis mult_div_mod_eq of_nat_add of_nat_mult of_nat_numeral)
    ultimately show ?thesis using False
      by (simp add: nat_digits.simps [of n] digits_value_append_digit)
  qed
qed

lemma digit_run_all: "s \<noteq> [] \<Longrightarrow> (\<And>c. c \<in> set s \<Longrightarrow> 48 \<le> c \<and> c \<le> 57) \<Longrightarrow> digit_run s"
proof (induction s rule: digit_run.induct)
  case (3 c d s)
  have "d \<noteq> 95" using 3(4) [of d] by auto
  moreover have "is_decimal_char c" using 3(4) [of c] by (simp add: is_decimal_char_def decimal_value_def)
  ultimately show ?case using 3 by auto
qed (auto simp: is_decimal_char_def decimal_value_def)

lemma length_nat_digits: "n < 10 ^ k \<Longrightarrow> 0 < k \<Longrightarrow> length (nat_digits n) \<le> k"
proof (induction n arbitrary: k rule: nat_digits.induct)
  case (1 n)
  show ?case
  proof (cases "n < 10")
    case True
    with 1 show ?thesis by (simp add: nat_digits.simps [of n])
  next
    case False
    with 1(2) obtain k' where k': "k = Suc k'" "0 < k'"
      by (cases k; cases "k - 1") auto
    with 1(2) have "n div 10 < 10 ^ k'" by (simp add: less_mult_imp_div_less mult.commute)
    with 1(1) False k' have "length (nat_digits (n div 10)) \<le> k'" by blast
    with False k' show ?thesis by (simp add: nat_digits.simps [of n])
  qed
qed

text \<open>\<open>int(str(i))\<close> is \<open>i\<close>, up to the interpreter's limit on digits.\<close>

lemma py_int_str_of_int:
  assumes "\<bar>i\<bar> < 10 ^ MAX_INT_DIGITS"
  shows "py_int (str_of_int i) = Inr i"
proof -
  let ?n = "nat \<bar>i\<bar>"
  have d: "digit_run (nat_digits ?n)" by (rule digit_run_all) (auto dest: nat_digits_ascii)
  have "int ?n < int (10 ^ MAX_INT_DIGITS)" using assms by simp
  then have "?n < 10 ^ MAX_INT_DIGITS" by (simp only: of_nat_less_iff)
  moreover have "0 < MAX_INT_DIGITS" by (simp add: MAX_INT_DIGITS_def)
  ultimately have "length (nat_digits ?n) \<le> MAX_INT_DIGITS" by (rule length_nat_digits)
  then have l: "length (filter is_decimal_char (nat_digits ?n)) \<le> MAX_INT_DIGITS"
    by (meson dual_order.trans length_filter_le)
  have ns: "\<not> is_space c" if "c \<in> set (nat_digits ?n)" for c
    using nat_digits_ascii [OF that] by (auto simp: is_space_def)
  have st: "strip (nat_digits ?n) = nat_digits ?n"
    by (rule strip_id) (use ns in \<open>auto intro: last_in_set hd_in_set\<close>)
  have st': "strip (45 # nat_digits ?n) = 45 # nat_digits ?n"
    by (rule strip_id) (use ns in \<open>auto simp: is_space_def intro: last_in_set\<close>)
  have sg: "split_sign (nat_digits ?n) = (1, nat_digits ?n)"
  proof (cases "nat_digits ?n")
    case (Cons c cs)
    then have "c \<noteq> 45" "c \<noteq> 43" using nat_digits_ascii [of c ?n] by auto
    with Cons show ?thesis by simp
  qed simp
  have neg: "py_int (45 # nat_digits ?n) = Inr (- int ?n)"
    using d l st' by (simp add: py_int_def digits_value_nat_digits)
  have pos: "py_int (nat_digits ?n) = Inr (int ?n)"
    using d l st sg by (simp add: py_int_def digits_value_nat_digits)
  show ?thesis
  proof (cases "i < 0")
    case True
    then have "str_of_int i = 45 # nat_digits ?n" and "- int ?n = i" by (simp_all add: str_of_int_def)
    with neg show ?thesis by (simp only:)
  next
    case False
    then have "str_of_int i = nat_digits ?n" and "int ?n = i" by (simp_all add: str_of_int_def)
    with pos show ?thesis by (simp only:)
  qed
qed

end
