(* ===== verification/Py_Value.thy ===== *)
theory Py_Value
  imports Py_Text
begin

text \<open>
  Floats and the values of a JSON payload. A float is a double: its exact rational value, an
  infinity or a NaN (the sign of zero is not kept). \<open>dbl\<close> is rounding to the nearest double,
  ties to even, with gradual underflow and overflow to infinity, so conversions from decimal
  text, from an integer and divisions are the interpreter's. The text of a float, a list or an
  object under \<open>str\<close> is a parameter (\<open>repr_of\<close>); every other value's is computed.
\<close>

section \<open>Doubles\<close>

datatype pyfloat = Fin rat | PosInf | NegInf | NaN

instantiation pyfloat :: ord
begin

fun less_eq_pyfloat :: "pyfloat \<Rightarrow> pyfloat \<Rightarrow> bool" where
  "less_eq_pyfloat NaN _ = False"
| "less_eq_pyfloat _ NaN = False"
| "less_eq_pyfloat NegInf _ = True"
| "less_eq_pyfloat _ PosInf = True"
| "less_eq_pyfloat (Fin x) (Fin y) = (x \<le> y)"
| "less_eq_pyfloat _ _ = False"

definition less_pyfloat :: "pyfloat \<Rightarrow> pyfloat \<Rightarrow> bool" where
  "less_pyfloat x y \<longleftrightarrow> x \<le> y \<and> \<not> y \<le> x"

instance ..

end

lemma pyfloat_less [simp]:
  "Fin x < Fin y \<longleftrightarrow> x < y" "\<not> NaN < f" "\<not> f < NaN" "NegInf < Fin x" "Fin x < PosInf"
  "\<not> PosInf < f" "\<not> f < NegInf" "NegInf < PosInf"
  by (cases f; auto simp: less_pyfloat_def)+

lemma pyfloat_le [simp]:
  "\<not> f \<le> NaN" "\<not> PosInf \<le> Fin x" "\<not> Fin x \<le> NegInf" "Fin x \<le> PosInf"
  by (cases f; simp)+

definition pow2 :: "int \<Rightarrow> rat" where
  "pow2 e = (if 0 \<le> e then 2 ^ nat e else 1 / 2 ^ nat (- e))"

fun bit_len :: "int \<Rightarrow> int" where
  "bit_len n = (if n \<le> 0 then 0 else 1 + bit_len (n div 2))"

declare bit_len.simps [simp del]

definition floor_log2 :: "rat \<Rightarrow> int" where
  "floor_log2 q = (let (a, b) = quotient_of q; e = bit_len a - bit_len b
                   in if pow2 e \<le> q then e else e - 1)"

definition round_half_even :: "rat \<Rightarrow> int" where
  "round_half_even q =
     (let f = \<lfloor>q\<rfloor>; d = q - of_int f
      in if d < 1 / 2 then f else if 1 / 2 < d then f + 1 else if even f then f else f + 1)"

definition dbl :: "rat \<Rightarrow> pyfloat" where
  "dbl q =
     (if q = 0 then Fin 0
      else let e = max (floor_log2 \<bar>q\<bar> - 52) (- 1074); v = of_int (round_half_even (\<bar>q\<bar> / pow2 e)) * pow2 e
           in if 2 ^ 1024 \<le> v then (if q < 0 then NegInf else PosInf) else Fin (sgn q * v))"

text \<open>\<open>round(x, 2)\<close>: to the nearest hundredth of the exact value, then to the nearest double.\<close>

definition round2 :: "pyfloat \<Rightarrow> pyfloat" where
  "round2 x = (case x of Fin q \<Rightarrow> dbl (of_int (round_half_even (q * 100)) / 100) | _ \<Rightarrow> x)"

section \<open>float() on a text\<close>

definition ten_pow :: "int \<Rightarrow> rat" where
  "ten_pow e = (if 0 \<le> e then 10 ^ nat e else 1 / 10 ^ nat (- e))"

definition opt_digits :: "pystr \<Rightarrow> bool" where
  "opt_digits s \<longleftrightarrow> s = [] \<or> digit_run s"

definition parse_decimal :: "pystr \<Rightarrow> rat option" where
  "parse_decimal s =
     (let mant = takeWhile (\<lambda>c. c \<noteq> 101 \<and> c \<noteq> 69) s; ex = drop (length mant) s;
          ip = takeWhile (\<lambda>c. c \<noteq> 46) mant; fp = drop (Suc (length ip)) mant;
          (es, ed) = split_sign (tl ex);
          fdigits = filter is_decimal_char fp
      in if opt_digits ip \<and> opt_digits fp \<and> (ip \<noteq> [] \<or> fp \<noteq> []) \<and> (ex = [] \<or> digit_run ed)
         then Some (of_int (digits_value 0 (ip @ fp)) * ten_pow (es * digits_value 0 ed - int (length fdigits)))
         else None)"

definition ascii_lower :: "pystr \<Rightarrow> pystr" where
  "ascii_lower = map (\<lambda>c. if 65 \<le> c \<and> c \<le> 90 then c + 32 else c)"

definition py_float :: "pystr \<Rightarrow> pyfloat result" where
  "py_float s =
     (let (sg, body) = split_sign (strip s) in
      if ascii_lower body \<in> {asc ''inf'', asc ''infinity''} then Inr (if sg < 0 then NegInf else PosInf)
      else if ascii_lower body = asc ''nan'' then Inr NaN
      else case parse_decimal body of
             Some q \<Rightarrow> Inr (dbl (of_int sg * q))
           | None \<Rightarrow> Inl (ValueErr None))"

section \<open>JSON values\<close>

datatype json =
    JNull | JBool bool | JInt int | JFloat pyfloat | JStr pystr
  | JList "json list" | JObj "(pystr \<times> json) list"

type_synonym payload = "(pystr \<times> json) list"

text \<open>
  A response of the application, before the server renders it: a file by its path and media type, a
  text by its media type.
\<close>

datatype reply =
    JSONResponse int payload | RedirectResponse int pystr | FileResponse pystr pystr | TextResponse pystr pystr

definition jget :: "payload \<Rightarrow> string \<Rightarrow> json" where
  "jget p k = (case map_of p (asc k) of None \<Rightarrow> JNull | Some v \<Rightarrow> v)"

fun truthy :: "json \<Rightarrow> bool" where
  "truthy JNull = False"
| "truthy (JBool b) = b"
| "truthy (JInt i) = (i \<noteq> 0)"
| "truthy (JFloat f) = (f \<noteq> Fin 0)"
| "truthy (JStr s) = (s \<noteq> [])"
| "truthy (JList xs) = (xs \<noteq> [])"
| "truthy (JObj kvs) = (kvs \<noteq> [])"

fun py_str :: "(json \<Rightarrow> pystr) \<Rightarrow> json \<Rightarrow> pystr" where
  "py_str repr_of JNull = asc ''None''"
| "py_str repr_of (JBool b) = (if b then asc ''True'' else asc ''False'')"
| "py_str repr_of (JInt i) = str_of_int i"
| "py_str repr_of (JStr s) = s"
| "py_str repr_of v = repr_of v"

text \<open>\<open>str(raw or "")\<close>\<close>

definition str_or_empty :: "(json \<Rightarrow> pystr) \<Rightarrow> json \<Rightarrow> pystr" where
  "str_or_empty repr_of v = (if truthy v then py_str repr_of v else [])"

definition trunc :: "rat \<Rightarrow> int" where
  "trunc q = (if q < 0 then \<lceil>q\<rceil> else \<lfloor>q\<rfloor>)"

fun int_of_json :: "json \<Rightarrow> int result" where
  "int_of_json (JBool b) = Inr (if b then 1 else 0)"
| "int_of_json (JInt i) = Inr i"
| "int_of_json (JFloat (Fin q)) = Inr (trunc q)"
| "int_of_json (JFloat NaN) = Inl (ValueErr None)"
| "int_of_json (JFloat _) = Inl OverflowErr"
| "int_of_json (JStr s) = py_int s"
| "int_of_json _ = Inl TypeErr"

definition float_of_int :: "int \<Rightarrow> pyfloat result" where
  "float_of_int i = (case dbl (of_int i) of Fin q \<Rightarrow> Inr (Fin q) | _ \<Rightarrow> Inl OverflowErr)"

fun float_of_json :: "json \<Rightarrow> pyfloat result" where
  "float_of_json (JBool b) = Inr (Fin (if b then 1 else 0))"
| "float_of_json (JInt i) = float_of_int i"
| "float_of_json (JFloat f) = Inr f"
| "float_of_json (JStr s) = py_float s"
| "float_of_json _ = Inl TypeErr"

section \<open>Laws\<close>

lemma pow2_pos [simp]: "0 < pow2 e"
  by (simp add: pow2_def)

lemma round_half_even_of_int [simp]: "round_half_even (of_int i) = i"
  by (simp add: round_half_even_def)

lemma round_half_even_close: "\<bar>q - of_int (round_half_even q)\<bar> \<le> 1 / 2"
proof -
  have "of_int \<lfloor>q\<rfloor> \<le> q" "q < of_int \<lfloor>q\<rfloor> + 1" by linarith+
  then show ?thesis unfolding round_half_even_def Let_def by auto
qed

lemma dbl_0 [simp]: "dbl 0 = Fin 0"
  by (simp add: dbl_def)

lemma bit_len_le: "k < 2 ^ n \<Longrightarrow> bit_len k \<le> int n"
proof (induction n arbitrary: k)
  case (Suc n)
  show ?case
  proof (cases "k \<le> 0")
    case False
    with Suc.prems have "k div 2 < 2 ^ n" by auto
    with Suc.IH [of "k div 2"] False show ?thesis by (simp add: bit_len.simps [of k])
  qed (simp add: bit_len.simps [of k])
next
  case 0
  then show ?case by (subst bit_len.simps) simp
qed

lemma bit_len_1: "bit_len 1 = 1"
  by (simp add: bit_len.simps [of 1] bit_len.simps [of 0])

lemma floor_log2_of_int: "k < 2 ^ n \<Longrightarrow> floor_log2 (of_int k) \<le> int n - 1"
  using bit_len_le [of k n] by (simp add: floor_log2_def Let_def bit_len_1)

text \<open>Integers below \<open>2 ^ 53\<close> are exact.\<close>

lemma dbl_of_int:
  assumes "\<bar>k\<bar> < 2 ^ 53"
  shows "dbl (of_int k) = Fin (of_int k)"
proof (cases "k = 0")
  case False
  define e where "e = max (floor_log2 \<bar>of_int k :: rat\<bar> - 52) (- 1074)"
  have "floor_log2 (of_int \<bar>k\<bar>) \<le> 52" using floor_log2_of_int [OF assms] by simp
  then have "e \<le> 0" by (simp add: e_def)
  then have p: "pow2 e = 1 / 2 ^ nat (- e)" by (auto simp: pow2_def)
  then have "\<bar>of_int k\<bar> / pow2 e = (of_int (\<bar>k\<bar> * 2 ^ nat (- e)) :: rat)" by simp
  then have v: "of_int (round_half_even (\<bar>of_int k\<bar> / pow2 e)) * pow2 e = \<bar>of_int k :: rat\<bar>"
    by (simp only: round_half_even_of_int p) simp
  have "(2 :: rat) ^ 53 < 2 ^ 1024" by (rule power_strict_increasing) simp_all
  moreover have "\<bar>of_int k :: rat\<bar> < 2 ^ 53" using assms by (metis of_int_abs of_int_less_iff of_int_numeral of_int_power)
  ultimately have "\<not> 2 ^ 1024 \<le> \<bar>of_int k :: rat\<bar>" by linarith
  with False v show ?thesis
    unfolding dbl_def Let_def e_def [symmetric] by (simp add: mult_sgn_abs)
qed simp

lemma dbl_code [code]:
  "dbl q =
     (if snd (quotient_of q) = 1 \<and> \<bar>fst (quotient_of q)\<bar> < 9007199254740992 then Fin q
      else if q = 0 then Fin 0
      else let e = max (floor_log2 \<bar>q\<bar> - 52) (- 1074); v = of_int (round_half_even (\<bar>q\<bar> / pow2 e)) * pow2 e
           in if 2 ^ 1024 \<le> v then (if q < 0 then NegInf else PosInf) else Fin (sgn q * v))"
proof (cases "snd (quotient_of q) = 1 \<and> \<bar>fst (quotient_of q)\<bar> < 9007199254740992")
  case True
  then have "q = of_int (fst (quotient_of q))"
    by (metis Fract_of_int_quotient div_by_1 of_int_1 prod.collapse quotient_of_div)
  with True dbl_of_int [of "fst (quotient_of q)"] show ?thesis by simp
next
  case False
  then show ?thesis by (simp only: dbl_def if_False)
qed

lemma dbl_not_NaN [simp]: "dbl q \<noteq> NaN"
  by (simp add: dbl_def Let_def)

lemma ascii_lower_idem [simp]: "ascii_lower (ascii_lower s) = ascii_lower s"
  by (simp add: ascii_lower_def)

lemma py_float_nan: "py_float (asc ''nan'') = Inr NaN"
  by (simp add: py_float_def strip_def is_space_def ascii_lower_def py_simps)

end
