(* ===== verification/Ip_Address.thy ===== *)
theory Ip_Address
  imports Py_Text "HOL-Library.Word"
begin

unbundle bit_operations_syntax

text \<open>
  What \<open>app/dependencies.py\<close> uses of the \<open>ipaddress\<close> module of the standard library:
  \<open>ip_address\<close> on a text (dotted quads, and IPv6 with \<open>::\<close>, an embedded quad and a scope) and
  membership of an address in a network. Addresses are words of their width.
\<close>

datatype ip = V4 "32 word" | V6 "128 word"

text \<open>A network: its address and its mask.\<close>

datatype net = Net4 "32 word" "32 word" | Net6 "128 word" "128 word"

fun in_network :: "ip \<Rightarrow> net \<Rightarrow> bool" where
  "in_network (V4 a) (Net4 n m) = (a AND m = n)"
| "in_network (V6 a) (Net6 n m) = (a AND m = n)"
| "in_network _ _ = False"

section \<open>Parsing\<close>

definition is_ascii_digit :: "nat \<Rightarrow> bool" where
  "is_ascii_digit c \<longleftrightarrow> 48 \<le> c \<and> c \<le> 57"

definition parse_octet :: "pystr \<Rightarrow> nat option" where
  "parse_octet s =
     (if s = [] \<or> \<not> list_all is_ascii_digit s \<or> 3 < length s \<or> (s \<noteq> [48] \<and> hd s = 48) then None
      else let v = nat (digits_value 0 s) in if 255 < v then None else Some v)"

fun parse_v4 :: "pystr \<Rightarrow> nat option" where
  "parse_v4 s =
     (case map parse_octet (split_on 46 s) of
        [Some a, Some b, Some c, Some d] \<Rightarrow> Some (((a * 256 + b) * 256 + c) * 256 + d)
      | _ \<Rightarrow> None)"

definition hex_value :: "nat \<Rightarrow> nat option" where
  "hex_value c =
     (if 48 \<le> c \<and> c \<le> 57 then Some (c - 48)
      else if 65 \<le> c \<and> c \<le> 70 then Some (c - 55)
      else if 97 \<le> c \<and> c \<le> 102 then Some (c - 87) else None)"

definition parse_hextet :: "pystr \<Rightarrow> nat option" where
  "parse_hextet s =
     (if s = [] \<or> 4 < length s \<or> list_ex (\<lambda>c. hex_value c = None) s then None
      else Some (foldl (\<lambda>v c. 16 * v + the (hex_value c)) 0 s))"

fun all_some :: "'a option list \<Rightarrow> 'a list option" where
  "all_some [] = Some []"
| "all_some (None # _) = None"
| "all_some (Some x # xs) = map_option ((#) x) (all_some xs)"

definition hextets_value :: "nat list \<Rightarrow> nat" where
  "hextets_value = foldl (\<lambda>v h. 65536 * v + h) 0"

text \<open>
  The hextets of an IPv6 text, the embedded quad already replaced by two of them. At most one
  inner part is empty (the \<open>::\<close>); an outer part is empty only next to it.
\<close>

definition parse_v6_parts :: "pystr list \<Rightarrow> nat option" where
  "parse_v6_parts parts =
     (let n = length parts; skips = filter (\<lambda>i. parts ! i = []) [1..<n - 1]
      in if n < 3 \<or> 9 < n \<or> 1 < length skips then None
         else case skips of
           i # _ \<Rightarrow>
             (let hi = take i parts; lo = drop (Suc i) parts;
                  hi' = (if hd hi = [] then tl hi else hi);
                  lo' = (if last lo = [] then butlast lo else lo)
              in if (hi' \<noteq> hi \<and> hi' \<noteq> []) \<or> (lo' \<noteq> lo \<and> lo' \<noteq> []) \<or> 8 < length hi' + length lo' + 1 then None
                 else case (all_some (map parse_hextet hi'), all_some (map parse_hextet lo')) of
                   (Some h, Some l) \<Rightarrow>
                     Some (hextets_value (h @ replicate (8 - (length h + length l)) 0 @ l))
                 | _ \<Rightarrow> None)
         | [] \<Rightarrow>
             if n \<noteq> 8 \<or> hd parts = [] \<or> last parts = [] then None
             else map_option hextets_value (all_some (map parse_hextet parts)))"

fun hex_digits :: "nat \<Rightarrow> pystr" where
  "hex_digits n =
     (let d = (\<lambda>k. if k < 10 then 48 + k else 87 + k)
      in if n < 16 then [d n] else hex_digits (n div 16) @ [d (n mod 16)])"

declare hex_digits.simps [simp del]

definition parse_v6 :: "pystr \<Rightarrow> nat option" where
  "parse_v6 s =
     (let addr = takeWhile (\<lambda>c. c \<noteq> 37) s; rest = drop (length addr) s; scope = tl rest in
      if 47 \<in> set s \<or> (rest \<noteq> [] \<and> (scope = [] \<or> 37 \<in> set scope)) \<or> addr = [] then None
      else
        let parts = split_on 58 addr in
        if length parts < 3 then None
        else if 46 \<in> set (last parts) then
          (case parse_v4 (last parts) of
             None \<Rightarrow> None
           | Some q \<Rightarrow> parse_v6_parts (butlast parts @ [hex_digits (q div 65536), hex_digits (q mod 65536)]))
        else parse_v6_parts parts)"

definition ip_address :: "pystr \<Rightarrow> ip result" where
  "ip_address s =
     (case parse_v4 s of
        Some v \<Rightarrow> Inr (V4 (of_nat v))
      | None \<Rightarrow>
          case parse_v6 s of Some v \<Rightarrow> Inr (V6 (of_nat v)) | None \<Rightarrow> Inl (ValueErr None))"

section \<open>Networks\<close>

definition mask4 :: "nat \<Rightarrow> 32 word" where
  "mask4 p = push_bit (32 - p) (- 1)"

definition mask6 :: "nat \<Rightarrow> 128 word" where
  "mask6 p = push_bit (128 - p) (- 1)"

definition parse_prefix :: "nat \<Rightarrow> pystr \<Rightarrow> nat option" where
  "parse_prefix width s =
     (if s = [] \<or> \<not> list_all is_ascii_digit s then None
      else let v = digits_value 0 s in if v \<le> int width then Some (nat v) else None)"

text \<open>A dotted mask: a netmask, or else a host mask.\<close>

definition parse_dotted_mask :: "pystr \<Rightarrow> nat option" where
  "parse_dotted_mask s =
     (case parse_v4 s of
        None \<Rightarrow> None
      | Some v \<Rightarrow>
          let m = (of_nat v :: 32 word)
          in case find (\<lambda>p. mask4 p = m) [0..<33] of
               Some p \<Rightarrow> Some p
             | None \<Rightarrow> find (\<lambda>p. mask4 p = NOT m) [0..<33])"

definition make_net4 :: "pystr \<Rightarrow> nat option \<Rightarrow> net option" where
  "make_net4 addr prefix =
     (case (parse_v4 addr, prefix) of
        (Some v, Some p) \<Rightarrow> Some (Net4 (of_nat v AND mask4 p) (mask4 p))
      | _ \<Rightarrow> None)"

definition make_net6 :: "pystr \<Rightarrow> nat option \<Rightarrow> net option" where
  "make_net6 addr prefix =
     (case (parse_v6 addr, prefix) of
        (Some v, Some p) \<Rightarrow> Some (Net6 (of_nat v AND mask6 p) (mask6 p))
      | _ \<Rightarrow> None)"

text \<open>\<open>ip_network(entry, strict=False)\<close>\<close>

definition ip_network :: "pystr \<Rightarrow> net result" where
  "ip_network s =
     (let (four, six) =
        (case split_on 47 s of
           [a] \<Rightarrow> (make_net4 a (Some 32), make_net6 a (Some 128))
         | [a, m] \<Rightarrow>
             (make_net4 a (case parse_prefix 32 m of Some p \<Rightarrow> Some p | None \<Rightarrow> parse_dotted_mask m),
              make_net6 a (parse_prefix 128 m))
         | _ \<Rightarrow> (None, None))
      in case four of Some n \<Rightarrow> Inr n
         | None \<Rightarrow> (case six of Some n \<Rightarrow> Inr n | None \<Rightarrow> Inl (ValueErr None)))"

section \<open>Laws\<close>

lemma parse_octet_bound: "parse_octet s = Some v \<Longrightarrow> v \<le> 255"
  by (auto simp: parse_octet_def Let_def split: if_splits)

text \<open>Every quad accepted is below \<open>2 ^ 32\<close>: the word conversion loses nothing.\<close>

lemma parse_v4_bound: "parse_v4 s = Some v \<Longrightarrow> v < 2 ^ 32"
  by (auto split: list.splits option.splits dest!: parse_octet_bound)

lemma in_network_host: "in_network (V4 a) (Net4 n (- 1)) \<longleftrightarrow> a = n"
  by simp

end
