(* ===== verification/Messages.thy ===== *)
theory Messages
  imports Prelude
begin

text \<open>
  The program's texts that are not ASCII, as code points: the messages of its errors and
  responses, and the column names of the uploaded sheet. The comment of each gives its meaning.
\<close>

definition msg_csrf_failed :: pystr where
  \<comment> \<open>CSRF token validation failed.\<close>
  "msg_csrf_failed = [
    67, 83, 82, 70, 32, 53664, 53360, 32, 44160, 51613, 50640, 32, 49892, 54056, 54664, 49845,
    45768, 45796, 46]"

definition msg_login_blocked :: pystr where
  \<comment> \<open>too many login attempts\<close>
  "msg_login_blocked = [
    47196, 44536, 51064, 32, 49884, 46020, 44032, 32, 45320, 47924, 32, 47566, 49845, 45768,
    45796, 46, 32, 51104, 49884, 32, 54980, 32, 45796, 49884, 32, 49884, 46020, 54644, 51452,
    49464, 50836, 46]"

definition msg_bad_request :: pystr where
  \<comment> \<open>bad request, reload the page\<close>
  "msg_bad_request = [
    51096, 47803, 46108, 32, 50836, 52397, 51077, 45768, 45796, 46, 32, 54168, 51060, 51648,
    47484, 32, 49352, 47196, 44256, 52840, 32, 54644, 51452, 49464, 50836, 46]"

definition msg_auth_config :: pystr where
  \<comment> \<open>server authentication is misconfigured\<close>
  "msg_auth_config = [
    49436, 48260, 32, 51064, 51613, 32, 49444, 51221, 32, 50724, 47448, 51077, 45768, 45796,
    46, 32, 44288, 47532, 51088, 50640, 44172, 32, 47928, 51032, 54616, 49464, 50836, 46]"

definition msg_auth_backend :: pystr where
  \<comment> \<open>the password backend failed\<close>
  "msg_auth_backend = [
    48708, 48128, 48264, 54840, 32, 44160, 51613, 32, 48177, 50644, 46300, 32, 50724, 47448,
    51077, 45768, 45796, 46, 32, 44288, 47532, 51088, 50640, 44172, 32, 47928, 51032, 54616,
    49464, 50836, 46]"

definition msg_wrong_credentials :: pystr where
  \<comment> \<open>wrong id or password\<close>
  "msg_wrong_credentials = [
    50500, 51060, 46356, 32, 46608, 45716, 32, 48708, 48128, 48264, 54840, 44032, 32, 53952,
    47549, 45768, 45796, 46]"

definition msg_auth_required :: pystr where
  \<comment> \<open>authentication required\<close>
  "msg_auth_required = [
    51064, 51613, 51060, 32, 54596, 50836, 54633, 45768, 45796, 46]"

definition msg_internal_only :: pystr where
  \<comment> \<open>admin pages are for the internal network\<close>
  "msg_internal_only = [
    44288, 47532, 51088, 32, 54168, 51060, 51648, 45716, 32, 45236, 48512, 32, 54665, 51221,
    47581, 50640, 49436, 47564, 32, 51217, 44540, 32, 44032, 45733, 54633, 45768, 45796, 46]"

definition msg_rate_limited :: pystr where
  \<comment> \<open>too many requests\<close>
  "msg_rate_limited = [
    50836, 52397, 51060, 32, 45320, 47924, 32, 47566, 49845, 45768, 45796, 46, 32, 51104,
    49884, 32, 54980, 32, 45796, 49884, 32, 49884, 46020, 54644, 51452, 49464, 50836, 46]"

definition msg_excel_only :: pystr where
  \<comment> \<open>only Excel files\<close>
  "msg_excel_only = [
    50641, 49472, 32, 54028, 51068, 40, 46, 120, 108, 115, 120, 44, 32, 46, 120, 108, 115, 41,
    47564, 32, 50629, 47196, 46300, 32, 44032, 45733, 54633, 45768, 45796, 46]"

definition msg_size_limit_1 :: pystr where
  \<comment> \<open>file size limit (\<close>
  "msg_size_limit_1 = [
    54028, 51068, 32, 50857, 47049, 32, 51228, 54620, 40]"

definition msg_size_limit_2 :: pystr where
  \<comment> \<open>MB) exceeded\<close>
  "msg_size_limit_2 = [
    77, 66, 41, 51012, 32, 52488, 44284, 54664, 49845, 45768, 45796, 46]"

definition msg_bad_magic :: pystr where
  \<comment> \<open>the content does not match the extension\<close>
  "msg_bad_magic = [
    54028, 51068, 32, 54805, 49885, 51060, 32, 49440, 50616, 46108, 32, 54869, 51109, 51088,
    50752, 32, 51068, 52824, 54616, 51648, 32, 50506, 49845, 45768, 45796, 46]"

definition msg_bad_content_type :: pystr where
  \<comment> \<open>unsupported file type\<close>
  "msg_bad_content_type = [
    51648, 50896, 54616, 51648, 32, 50506, 45716, 32, 54028, 51068, 32, 54805, 49885, 51077,
    45768, 45796, 46]"

definition msg_missing_columns :: pystr where
  \<comment> \<open>missing columns\<close>
  "msg_missing_columns = [
    54596, 49688, 32, 52972, 47100, 32, 45572, 46973, 58, 32]"

definition msg_rows_limit_1 :: pystr where
  \<comment> \<open>row limit (\<close>
  "msg_rows_limit_1 = [
    52572, 45824, 32, 50629, 47196, 46300, 32, 54665, 32, 49688, 40]"

definition msg_rows_limit_2 :: pystr where
  \<comment> \<open>) exceeded\<close>
  "msg_rows_limit_2 = [
    41, 47484, 32, 52488, 44284, 54664, 49845, 45768, 45796, 46]"

definition msg_validation_failed :: pystr where
  \<comment> \<open>data validation failed\<close>
  "msg_validation_failed = [
    45936, 51060, 53552, 32, 44160, 51613, 32, 49892, 54056]"

definition msg_upload_error :: pystr where
  \<comment> \<open>error while processing the upload\<close>
  "msg_upload_error = [
    50629, 47196, 46300, 32, 52376, 47532, 32, 51473, 32, 50724, 47448, 44032, 32, 48156,
    49373, 54664, 49845, 45768, 45796, 46]"

definition msg_upload_done :: pystr where
  \<comment> \<open>upload done, boundary job starts\<close>
  "msg_upload_done = [
    50629, 47196, 46300, 32, 50756, 47308, 46, 32, 44221, 44228, 49440, 32, 49688, 51665, 32,
    51089, 50629, 51012, 32, 49884, 51089, 54633, 45768, 45796, 46]"

definition col_address :: pystr where
  \<comment> \<open>address\<close>
  "col_address = [
    49548, 51116, 51648, 40, 51648, 48264, 41]"

definition col_land_type :: pystr where
  \<comment> \<open>land type\<close>
  "col_land_type = [
    40, 44277, 48512, 49345, 41, 51648, 47785]"

definition col_area :: pystr where
  \<comment> \<open>area\<close>
  "col_area = [
    40, 44277, 48512, 49345, 41, 47732, 51201, 40, 13217, 41]"

definition col_adm_property :: pystr where
  \<comment> \<open>administrative property\<close>
  "col_adm_property = [
    54665, 51221, 51116, 49328]"

definition col_gen_property :: pystr where
  \<comment> \<open>general property\<close>
  "col_gen_property = [
    51068, 48152, 51116, 49328]"

definition col_contact :: pystr where
  \<comment> \<open>contact\<close>
  "col_contact = [
    45812, 45817, 51088, 50672, 46973, 52376]"

definition msg_job_interrupted :: pystr where
  \<comment> \<open>interrupted by a restart\<close>
  "msg_job_interrupted = [
    49436, 48260, 32, 51116, 49884, 51089, 51004, 47196, 32, 51064, 54644, 32, 51473, 45800,
    46120]"

definition msg_job_active :: pystr where
  \<comment> \<open>a boundary job is already running\<close>
  "msg_job_active = [
    51060, 48120, 32, 49892, 54665, 32, 51473, 51064, 32, 44221, 44228, 49440, 32, 49688,
    51665, 32, 51089, 50629, 51060, 32, 51080, 49845, 45768, 45796, 46]"

definition msg_job_started :: pystr where
  \<comment> \<open>boundary job started\<close>
  "msg_job_started = [
    44221, 44228, 49440, 32, 51221, 48372, 32, 49688, 51665, 32, 51089, 50629, 51012, 32,
    49884, 51089, 54664, 49845, 45768, 45796, 46]"

definition msg_job_not_found :: pystr where
  \<comment> \<open>no such job\<close>
  "msg_job_not_found = [
    51089, 50629, 51012, 32, 52286, 51012, 32, 49688, 32, 50630, 49845, 45768, 45796, 46]"

definition msg_name_empty :: pystr where
  \<comment> \<open>empty file name\<close>
  "msg_name_empty = [
    50629, 47196, 46300, 32, 54028, 51068, 47749, 51060, 32, 48708, 50612, 32, 51080, 49845,
    45768, 45796, 46]"

definition msg_ext_denied :: pystr where
  \<comment> \<open>file type not allowed, allowed: \<close>
  "msg_ext_denied = [
    54728, 50857, 46104, 51648, 32, 50506, 51008, 32, 54028, 51068, 32, 54805, 49885, 51077,
    45768, 45796, 46, 32, 54728, 50857, 58, 32]"

definition msg_ext_required :: pystr where
  \<comment> \<open>an extension is required\<close>
  "msg_ext_required = [
    54028, 51068, 32, 54869, 51109, 51088, 44032, 32, 54596, 50836, 54633, 45768, 45796, 46]"

definition msg_download_updated :: pystr where
  \<comment> \<open>public download file updated\<close>
  "msg_download_updated = [
    44277, 44060, 32, 45796, 50868, 47196, 46300, 32, 54028, 51068, 51060, 32, 50629, 45936,
    51060, 53944, 46104, 50632, 49845, 45768, 45796, 46]"

definition msg_no_download :: pystr where
  \<comment> \<open>no file to download\<close>
  "msg_no_download = [
    45796, 50868, 47196, 46300, 32, 44032, 45733, 54620, 32, 54028, 51068, 51060, 32, 50630,
    49845, 45768, 45796, 46]"

definition msg_meta_damaged :: pystr where
  \<comment> \<open>the metadata is damaged\<close>
  "msg_meta_damaged = [
    45796, 50868, 47196, 46300, 32, 47700, 53440, 45936, 51060, 53552, 44032, 32, 49552, 49345,
    46104, 50632, 49845, 45768, 45796, 46]"

definition msg_file_missing :: pystr where
  \<comment> \<open>the file is missing\<close>
  "msg_file_missing = [
    45796, 50868, 47196, 46300, 32, 54028, 51068, 51012, 32, 52286, 51012, 32, 49688, 32,
    50630, 49845, 45768, 45796, 46]"

definition msg_query_timeout :: pystr where
  \<comment> \<open>the query timed out\<close>
  "msg_query_timeout = [
    53244, 47532, 32, 49892, 54665, 32, 49884, 44036, 51060, 32, 52488, 44284, 46104, 50632,
    49845, 45768, 45796, 46, 32, 51312, 44148, 51012, 32, 51329, 54784, 32, 45796, 49884, 32,
    49884, 46020, 54616, 49464, 50836, 46]"

definition msg_body_too_large :: pystr where
  \<comment> \<open>the request body is too large\<close>
  "msg_body_too_large = [
    50836, 52397, 32, 48376, 47928, 51060, 32, 45320, 47924, 32, 53373, 45768, 45796, 46]"

definition msg_admin_password_required :: pystr where
  \<comment> \<open>the admin password is required\<close>
  "msg_admin_password_required = [
    44288, 47532, 51088, 32, 48708, 48128, 48264, 54840, 47484, 32, 51077, 47141, 54644, 51452,
    49464, 50836, 46]"

definition msg_admin_password_wrong :: pystr where
  \<comment> \<open>the admin password is wrong\<close>
  "msg_admin_password_wrong = [
    44288, 47532, 51088, 32, 48708, 48128, 48264, 54840, 44032, 32, 50732, 48148, 47476, 51648,
    32, 50506, 49845, 45768, 45796, 46]"

definition msg_password_required :: pystr where
  \<comment> \<open>a password is required\<close>
  "msg_password_required = [
    48708, 48128, 48264, 54840, 47484, 32, 51077, 47141, 54644, 51452, 49464, 50836, 46]"

definition msg_password_mismatch :: pystr where
  \<comment> \<open>the new passwords differ\<close>
  "msg_password_mismatch = [
    49352, 32, 48708, 48128, 48264, 54840, 44032, 32, 51068, 52824, 54616, 51648, 32, 50506,
    49845, 45768, 45796, 46]"

definition msg_password_short :: pystr where
  \<comment> \<open>the new password is shorter than 8\<close>
  "msg_password_short = [
    49352, 32, 48708, 48128, 48264, 54840, 45716, 32, 56, 51088, 32, 51060, 49345, 51060,
    50612, 50556, 32, 54633, 45768, 45796, 46]"

definition msg_password_wrong :: pystr where
  \<comment> \<open>the current password is wrong\<close>
  "msg_password_wrong = [
    54788, 51116, 32, 48708, 48128, 48264, 54840, 44032, 32, 50732, 48148, 47476, 51648, 32,
    50506, 49845, 45768, 45796, 46]"

definition default_sheet :: pystr where
  \<comment> \<open>the default sheet name\<close>
  "default_sheet = [
    47785, 47197]"

definition default_app_name :: pystr where
  \<comment> \<open>the default application name\<close>
  "default_app_name = [
    44288, 49900, 32, 54596, 51648, 32, 51648, 46020, 32, 40, 80, 97, 114, 99, 101, 108, 32,
    69, 120, 112, 108, 111, 114, 101, 114, 41]"

definition msg_server_error :: pystr where
  \<comment> \<open>internal server error\<close>
  "msg_server_error = [
    49436, 48260, 32, 45236, 48512, 32, 50724, 47448, 44032, 32, 48156, 49373, 54664, 49845,
    45768, 45796, 46]"

end
