(* ===== verification/Config.thy ===== *)
theory Config
  imports Py_Value Ip_Address Messages
begin

text \<open>
  \<open>app/core/config.py\<close>: the settings record and its construction from the environment, with
  every parser's error. The environment is a map; \<open>load_dotenv\<close> of the python-dotenv package is
  a parameter, with the fallback parser of the source when the package is missing or fails.
\<close>

type_synonym env = "pystr \<rightharpoonup> pystr"

record Settings =
  app_name :: pystr
  map_center_lon :: pyfloat
  map_center_lat :: pyfloat
  map_default_zoom :: int
  vworld_wmts_key :: pystr
  vworld_geocoder_key :: pystr
  admin_id :: pystr
  admin_pw_hash :: pystr
  secret_key :: pystr
  allowed_ip_networks :: "net list"
  max_upload_size_mb :: int
  max_upload_rows :: int
  login_max_attempts :: int
  login_cooldown_seconds :: int
  vworld_timeout_s :: pyfloat
  vworld_retries :: int
  vworld_backoff_s :: pyfloat
  session_https_only :: bool
  session_cookie_name :: pystr
  session_namespace :: pystr
  trust_proxy_headers :: bool
  trusted_proxy_networks :: "net list"
  upload_sheet_name :: pystr
  allowed_web_track_paths :: "pystr list"
  public_download_max_size_mb :: int
  public_download_rate_limit_per_minute :: int
  public_download_allowed_exts :: "pystr list"
  public_download_dir :: pystr
  raw_query_export_max_rows :: int
  raw_query_export_timeout_s :: pyfloat
  admin_enabled :: bool
  seed_lands_on_empty :: bool
  base_dir :: pystr

section \<open>The .env file\<close>

text \<open>\<open>str.splitlines\<close>: every line boundary of the interpreter, a CR LF pair counting once.\<close>

definition is_line_break :: "nat \<Rightarrow> bool" where
  "is_line_break c \<longleftrightarrow> c \<in> {10, 11, 12, 13, 28, 29, 30, 133, 8232, 8233}"

fun splitlines_acc :: "pystr \<Rightarrow> pystr \<Rightarrow> pystr list" where
  "splitlines_acc acc [] = (if acc = [] then [] else [rev acc])"
| "splitlines_acc acc [c] = (if is_line_break c then [rev acc] else [rev (c # acc)])"
| "splitlines_acc acc (c # d # s) =
     (if c = 13 \<and> d = 10 then rev acc # splitlines_acc [] s
      else if is_line_break c then rev acc # splitlines_acc [] (d # s)
      else splitlines_acc (c # acc) (d # s))"

definition splitlines :: "pystr \<Rightarrow> pystr list" where
  "splitlines = splitlines_acc []"

text \<open>\<open>line.split("=", 1)\<close> on a line that has an equals sign.\<close>

definition split_eq :: "pystr \<Rightarrow> pystr \<times> pystr" where
  "split_eq s = (takeWhile (\<lambda>c. c \<noteq> 61) s, tl (dropWhile (\<lambda>c. c \<noteq> 61) s))"

definition is_assignment :: "pystr \<Rightarrow> bool" where
  "is_assignment line \<longleftrightarrow> \<not> (line = [] \<or> startswith line [35] \<or> 61 \<notin> set line)"

definition env_setdefault :: "pystr \<Rightarrow> pystr \<Rightarrow> env \<Rightarrow> env" where
  "env_setdefault k v e = (case e k of None \<Rightarrow> e(k \<mapsto> v) | Some _ \<Rightarrow> e)"

definition load_env_line :: "pystr \<Rightarrow> env \<Rightarrow> env" where
  "load_env_line raw_line e =
     (let line = strip raw_line
      in if \<not> is_assignment line then e
         else let (key, value) = split_eq line
              in env_setdefault (strip key) (strip_chars [39] (strip_chars [34] (strip value))) e)"

definition load_dotenv_if_present ::
  "(pystr \<Rightarrow> env \<Rightarrow> env option) \<Rightarrow> pystr option \<Rightarrow> env \<Rightarrow> env" where
  "load_dotenv_if_present load_dotenv file e =
     (case file of
        None \<Rightarrow> e
      | Some text \<Rightarrow>
          (case load_dotenv text e of
             Some e' \<Rightarrow> e'
           | None \<Rightarrow> fold load_env_line (splitlines text) e))"

section \<open>Parsers\<close>

definition get_required_env :: "env \<Rightarrow> string \<Rightarrow> pystr result" where
  "get_required_env e name =
     (case e (asc name) of
        None \<Rightarrow> Inl (SettingsError (asc ''Required environment variable is missing: '' @ asc name))
      | Some v \<Rightarrow>
          if strip v = [] then Inl (SettingsError (asc ''Required environment variable is missing: '' @ asc name))
          else Inr (strip v))"

definition getenv :: "env \<Rightarrow> string \<Rightarrow> pystr \<Rightarrow> pystr" where
  "getenv e name dflt = (case e (asc name) of None \<Rightarrow> dflt | Some v \<Rightarrow> v)"

definition entries :: "pystr \<Rightarrow> pystr list" where
  "entries raw = filter (\<lambda>x. x \<noteq> []) (map strip (split_on 44 raw))"

definition settings_error_of :: "'a result \<Rightarrow> pystr \<Rightarrow> 'a result" where
  "settings_error_of r msg = (case r of Inl (ValueErr _) \<Rightarrow> Inl (SettingsError msg) | _ \<Rightarrow> r)"

definition parse_allowed_ips :: "pystr \<Rightarrow> net list result" where
  "parse_allowed_ips raw_ips =
     bindR (mapR (\<lambda>entry. settings_error_of (ip_network entry)
              (asc ''Invalid ALLOWED_IPS entry: '' @ entry @
               asc ''. Use CIDR or exact IP (e.g. 127.0.0.1/32).'')) (entries raw_ips))
       (\<lambda>networks. if networks = [] then Inr [Net4 2130706433 (- 1), Net6 1 (- 1)] else Inr networks)"

definition parse_network_list :: "pystr \<Rightarrow> net list result" where
  "parse_network_list raw_value =
     mapR (\<lambda>entry. settings_error_of (ip_network entry)
             (asc ''Invalid network entry: '' @ entry @
              asc ''. Use CIDR or exact IP (e.g. 10.0.0.0/24).'')) (entries raw_value)"

definition parse_bool_env :: "env \<Rightarrow> string \<Rightarrow> bool \<Rightarrow> bool result" where
  "parse_bool_env e name dflt =
     (case e (asc name) of
        None \<Rightarrow> Inr dflt
      | Some raw \<Rightarrow>
          let normalized = lower (strip raw) in
          if normalized \<in> set (map asc [''1'', ''true'', ''yes'', ''on'']) then Inr True
          else if normalized \<in> set (map asc [''0'', ''false'', ''no'', ''off'']) then Inr False
          else Inl (SettingsError (asc ''Invalid boolean value for '' @ asc name @ asc '': '' @ raw)))"

definition cookie_char :: "nat \<Rightarrow> bool" where
  "cookie_char c \<longleftrightarrow> (65 \<le> c \<and> c \<le> 90) \<or> (97 \<le> c \<and> c \<le> 122) \<or> (48 \<le> c \<and> c \<le> 57) \<or> c \<in> {95, 46, 45}"

definition or_default :: "pystr option \<Rightarrow> pystr \<Rightarrow> pystr" where
  "or_default raw d = (case raw of None \<Rightarrow> d | Some v \<Rightarrow> if v = [] then d else v)"

definition parse_session_cookie_name :: "pystr option \<Rightarrow> pystr result" where
  "parse_session_cookie_name raw_value =
     (let value = strip (or_default raw_value (asc ''session''))
      in if value = [] then Inl (SettingsError (asc ''SESSION_COOKIE_NAME must not be empty.''))
         else if \<not> list_all cookie_char value
         then Inl (SettingsError (asc ''SESSION_COOKIE_NAME contains invalid characters.''))
         else Inr value)"

definition parse_session_namespace :: "pystr option \<Rightarrow> pystr result" where
  "parse_session_namespace raw_value =
     (let value = strip (or_default raw_value (asc ''idle-public-property''))
      in if value = [] then Inl (SettingsError (asc ''SESSION_NAMESPACE must not be empty.''))
         else Inr value)"

text \<open>\<open>tuple(dict.fromkeys(values))\<close>: the first occurrence of each value, in order.\<close>

definition dedup :: "'a list \<Rightarrow> 'a list" where
  "dedup xs = rev (remdups (rev xs))"

definition parse_allowed_exts :: "pystr \<Rightarrow> pystr list result" where
  "parse_allowed_exts raw_value =
     (let values = filter (\<lambda>x. x \<noteq> []) (map (\<lambda>x. lstrip_chars [46] (lower (strip x))) (split_on 44 raw_value))
      in if values = []
         then Inl (SettingsError (asc ''PUBLIC_DOWNLOAD_ALLOWED_EXTS must include at least one extension.''))
         else Inr (dedup values))"

definition MAX_ALLOWED_WEB_TRACK_PATHS :: nat where
  "MAX_ALLOWED_WEB_TRACK_PATHS = 20"

definition parse_allowed_web_track_paths :: "pystr \<Rightarrow> pystr list result" where
  "parse_allowed_web_track_paths raw_value =
     bindR (mapR (\<lambda>entry. if startswith entry [47] then Inr entry
              else Inl (SettingsError (asc ''Invalid ALLOWED_WEB_TRACK_PATHS entry: '' @ entry @
                     asc ''. Path must start with '' @ [39, 47, 39, 46]))) (entries raw_value))
       (\<lambda>values.
          if values = [] then Inr [[47]]
          else let deduped = dedup values
               in if MAX_ALLOWED_WEB_TRACK_PATHS < length deduped
                  then Inl (SettingsError (asc ''ALLOWED_WEB_TRACK_PATHS must not exceed '' @
                         str_of_int (int MAX_ALLOWED_WEB_TRACK_PATHS) @ asc '' entries (got '' @
                         str_of_int (int (length deduped)) @ asc '').''))
                  else Inr deduped)"

definition bcrypt_char :: "nat \<Rightarrow> bool" where
  "bcrypt_char c \<longleftrightarrow> c \<in> {46, 47} \<or> (65 \<le> c \<and> c \<le> 90) \<or> (97 \<le> c \<and> c \<le> 122) \<or> (48 \<le> c \<and> c \<le> 57)"

definition is_bcrypt_hash :: "pystr \<Rightarrow> bool" where
  "is_bcrypt_hash h \<longleftrightarrow>
     length h = 60 \<and> take 2 h = [36, 50] \<and> h ! 2 \<in> {97, 98, 121} \<and> h ! 3 = 36 \<and>
     is_decimal_char (h ! 4) \<and> is_decimal_char (h ! 5) \<and> h ! 6 = 36 \<and> list_all bcrypt_char (drop 7 h)"

definition validate_admin_hash :: "pystr \<Rightarrow> pystr result" where
  "validate_admin_hash h =
     (if is_bcrypt_hash h then Inr h else Inl (SettingsError (asc ''ADMIN_PW_HASH must be a valid bcrypt hash.'')))"

definition non_empty_or :: "pystr \<Rightarrow> pystr \<Rightarrow> pystr" where
  "non_empty_or v d = (if v = [] then d else v)"

section \<open>The settings\<close>

text \<open>\<open>Settings(...)\<close> of \<open>get_settings\<close>, its arguments evaluated in the order written.\<close>

definition build_settings :: "pystr \<Rightarrow> env \<Rightarrow> Settings result" where
  "build_settings basedir e =
     bindR (py_float (getenv e ''MAP_CENTER_LON'' (asc ''126.4500''))) (\<lambda>lon.
     bindR (py_float (getenv e ''MAP_CENTER_LAT'' (asc ''36.7848''))) (\<lambda>lat.
     bindR (py_int (getenv e ''MAP_DEFAULT_ZOOM'' (asc ''14''))) (\<lambda>zoom.
     bindR (get_required_env e ''VWORLD_WMTS_KEY'') (\<lambda>wmts.
     bindR (get_required_env e ''VWORLD_GEOCODER_KEY'') (\<lambda>geocoder.
     bindR (get_required_env e ''ADMIN_ID'') (\<lambda>admin.
     bindR (bindR (get_required_env e ''ADMIN_PW_HASH'') validate_admin_hash) (\<lambda>pw_hash.
     bindR (get_required_env e ''SECRET_KEY'') (\<lambda>secret.
     bindR (parse_allowed_ips (getenv e ''ALLOWED_IPS'' (asc ''127.0.0.1/32,::1/128''))) (\<lambda>ips.
     bindR (py_int (getenv e ''MAX_UPLOAD_SIZE_MB'' (asc ''10''))) (\<lambda>size_mb.
     bindR (py_int (getenv e ''MAX_UPLOAD_ROWS'' (asc ''5000''))) (\<lambda>rows.
     bindR (py_int (getenv e ''LOGIN_MAX_ATTEMPTS'' (asc ''5''))) (\<lambda>login_max.
     bindR (py_int (getenv e ''LOGIN_COOLDOWN_SECONDS'' (asc ''300''))) (\<lambda>cooldown.
     bindR (py_float (getenv e ''VWORLD_TIMEOUT_S'' (asc ''5.0''))) (\<lambda>timeout.
     bindR (py_int (getenv e ''VWORLD_RETRIES'' (asc ''3''))) (\<lambda>retries.
     bindR (py_float (getenv e ''VWORLD_BACKOFF_S'' (asc ''0.5''))) (\<lambda>backoff.
     bindR (parse_bool_env e ''SESSION_HTTPS_ONLY'' True) (\<lambda>https.
     bindR (parse_session_cookie_name (e (asc ''SESSION_COOKIE_NAME''))) (\<lambda>cookie.
     bindR (parse_session_namespace (e (asc ''SESSION_NAMESPACE''))) (\<lambda>namespace.
     bindR (parse_bool_env e ''TRUST_PROXY_HEADERS'' False) (\<lambda>trust.
     bindR (parse_network_list (getenv e ''TRUSTED_PROXY_IPS'' [])) (\<lambda>proxies.
     bindR (parse_allowed_web_track_paths (getenv e ''ALLOWED_WEB_TRACK_PATHS'' [47])) (\<lambda>paths.
     bindR (py_int (getenv e ''PUBLIC_DOWNLOAD_MAX_SIZE_MB'' (asc ''25''))) (\<lambda>dl_size.
     bindR (py_int (getenv e ''PUBLIC_DOWNLOAD_RATE_LIMIT_PER_MINUTE'' (asc ''10''))) (\<lambda>dl_rate.
     bindR (parse_allowed_exts (getenv e ''PUBLIC_DOWNLOAD_ALLOWED_EXTS'' (asc ''pdf,csv,xlsx''))) (\<lambda>exts.
     bindR (py_int (getenv e ''RAW_QUERY_EXPORT_MAX_ROWS'' (asc ''100000''))) (\<lambda>export_rows.
     bindR (py_float (getenv e ''RAW_QUERY_EXPORT_TIMEOUT_S'' (asc ''30.0''))) (\<lambda>export_timeout.
     bindR (parse_bool_env e ''ADMIN_ENABLED'' True) (\<lambda>enabled.
     bindR (parse_bool_env e ''SEED_LANDS_ON_EMPTY'' False) (\<lambda>seed.
     Inr \<lparr>app_name = getenv e ''APP_NAME'' default_app_name,
          map_center_lon = lon, map_center_lat = lat, map_default_zoom = zoom,
          vworld_wmts_key = wmts, vworld_geocoder_key = geocoder, admin_id = admin,
          admin_pw_hash = pw_hash, secret_key = secret, allowed_ip_networks = ips,
          max_upload_size_mb = size_mb, max_upload_rows = rows, login_max_attempts = login_max,
          login_cooldown_seconds = cooldown, vworld_timeout_s = timeout, vworld_retries = retries,
          vworld_backoff_s = backoff, session_https_only = https, session_cookie_name = cookie,
          session_namespace = namespace, trust_proxy_headers = trust, trusted_proxy_networks = proxies,
          upload_sheet_name = non_empty_or (strip (getenv e ''UPLOAD_SHEET_NAME'' default_sheet)) default_sheet,
          allowed_web_track_paths = paths, public_download_max_size_mb = dl_size,
          public_download_rate_limit_per_minute = dl_rate, public_download_allowed_exts = exts,
          public_download_dir = non_empty_or (strip (getenv e ''PUBLIC_DOWNLOAD_DIR'' (asc ''data/public_download'')))
            (asc ''data/public_download''),
          raw_query_export_max_rows = export_rows, raw_query_export_timeout_s = export_timeout,
          admin_enabled = enabled, seed_lands_on_empty = seed, base_dir = basedir\<rparr>)))))))))))))))))))))))))))))"

end
