(* ===== verification/Auth_Security.thy ===== *)
theory Auth_Security
  imports Prelude
begin

text \<open>
  \<open>app/auth_security.py\<close>: the login limiter. The two dictionaries of the class are maps; the
  clock readings are arguments. The interface \<open>attempt_guard\<close> is what a login route relies on. Each call
  of the limiter is atomic, a login is not: it asks \<open>is_blocked\<close>, checks the password, which is slow, and only then registers a
  failure. If at most \<open>p\<close> attempts under a key are between the two at any time,
  no cooldown interval sees more than \<open>max_attempts + p - 1\<close> wrong passwords for it.
\<close>

record login_limiter =
  max_attempts :: int
  cooldown_seconds :: int
  attempts :: "pystr \<rightharpoonup> rat list"
  blocked_until :: "pystr \<rightharpoonup> rat"

definition new_login_limiter :: "int \<Rightarrow> int \<Rightarrow> login_limiter" where
  "new_login_limiter m c =
     \<lparr>max_attempts = m, cooldown_seconds = c, attempts = Map.empty, blocked_until = Map.empty\<rparr>"

definition attempts_of :: "login_limiter \<Rightarrow> pystr \<Rightarrow> rat list" where
  "attempts_of l key = (case attempts l key of None \<Rightarrow> [] | Some ts \<Rightarrow> ts)"

definition cleanup :: "pystr \<Rightarrow> rat \<Rightarrow> login_limiter \<Rightarrow> login_limiter" where
  "cleanup key now l =
     (let window_start = now - of_int (cooldown_seconds l)
      in l\<lparr>attempts := (attempts l)(key \<mapsto> filter (\<lambda>ts. window_start \<le> ts) (attempts_of l key))\<rparr>)"

definition is_blocked :: "pystr \<Rightarrow> rat \<Rightarrow> login_limiter \<Rightarrow> bool \<times> login_limiter" where
  "is_blocked key now l =
     (case blocked_until l key of
        None \<Rightarrow> (False, l)
      | Some b \<Rightarrow>
          if b \<noteq> 0 \<and> now < b then (True, l)
          else if b \<noteq> 0 \<and> b \<le> now then (False, l\<lparr>blocked_until := (blocked_until l)(key := None)\<rparr>)
          else (False, l))"

definition register_failure :: "pystr \<Rightarrow> rat \<Rightarrow> login_limiter \<Rightarrow> login_limiter" where
  "register_failure key now l =
     (let l = cleanup key now l;
          ts = attempts_of l key @ [now];
          l = l\<lparr>attempts := (attempts l)(key \<mapsto> ts)\<rparr>
      in if max_attempts l \<le> int (length ts)
         then l\<lparr>blocked_until := (blocked_until l)(key \<mapsto> now + of_int (cooldown_seconds l)),
                attempts := (attempts l)(key \<mapsto> [])\<rparr>
         else l)"

definition reset :: "pystr \<Rightarrow> login_limiter \<Rightarrow> login_limiter" where
  "reset key l =
     l\<lparr>attempts := (attempts l)(key := None), blocked_until := (blocked_until l)(key := None)\<rparr>"

section \<open>Frame\<close>

lemma limiter_params [frame_simps]:
  "max_attempts (snd (is_blocked key now l)) = max_attempts l"
  "cooldown_seconds (snd (is_blocked key now l)) = cooldown_seconds l"
  "max_attempts (register_failure key now l) = max_attempts l"
  "cooldown_seconds (register_failure key now l) = cooldown_seconds l"
  "max_attempts (reset key l) = max_attempts l"
  "cooldown_seconds (reset key l) = cooldown_seconds l"
  by (auto simp: is_blocked_def register_failure_def cleanup_def reset_def Let_def split: option.splits)

lemma limiter_frame [frame_simps]:
  assumes "k \<noteq> key"
  shows "attempts (snd (is_blocked key now l)) k = attempts l k"
    and "blocked_until (snd (is_blocked key now l)) k = blocked_until l k"
    and "attempts (register_failure key now l) k = attempts l k"
    and "blocked_until (register_failure key now l) k = blocked_until l k"
    and "attempts (reset key l) k = attempts l k"
    and "blocked_until (reset key l) k = blocked_until l k"
  using assms
  by (auto simp: is_blocked_def register_failure_def cleanup_def reset_def Let_def split: option.splits)

lemma attempts_is_blocked [frame_simps]: "attempts (snd (is_blocked key now l)) = attempts l"
  by (auto simp: is_blocked_def split: option.splits)

text \<open>One registered failure, on the attempts that are still inside the cooldown window.\<close>

definition recent :: "login_limiter \<Rightarrow> pystr \<Rightarrow> rat \<Rightarrow> rat list" where
  "recent l key now = filter (\<lambda>ts. now - of_int (cooldown_seconds l) \<le> ts) (attempts_of l key)"

lemma register_failure_key:
  "attempts (register_failure key now l) key =
     Some (if max_attempts l \<le> int (length (recent l key now)) + 1 then [] else recent l key now @ [now])"
  "blocked_until (register_failure key now l) key =
     (if max_attempts l \<le> int (length (recent l key now)) + 1
      then Some (now + of_int (cooldown_seconds l)) else blocked_until l key)"
  by (auto simp: register_failure_def cleanup_def recent_def attempts_of_def Let_def)

section \<open>The guard interface\<close>

text \<open>
  The calls of a run in time order: \<open>blocked\<close> is asked for any key; an attempt under \<open>k\<close> may start when the answer was no, and
  when it turns out wrong it is registered, however late. \<open>q\<close> is the number of attempts under \<open>k\<close> that have started and
  are not registered, never more than \<open>p\<close>, and \<open>fs\<close> the times of the wrong ones. The failures of other
  keys are registered and cleared at will.
\<close>

inductive guard_run ::
  "(pystr \<Rightarrow> rat \<Rightarrow> 's \<Rightarrow> bool \<times> 's) \<Rightarrow> (pystr \<Rightarrow> rat \<Rightarrow> 's \<Rightarrow> 's) \<Rightarrow> (pystr \<Rightarrow> 's \<Rightarrow> 's) \<Rightarrow> nat \<Rightarrow> pystr \<Rightarrow>
   's \<Rightarrow> rat \<Rightarrow> rat list \<Rightarrow> nat \<Rightarrow> 's \<Rightarrow> bool" for blocked failed clear p k s0 where
  start: "guard_run blocked failed clear p k s0 0 [] 0 s0"
| tick: "guard_run blocked failed clear p k s0 clk fs q s \<Longrightarrow> clk \<le> t \<Longrightarrow> guard_run blocked failed clear p k s0 t fs q s"
| ask: "guard_run blocked failed clear p k s0 clk fs q s \<Longrightarrow> guard_run blocked failed clear p k s0 clk fs q (snd (blocked key clk s))"
| admit: "guard_run blocked failed clear p k s0 clk fs q s \<Longrightarrow> blocked k clk s = (False, s') \<Longrightarrow> q < p \<Longrightarrow>
    guard_run blocked failed clear p k s0 clk fs (Suc q) s'"
| wrong: "guard_run blocked failed clear p k s0 clk fs (Suc q) s \<Longrightarrow>
    guard_run blocked failed clear p k s0 clk (fs @ [clk]) q (failed k clk s)"
| wrong_other: "guard_run blocked failed clear p k s0 clk fs q s \<Longrightarrow> key \<noteq> k \<Longrightarrow>
    guard_run blocked failed clear p k s0 clk fs q (failed key clk s)"
| right_other: "guard_run blocked failed clear p k s0 clk fs q s \<Longrightarrow> key \<noteq> k \<Longrightarrow>
    guard_run blocked failed clear p k s0 clk fs q (clear key s)"

locale attempt_guard =
  fixes blocked :: "pystr \<Rightarrow> rat \<Rightarrow> 's \<Rightarrow> bool \<times> 's"
    and failed :: "pystr \<Rightarrow> rat \<Rightarrow> 's \<Rightarrow> 's"
    and clear :: "pystr \<Rightarrow> 's \<Rightarrow> 's"
    and p :: nat
    and quota :: nat
    and window :: int
    and inv :: "pystr \<Rightarrow> rat \<Rightarrow> rat list \<Rightarrow> nat \<Rightarrow> 's \<Rightarrow> bool"
  assumes bound: "inv k clk fs q s \<Longrightarrow> length (in_window window t fs) \<le> quota"
    and later: "inv k clk fs q s \<Longrightarrow> clk \<le> t \<Longrightarrow> inv k t fs q s"
    and asked: "inv k clk fs q s \<Longrightarrow> inv k clk fs q (snd (blocked key clk s))"
    and admitted: "inv k clk fs q s \<Longrightarrow> blocked k clk s = (False, s') \<Longrightarrow> q < p \<Longrightarrow> inv k clk fs (Suc q) s'"
    and register: "inv k clk fs (Suc q) s \<Longrightarrow> inv k clk (fs @ [clk]) q (failed k clk s)"
    and register_other: "inv k clk fs q s \<Longrightarrow> key \<noteq> k \<Longrightarrow> inv k clk fs q (failed key clk s)"
    and clear_other: "inv k clk fs q s \<Longrightarrow> key \<noteq> k \<Longrightarrow> inv k clk fs q (clear key s)"
begin

lemma guarded_run:
  "guard_run blocked failed clear p k s0 clk fs q s \<Longrightarrow> inv k 0 [] 0 s0 \<Longrightarrow> inv k clk fs q s"
  by (induction rule: guard_run.induct) (auto intro: later asked admitted register register_other clear_other)

lemma guarded_bound:
  "guard_run blocked failed clear p k s0 clk fs q s \<Longrightarrow> inv k 0 [] 0 s0 \<Longrightarrow> length (in_window window t fs) \<le> quota"
  by (rule bound [OF guarded_run])

end

section \<open>The limiter provides the interface\<close>

text \<open>
  The failures of a key are those before its last lock, each a cooldown before the end of the
  lock or before now, and those after it, of which the limiter keeps the recent ones.
\<close>

definition epochs_ok :: "int \<Rightarrow> int \<Rightarrow> rat \<Rightarrow> rat list option \<Rightarrow> rat option \<Rightarrow> rat list \<Rightarrow> rat list \<Rightarrow> bool" where
  "epochs_ok m c clk att lock old cur \<longleftrightarrow>
     (\<exists>start \<le> clk - of_int c. (case att of None \<Rightarrow> [] | Some ts \<Rightarrow> ts) = filter (\<lambda>t. start \<le> t) cur) \<and>
     int (length (case att of None \<Rightarrow> [] | Some ts \<Rightarrow> ts)) < m \<and>
     (\<forall>t \<in> set old. t + of_int c \<le> (case lock of None \<Rightarrow> clk | Some b \<Rightarrow> max b clk)) \<and>
     (case lock of None \<Rightarrow> True | Some b \<Rightarrow> 0 \<le> b)"

text \<open>
  The failures of the last cooldown and the attempts that have started are within the quota together: while the key
  is not locked there are fewer than \<open>m\<close> of the first, and while it is locked none of the second is added.
\<close>

definition guard_inv :: "int \<Rightarrow> int \<Rightarrow> nat \<Rightarrow> pystr \<Rightarrow> rat \<Rightarrow> rat list \<Rightarrow> nat \<Rightarrow> login_limiter \<Rightarrow> bool" where
  "guard_inv m c p k clk fs q l \<longleftrightarrow>
     max_attempts l = m \<and> cooldown_seconds l = c \<and> 0 < m \<and> 0 \<le> c \<and> 0 \<le> clk \<and>
     (\<forall>t \<in> set fs. t \<le> clk) \<and> (\<forall>t. length (in_window c t fs) \<le> nat m + p - 1) \<and>
     length (filter (\<lambda>t. clk - of_int c < t) fs) + q \<le> nat m + p - 1 \<and>
     (\<exists>old cur. fs = old @ cur \<and> epochs_ok m c clk (attempts l k) (blocked_until l k) old cur)"

lemma guard_inv_new [inv_intros]:
  "0 < m \<Longrightarrow> 0 \<le> c \<Longrightarrow> guard_inv m c p k 0 [] 0 (new_login_limiter m c)"
  by (auto simp: guard_inv_def epochs_ok_def new_login_limiter_def in_window_def)

lemma epochs_ok_tick:
  assumes "epochs_ok m c clk att lock old cur" "clk \<le> t"
  shows "epochs_ok m c t att lock old cur"
proof -
  let ?ts = "case att of None \<Rightarrow> [] | Some ts \<Rightarrow> ts"
  obtain start where "start \<le> clk - of_int c" "?ts = filter (\<lambda>t. start \<le> t) cur"
    using assms(1) unfolding epochs_ok_def by blast
  then have "\<exists>start \<le> t - of_int c. ?ts = filter (\<lambda>t. start \<le> t) cur"
    using assms(2) by (intro exI [of _ start]) simp
  moreover have "(case lock of None \<Rightarrow> clk | Some b \<Rightarrow> max b clk) \<le> (case lock of None \<Rightarrow> t | Some b \<Rightarrow> max b t)"
    using assms(2) by (auto split: option.split)
  ultimately show ?thesis
    using assms(1) unfolding epochs_ok_def by (meson order_trans)
qed

lemma guard_inv_tick:
  assumes "guard_inv m c p k clk fs q l" "clk \<le> t"
  shows "guard_inv m c p k t fs q l"
proof -
  obtain old cur where fs: "fs = old @ cur"
    and ep: "epochs_ok m c clk (attempts l k) (blocked_until l k) old cur"
    using assms(1) unfolding guard_inv_def by (elim conjE exE)
  have "\<exists>old cur. fs = old @ cur \<and> epochs_ok m c t (attempts l k) (blocked_until l k) old cur"
    by (intro exI conjI, rule fs, rule epochs_ok_tick [OF ep assms(2)])
  moreover have "x \<le> t" if "x \<in> set fs" for x
  proof -
    have "x \<le> clk" using assms(1) that by (simp add: guard_inv_def)
    with assms(2) show ?thesis by simp
  qed
  moreover have "length (filter (\<lambda>x. t - of_int c < x) fs) \<le> length (filter (\<lambda>x. clk - of_int c < x) fs)"
    unfolding length_filter_conv_card using assms(2) by (auto intro!: card_mono)
  moreover have "0 \<le> t" using assms by (simp add: guard_inv_def)
  ultimately show ?thesis using assms(1) by (simp add: guard_inv_def)
qed

text \<open>Once the lock has run out, forgetting it loses nothing.\<close>

lemma epochs_ok_unlock:
  "epochs_ok m c t att (Some b) old cur \<Longrightarrow> b \<le> t \<Longrightarrow> epochs_ok m c t att None old cur"
  by (simp add: epochs_ok_def max_absorb2)

lemma guard_inv_other:
  "guard_inv m c p k clk fs q l \<Longrightarrow> attempts l' k = attempts l k \<Longrightarrow> blocked_until l' k = blocked_until l k \<Longrightarrow>
   max_attempts l' = max_attempts l \<Longrightarrow> cooldown_seconds l' = cooldown_seconds l \<Longrightarrow> guard_inv m c p k clk fs q l'"
  by (simp add: guard_inv_def)

text \<open>When the key is not blocked, every failure before the last lock is a cooldown old.\<close>

lemma is_blocked_key:
  "is_blocked k t l = (False, l') \<Longrightarrow>
   (\<forall>b. blocked_until l k = Some b \<longrightarrow> b = 0 \<or> b \<le> t) \<and>
   attempts l' = attempts l \<and> (\<forall>b. blocked_until l' k = Some b \<longrightarrow> b = 0) \<and>
   max_attempts l' = max_attempts l \<and> cooldown_seconds l' = cooldown_seconds l"
  by (auto simp: is_blocked_def split: option.splits if_splits)

lemma guard_inv_asked:
  assumes inv: "guard_inv m c p k t fs q l"
  shows "guard_inv m c p k t fs q (snd (is_blocked key t l))"
proof (cases "\<exists>b. key = k \<and> blocked_until l k = Some b \<and> b \<noteq> 0 \<and> b \<le> t")
  case True
  then obtain b where b: "key = k" "blocked_until l k = Some b" "b \<noteq> 0" "b \<le> t" by blast
  then have r: "snd (is_blocked key t l) = l\<lparr>blocked_until := (blocked_until l)(k := None)\<rparr>"
    by (simp add: is_blocked_def)
  from inv b have "\<exists>old cur. fs = old @ cur \<and> epochs_ok m c t (attempts l k) None old cur"
    unfolding guard_inv_def using epochs_ok_unlock by metis
  with inv show ?thesis unfolding r guard_inv_def by simp
next
  case False
  then have "blocked_until (snd (is_blocked key t l)) k = blocked_until l k"
    by (auto simp: is_blocked_def split: option.splits)
  then show ?thesis
    by (intro guard_inv_other [OF inv]) (simp_all add: frame_simps)
qed

text \<open>A key that is not blocked has fewer than \<open>m\<close> failures in the last cooldown.\<close>

lemma guard_inv_admitted:
  assumes inv: "guard_inv m c p k t fs q l" and nb: "is_blocked k t l = (False, l')" and q: "q < p"
  shows "guard_inv m c p k t fs (Suc q) l'"
proof -
  from inv obtain old cur where fs: "fs = old @ cur"
    and ep: "epochs_ok m c t (attempts l k) (blocked_until l k) old cur" and t0: "0 \<le> t" and m: "0 < m"
    unfolding guard_inv_def by blast
  have old: "x + of_int c \<le> t" if "x \<in> set old" for x
    using ep that is_blocked_key [OF nb] t0 by (cases "blocked_until l k") (auto simp: epochs_ok_def max_def split: if_splits)
  then have "filter (\<lambda>x. t - of_int c < x) old = []" by (fastforce simp: filter_empty_conv)
  then have "length (filter (\<lambda>x. t - of_int c < x) fs) = length (filter (\<lambda>x. t - of_int c < x) cur)" by (simp add: fs)
  moreover obtain start where st: "start \<le> t - of_int c" and at: "attempts_of l k = filter (\<lambda>t. start \<le> t) cur"
    and few: "int (length (attempts_of l k)) < m"
    using ep by (auto simp: epochs_ok_def attempts_of_def)
  moreover have "length (filter (\<lambda>x. t - of_int c < x) cur) \<le> length (attempts_of l k)"
    unfolding at length_filter_conv_card using st by (auto intro!: card_mono)
  ultimately have "length (filter (\<lambda>x. t - of_int c < x) fs) + Suc q \<le> nat m + p - 1" using q by linarith
  with guard_inv_asked [OF inv, of k] nb show ?thesis by (simp add: guard_inv_def)
qed

lemma window_snoc:
  assumes "\<And>s. length (in_window c s fs) \<le> n" "\<forall>t \<in> set fs. t \<le> u"
    and "length (filter (\<lambda>t. u - of_int c < t) fs) < n"
  shows "length (in_window c s (fs @ [u])) \<le> n"
proof (cases "s - of_int c < u \<and> u \<le> s")
  case True
  have "length (in_window c s fs) \<le> length (filter (\<lambda>t. u - of_int c < t) fs)"
    unfolding in_window_def length_filter_conv_card using True assms(2) by (auto intro!: card_mono)
  with True assms(3) show ?thesis by (simp add: in_window_def)
next
  case False
  then have "in_window c s (fs @ [u]) = in_window c s fs" by (auto simp: in_window_def)
  with assms(1) show ?thesis by simp
qed

lemma guard_inv_register:
  assumes inv: "guard_inv m c p k u fs (Suc q) l"
  shows "guard_inv m c p k u (fs @ [u]) q (register_failure k u l)"
proof -
  from inv obtain old cur where fs: "fs = old @ cur"
    and ep: "epochs_ok m c u (attempts l k) (blocked_until l k) old cur" and c: "0 \<le> c" and u0: "0 \<le> u"
    and past: "\<forall>t \<in> set fs. t \<le> u" and win: "\<And>s. length (in_window c s fs) \<le> nat m + p - 1"
    and all: "length (filter (\<lambda>t. u - of_int c < t) fs) + Suc q \<le> nat m + p - 1"
    and par: "max_attempts l = m" "cooldown_seconds l = c" "0 < m"
    unfolding guard_inv_def by blast
  let ?r = "filter (\<lambda>ts. u - of_int c \<le> ts) cur"
  obtain start where st: "start \<le> u - of_int c" and at: "attempts_of l k = filter (\<lambda>t. start \<le> t) cur"
    using ep by (auto simp: epochs_ok_def attempts_of_def)
  have "(start \<le> x \<and> u - of_int c \<le> x) = (u - of_int c \<le> x)" for x using st by auto
  then have rec: "recent l k u = ?r" using at par by (simp add: recent_def)
  have win': "length (in_window c s (fs @ [u])) \<le> nat m + p - 1" for s
    using win past all by (intro window_snoc) auto
  have all': "length (filter (\<lambda>t. u - of_int c < t) (fs @ [u])) + q \<le> nat m + p - 1"
    using all by (cases "u - of_int c < u") simp_all
  note key = register_failure_key [of k u l, unfolded rec par]
  have "\<exists>old' cur'. fs @ [u] = old' @ cur' \<and>
      epochs_ok m c u (attempts (register_failure k u l) k) (blocked_until (register_failure k u l) k) old' cur'"
  proof (cases "m \<le> int (length ?r) + 1")
    case True
    with key have "epochs_ok m c u (attempts (register_failure k u l) k)
        (blocked_until (register_failure k u l) k) (fs @ [u]) []"
      using past c u0 par by (auto simp: epochs_ok_def max_def)
    then show ?thesis by (metis append_Nil2)
  next
    case False
    have "blocked_until (register_failure k u l) k = blocked_until l k" using False key by simp
    moreover have at': "attempts (register_failure k u l) k = Some (filter (\<lambda>ts. u - of_int c \<le> ts) (cur @ [u]))"
      using False key c by simp
    moreover have "int (length (filter (\<lambda>ts. u - of_int c \<le> ts) (cur @ [u]))) < m" using False c by simp
    moreover have "\<exists>start \<le> u - of_int c. (case attempts (register_failure k u l) k of None \<Rightarrow> [] | Some ts \<Rightarrow> ts) =
        filter (\<lambda>t. start \<le> t) (cur @ [u])"
      unfolding at' by (intro exI [of _ "u - of_int c"]) simp
    ultimately have "epochs_ok m c u (attempts (register_failure k u l) k)
        (blocked_until (register_failure k u l) k) old (cur @ [u])"
      using ep unfolding epochs_ok_def by simp
    with fs show ?thesis by (metis append.assoc)
  qed
  with win' all' past par c u0 show ?thesis by (simp add: guard_inv_def frame_simps)
qed

interpretation limiter: attempt_guard is_blocked register_failure reset p "nat m + p - 1" c "guard_inv m c p"
  for m c p
proof unfold_locales
  fix k key clk fs q t l
  show "guard_inv m c p k clk fs q l \<Longrightarrow> key \<noteq> k \<Longrightarrow> guard_inv m c p k clk fs q (register_failure key clk l)"
    by (rule guard_inv_other) (auto simp: frame_simps)
  show "guard_inv m c p k clk fs q l \<Longrightarrow> key \<noteq> k \<Longrightarrow> guard_inv m c p k clk fs q (reset key l)"
    by (rule guard_inv_other) (auto simp: frame_simps)
  show "guard_inv m c p k clk fs q l \<Longrightarrow> length (in_window c t fs) \<le> nat m + p - 1"
    by (simp add: guard_inv_def)
qed (rule guard_inv_tick guard_inv_asked guard_inv_admitted guard_inv_register; assumption)+

section \<open>Properties\<close>

text \<open>
  C11. The lock: the failure that reaches \<open>max_attempts\<close> inside the cooldown window blocks its key
  until exactly \<open>cooldown_seconds\<close> later and no longer, a failure below it blocks nothing, a
  reset lifts the block, and another key sees none of it.
\<close>

theorem lockout_exact:
  assumes "0 \<le> now" and "0 < cooldown_seconds l" and "now \<le> t"
    and "blocked_until l key = None" and "other \<noteq> key"
  shows "fst (is_blocked key t (register_failure key now l)) =
           (max_attempts l \<le> int (length (recent l key now)) + 1 \<and> t < now + of_int (cooldown_seconds l)) \<and>
         fst (is_blocked key t (reset key (register_failure key now l))) = False \<and>
         fst (is_blocked other t (register_failure key now l)) = fst (is_blocked other t l)"
proof -
  have "0 < now + rat_of_int (cooldown_seconds l)"
    using assms(1,2) by (simp add: add_nonneg_pos)
  then show ?thesis
    using assms(4,5) by (auto simp: is_blocked_def register_failure_key reset_def limiter_frame split: option.splits)
qed

lemma lockout_exact_witness:
  "fst (is_blocked [65] 309 (register_failure [65] 10 (new_login_limiter 1 300))) = True \<and>
   fst (is_blocked [65] 310 (register_failure [65] 10 (new_login_limiter 1 300))) = False"
  using lockout_exact [of 10 "new_login_limiter 1 300" 309 "[65]" "[66]"]
    lockout_exact [of 10 "new_login_limiter 1 300" 310 "[65]" "[66]"]
  by (simp add: new_login_limiter_def)

end
