(* ===== verification/Rate_Limit.thy ===== *)
theory Rate_Limit
  imports Prelude
begin

text \<open>
  \<open>app/rate_limit.py\<close>: the sliding window limiter. Its state is the dictionary from a key to
  the deque of admission times; the clock reading is an argument. Times are exact rationals: the
  readings of the clock and the sums and differences of the code are exact in double precision
  at their magnitude. The specification is the whole history of admissions, never evicted; the
  limiter is shown to give the same answers.
\<close>

definition MAX_TRACKED_KEYS :: nat where
  "MAX_TRACKED_KEYS = 10000"

record rate_limiter =
  events :: "(pystr \<times> rat list) list"

definition new_rate_limiter :: rate_limiter where
  "new_rate_limiter = \<lparr>events = []\<rparr>"

definition evict_expired :: "rat \<Rightarrow> (pystr \<times> rat list) list \<Rightarrow> (pystr \<times> rat list) list" where
  "evict_expired cutoff evs = filter (\<lambda>(k, bucket). \<not> (bucket = [] \<or> last bucket \<le> cutoff)) evs"

definition allow :: "pystr \<Rightarrow> int \<Rightarrow> int \<Rightarrow> rat \<Rightarrow> rate_limiter \<Rightarrow> (bool \<times> int) result \<times> rate_limiter" where
  "allow key limit window_seconds now rl =
     (let cutoff = now - of_int window_seconds;
          evs = (if MAX_TRACKED_KEYS \<le> length (events rl) then evict_expired cutoff (events rl)
                 else events rl);
          evs = setdefault key [] evs;
          bucket = dropWhile (\<lambda>t. t \<le> cutoff) (the (map_of evs key));
          evs = AList.update key bucket evs
      in if limit \<le> int (length bucket) then
           (case bucket of
              [] \<Rightarrow> Inl IndexErr
            | oldest # _ \<Rightarrow> Inr (False, max 1 \<lceil>(oldest + of_int window_seconds) - now\<rceil>),
            rl\<lparr>events := evs\<rparr>)
         else (Inr (True, 0), rl\<lparr>events := AList.update key (bucket @ [now]) evs\<rparr>))"

section \<open>Buckets\<close>

definition bucket_of :: "rate_limiter \<Rightarrow> pystr \<Rightarrow> rat list" where
  "bucket_of rl k = (case map_of (events rl) k of None \<Rightarrow> [] | Some b \<Rightarrow> b)"

definition limiter_ok :: "rate_limiter \<Rightarrow> rat \<Rightarrow> bool" where
  "limiter_ok rl clk \<longleftrightarrow>
     dict_ok (events rl) \<and> (\<forall>k. sorted (bucket_of rl k) \<and> (\<forall>t \<in> set (bucket_of rl k). t \<le> clk))"

definition live :: "rate_limiter \<Rightarrow> pystr \<Rightarrow> rat \<Rightarrow> rat list" where
  "live rl k c = filter (\<lambda>t. c < t) (bucket_of rl k)"

lemma limiter_ok_new [inv_intros]: "limiter_ok new_rate_limiter clk"
  by (simp add: limiter_ok_def new_rate_limiter_def bucket_of_def dict_ok_def)

text \<open>The dictionary the decision is taken on: evicted, the key present, its bucket trimmed.\<close>

definition trimmed :: "pystr \<Rightarrow> rat \<Rightarrow> rate_limiter \<Rightarrow> rate_limiter" where
  "trimmed key cutoff rl =
     (let evs = (if MAX_TRACKED_KEYS \<le> length (events rl) then evict_expired cutoff (events rl)
                 else events rl);
          evs = setdefault key [] evs
      in \<lparr>events = AList.update key (dropWhile (\<lambda>t. t \<le> cutoff) (the (map_of evs key))) evs\<rparr>)"

lemma evict_expired_bucket:
  assumes "dict_ok evs"
  shows "map_of (evict_expired c evs) k =
    (case map_of evs k of None \<Rightarrow> None
     | Some b \<Rightarrow> if b = [] \<or> last b \<le> c then None else Some b)"
  unfolding evict_expired_def by (simp add: map_of_filter_key [OF assms] split: option.splits)

lemma bucket_of_trimmed:
  assumes "dict_ok (events rl)"
  shows "bucket_of (trimmed key c rl) k =
    (if k = key then (if MAX_TRACKED_KEYS \<le> length (events rl) \<and> bucket_of rl k \<noteq> []
                          \<and> last (bucket_of rl k) \<le> c
                      then [] else dropWhile (\<lambda>t. t \<le> c) (bucket_of rl k))
     else if MAX_TRACKED_KEYS \<le> length (events rl) \<and> bucket_of rl k \<noteq> [] \<and> last (bucket_of rl k) \<le> c
     then [] else bucket_of rl k)"
  using assms
  by (auto simp: trimmed_def bucket_of_def Let_def map_of_update map_of_setdefault
      evict_expired_bucket split: option.splits)

lemma dict_ok_trimmed [inv_intros]: "dict_ok (events rl) \<Longrightarrow> dict_ok (events (trimmed key c rl))"
  by (auto simp: trimmed_def Let_def evict_expired_def intro!: inv_intros)

lemma all_dead_filter:
  "sorted b \<Longrightarrow> b \<noteq> [] \<Longrightarrow> last b \<le> (c::rat) \<Longrightarrow> filter (\<lambda>t. c < t) b = []"
  using sorted_last_max by (fastforce simp: filter_empty_conv)

lemma live_trimmed:
  assumes "limiter_ok rl clk" "c \<le> c'"
  shows "live (trimmed key c rl) k c' = live rl k c'"
proof -
  have d: "dict_ok (events rl)" and s: "\<And>k. sorted (bucket_of rl k)"
    using assms by (auto simp: limiter_ok_def)
  have dead: "filter (\<lambda>t. c' < t) (bucket_of rl k) = []"
    if "bucket_of rl k \<noteq> []" "last (bucket_of rl k) \<le> c" for k
    using that s assms(2) by (intro all_dead_filter) auto
  have both: "(c < x \<and> c' < x) = (c' < x)" for x using assms(2) by auto
  show ?thesis
    by (auto simp: live_def bucket_of_trimmed [OF d] dropWhile_eq_filter_sorted [OF s] both dest: dead)
qed

lemma bucket_trimmed_key:
  assumes "limiter_ok rl clk"
  shows "bucket_of (trimmed key c rl) key = live rl key c"
proof -
  have d: "dict_ok (events rl)" and s: "sorted (bucket_of rl key)"
    using assms by (auto simp: limiter_ok_def)
  show ?thesis
    by (auto simp: live_def bucket_of_trimmed [OF d] dropWhile_eq_filter_sorted [OF s]
        all_dead_filter [OF s])
qed

text \<open>The limiter's answer and its new state, in terms of the events still in the window.\<close>

definition push :: "pystr \<Rightarrow> rat \<Rightarrow> rate_limiter \<Rightarrow> rate_limiter" where
  "push key now rl = rl\<lparr>events := AList.update key (bucket_of rl key @ [now]) (events rl)\<rparr>"

lemma bucket_of_push: "bucket_of (push key now rl) k = (if k = key then bucket_of rl k @ [now] else bucket_of rl k)"
  by (simp add: push_def bucket_of_def map_of_update)

lemma trimmed_events:
  "events (trimmed key c rl) =
   (let evs = setdefault key [] (if MAX_TRACKED_KEYS \<le> length (events rl)
                then evict_expired c (events rl) else events rl)
    in AList.update key (dropWhile (\<lambda>t. t \<le> c) (the (map_of evs key))) evs)"
  by (simp add: trimmed_def Let_def)

lemma allow_eq:
  assumes "limiter_ok rl clk"
  shows "allow key limit w now rl =
    (let c = now - of_int w; b = live rl key c; rl' = trimmed key c rl
     in if limit \<le> int (length b)
        then (case b of [] \<Rightarrow> Inl IndexErr
              | oldest # _ \<Rightarrow> Inr (False, max 1 \<lceil>(oldest + of_int w) - now\<rceil>), rl')
        else (Inr (True, 0), push key now rl'))"
proof -
  let ?c = "now - of_int w"
  let ?evs = "setdefault key [] (if MAX_TRACKED_KEYS \<le> length (events rl)
                then evict_expired ?c (events rl) else events rl)"
  let ?b = "dropWhile (\<lambda>t. t \<le> ?c) (the (map_of ?evs key))"
  have b: "?b = live rl key ?c"
    using bucket_trimmed_key [OF assms, of key ?c]
    by (simp add: bucket_of_def trimmed_events Let_def map_of_update)
  have t: "trimmed key ?c rl = rl\<lparr>events := AList.update key ?b ?evs\<rparr>"
    by (simp add: trimmed_def Let_def)
  show ?thesis
    unfolding allow_def Let_def b [symmetric] t push_def
    by (simp add: bucket_of_def map_of_update)
qed

section \<open>The invariant\<close>

lemma limiter_ok_trimmed [inv_intros]:
  assumes "limiter_ok rl clk"
  shows "limiter_ok (trimmed key c rl) clk"
proof -
  have d: "dict_ok (events rl)" using assms by (simp add: limiter_ok_def)
  have s: "sorted (dropWhile (\<lambda>t. t \<le> c) (bucket_of rl k))" for k
    using assms by (auto simp: limiter_ok_def intro: sorted_dropWhile)
  show ?thesis
    using assms s unfolding limiter_ok_def
    by (auto simp: bucket_of_trimmed [OF d] intro: dict_ok_trimmed dest: set_dropWhileD)
qed

lemma limiter_ok_push [inv_intros]:
  "limiter_ok rl clk \<Longrightarrow> clk \<le> now \<Longrightarrow> limiter_ok (push key now rl) now"
  unfolding limiter_ok_def
  by (auto simp: bucket_of_push sorted_append intro: dict_ok_update order_trans)
     (auto simp: push_def intro: dict_ok_update)

lemma limiter_ok_mono: "limiter_ok rl clk \<Longrightarrow> clk \<le> now \<Longrightarrow> limiter_ok rl now"
  by (fastforce simp: limiter_ok_def)

lemma allow_ok [inv_intros]:
  assumes "limiter_ok rl clk" "clk \<le> now"
  shows "limiter_ok (snd (allow key limit w now rl)) now"
  unfolding allow_eq [OF assms(1)]
  using assms by (auto simp: Let_def intro!: inv_intros elim: limiter_ok_mono)

section \<open>Refinement of the history specification\<close>

type_synonym call = "pystr \<times> int \<times> rat"

definition allow_step :: "int \<Rightarrow> call \<Rightarrow> rate_limiter \<Rightarrow> (bool \<times> int) result \<times> rate_limiter" where
  "allow_step w = (\<lambda>(key, limit, now) rl. allow key limit w now rl)"

text \<open>
  The specification's state: every admission of every key since the start, and the latest clock
  reading. A call is admitted iff fewer than \<open>limit\<close> admissions lie in the window before it.
\<close>

type_synonym history = "(pystr \<Rightarrow> rat list) \<times> rat"

definition spec_step :: "int \<Rightarrow> call \<Rightarrow> history \<Rightarrow> (bool \<times> int) result \<times> history" where
  "spec_step w = (\<lambda>(key, limit, now) (H, clk).
     (let b = filter (\<lambda>t. now - of_int w < t) (H key)
      in if limit \<le> int (length b)
         then (case b of [] \<Rightarrow> Inl IndexErr
               | oldest # _ \<Rightarrow> Inr (False, max 1 \<lceil>(oldest + of_int w) - now\<rceil>), (H, now))
         else (Inr (True, 0), (H(key := H key @ [now]), now))))"

definition clock_ok :: "history \<Rightarrow> call \<Rightarrow> bool" where
  "clock_ok = (\<lambda>(H, clk) (key, limit, now). clk \<le> now)"

text \<open>What the limiter keeps of a key's history is enough for every later window.\<close>

definition refines :: "int \<Rightarrow> rate_limiter \<Rightarrow> history \<Rightarrow> bool" where
  "refines w rl = (\<lambda>(H, clk).
     limiter_ok rl clk \<and>
     (\<forall>k c. clk - of_int w \<le> c \<longrightarrow> live rl k c = filter (\<lambda>t. c < t) (H k)))"

lemma live_live: "c \<le> c' \<Longrightarrow> live rl k c' = filter (\<lambda>t. c' < t) (live rl k c)"
  unfolding live_def by (rule filter_less_filter [symmetric])

lemma live_push: "live (push key now rl) k c =
    (if k = key \<and> c < now then live rl k c @ [now] else live rl k c)"
  by (simp add: live_def bucket_of_push)

lemma refines_step:
  assumes r: "refines w rl h" and en: "clock_ok h i" and w: "0 < w"
  shows "fst (allow_step w i rl) = fst (spec_step w i h) \<and>
         refines w (snd (allow_step w i rl)) (snd (spec_step w i h))"
proof -
  obtain H clk where h: "h = (H, clk)" by (cases h)
  obtain key limit now where i: "i = (key, limit, now)" by (cases i) auto
  let ?c = "now - of_int w"
  have ok: "limiter_ok rl clk" and le: "clk \<le> now" using r en by (auto simp: refines_def h i clock_ok_def)
  have hist: "\<And>k c. ?c \<le> c \<Longrightarrow> live rl k c = filter (\<lambda>t. c < t) (H k)"
    using r le by (auto simp: refines_def h)
  have lt: "\<And>k c. ?c \<le> c \<Longrightarrow> live (trimmed key ?c rl) k c = filter (\<lambda>t. c < t) (H k)"
    using hist live_trimmed [OF ok] by simp
  have lp: "\<And>k c. ?c \<le> c \<Longrightarrow> live (push key now (trimmed key ?c rl)) k c
              = filter (\<lambda>t. c < t) ((H(key := H key @ [now])) k)"
    using lt by (simp add: live_push)
  have ok': "limiter_ok (trimmed key ?c rl) now" "limiter_ok (push key now (trimmed key ?c rl)) now"
    using ok le by (auto intro!: inv_intros intro: limiter_ok_mono)
  show ?thesis
    using hist [of ?c key] lt lp ok'
    by (simp add: allow_step_def spec_step_def h i allow_eq [OF ok] Let_def refines_def)
qed

lemma refines_new: "refines w new_rate_limiter ((\<lambda>_. []), clk)"
  by (simp add: refines_def inv_intros) (simp add: live_def bucket_of_def new_rate_limiter_def)

text \<open>The window of every caller is \<open>RATE_LIMIT_WINDOW_SECONDS\<close>.\<close>

definition RATE_LIMIT_WINDOW_SECONDS :: int where
  "RATE_LIMIT_WINDOW_SECONDS = 60"

interpretation minute: simulation
  "allow_step RATE_LIMIT_WINDOW_SECONDS" "spec_step RATE_LIMIT_WINDOW_SECONDS"
  "refines RATE_LIMIT_WINDOW_SECONDS" clock_ok
  by unfold_locales (simp_all add: refines_step RATE_LIMIT_WINDOW_SECONDS_def)

section \<open>What a sequence of calls is granted\<close>

definition call_time :: "call \<Rightarrow> rat" where
  "call_time = (\<lambda>(key, limit, now). now)"

definition admitted :: "pystr \<Rightarrow> call list \<Rightarrow> (bool \<times> int) result list \<Rightarrow> rat list" where
  "admitted k calls outs =
     map (\<lambda>(c, out). call_time c)
       (filter (\<lambda>(c, out). fst c = k \<and> out = Inr (True, 0)) (zip calls outs))"

definition calls_ok :: "pystr \<Rightarrow> int \<Rightarrow> history \<Rightarrow> call \<Rightarrow> bool" where
  "calls_ok k L = (\<lambda>h i. clock_ok h i \<and> (fst i = k \<longrightarrow> fst (snd i) = L))"

definition window_inv :: "int \<Rightarrow> pystr \<Rightarrow> int \<Rightarrow> history \<Rightarrow> bool" where
  "window_inv w k L = (\<lambda>(H, clk).
     sorted (H k) \<and> (\<forall>t \<in> set (H k). t \<le> clk) \<and> (\<forall>s. length (in_window w s (H k)) \<le> nat L))"

lemma spec_step_window:
  assumes inv: "window_inv w k L h" and en: "calls_ok k L h i"
  shows "window_inv w k L (snd (spec_step w i h))"
proof -
  obtain H clk where h: "h = (H, clk)" by (cases h)
  obtain key limit now where i: "i = (key, limit, now)" by (cases i) auto
  let ?b = "filter (\<lambda>t. now - of_int w < t) (H key)"
  have le: "clk \<le> now" and lk: "key = k \<Longrightarrow> limit = L"
    using en by (auto simp: calls_ok_def clock_ok_def h i)
  have old: "sorted (H k)" "\<And>t. t \<in> set (H k) \<Longrightarrow> t \<le> now" "\<And>s. length (in_window w s (H k)) \<le> nat L"
    using inv le by (auto simp: window_inv_def h)
  show ?thesis
  proof (cases "key = k \<and> \<not> limit \<le> int (length ?b)")
    case True
    have "length (in_window w s (H k @ [now])) \<le> nat L" for s
    proof (cases "s - of_int w < now \<and> now \<le> s")
      case True': True
      have "length (in_window w s (H k)) \<le> length ?b"
        unfolding in_window_def length_filter_conv_card using True True' old(2)
        by (auto intro!: card_mono)
      moreover have "int (length ?b) < L" using True lk by auto
      ultimately show ?thesis using True' by (simp add: in_window_def)
    next
      case False
      then have "in_window w s (H k @ [now]) = in_window w s (H k)" by (auto simp: in_window_def)
      then show ?thesis using old(3) [of s] by simp
    qed
    with True old show ?thesis
      by (auto simp: window_inv_def spec_step_def h i Let_def sorted_append)
  next
    case False
    with old show ?thesis by (auto simp: window_inv_def spec_step_def h i Let_def)
  qed
qed

interpretation quota: invariant_machine
  "spec_step RATE_LIMIT_WINDOW_SECONDS" "calls_ok k L" "window_inv RATE_LIMIT_WINDOW_SECONDS k L"
  for k L
  by unfold_locales (rule spec_step_window)

lemma spec_step_clock: "snd (snd (spec_step w (key, limit, now) (H, clk))) = now"
  by (simp add: spec_step_def Let_def)

lemma spec_history:
  "fst (snd (run_steps (spec_step w) calls (H, clk))) k =
   H k @ admitted k calls (fst (run_steps (spec_step w) calls (H, clk)))"
proof (induction calls arbitrary: H clk)
  case (Cons c calls)
  obtain key limit now where c: "c = (key, limit, now)" by (cases c) auto
  obtain H' where st: "snd (spec_step w c (H, clk)) = (H', now)"
    using spec_step_clock [of w key limit now H clk] c by (metis prod.collapse)
  have "H' k = H k @ (if key = k \<and> fst (spec_step w c (H, clk)) = Inr (True, 0) then [now] else [])"
    using st by (auto simp: spec_step_def c Let_def split: if_splits list.splits)
  with Cons [of H' now] st show ?case
    by (auto simp: admitted_def c call_time_def)
qed (simp add: admitted_def)

lemma admissible_clock:
  "sorted (map call_time calls) \<Longrightarrow> (\<And>c. c \<in> set calls \<Longrightarrow> clk \<le> call_time c)
   \<Longrightarrow> admissible clock_ok (spec_step w) calls (H, clk)"
proof (induction calls arbitrary: H clk)
  case (Cons c calls)
  obtain key limit now where c: "c = (key, limit, now)" by (cases c) auto
  obtain H' where st: "snd (spec_step w c (H, clk)) = (H', now)"
    using spec_step_clock [of w key limit now H clk] c by (metis prod.collapse)
  have "admissible clock_ok (spec_step w) calls (H', now)"
    using Cons.prems by (intro Cons.IH) (auto simp: c call_time_def)
  then show ?case using Cons.prems(2) [of c]
    using st by (simp add: clock_ok_def c call_time_def)
qed simp

lemma admissible_calls:
  "admissible clock_ok (spec_step w) calls h \<Longrightarrow> list_all (\<lambda>c. fst c = k \<longrightarrow> fst (snd c) = L) calls
   \<Longrightarrow> admissible (calls_ok k L) (spec_step w) calls h"
  by (induction calls arbitrary: h) (auto simp: calls_ok_def)

text \<open>The calls of a run: the clock never runs backwards and \<open>k\<close> is always asked with limit \<open>L\<close>.\<close>

definition fair_calls :: "pystr \<Rightarrow> int \<Rightarrow> rat \<Rightarrow> call list \<Rightarrow> bool" where
  "fair_calls k L t0 calls \<longleftrightarrow>
     sorted (map call_time calls) \<and>
     list_all (\<lambda>c. t0 \<le> call_time c \<and> (fst c = k \<longrightarrow> fst (snd c) = L)) calls"

abbreviation limiter_run :: "call list \<Rightarrow> (bool \<times> int) result list \<times> rate_limiter" where
  "limiter_run calls \<equiv> run_steps (allow_step RATE_LIMIT_WINDOW_SECONDS) calls new_rate_limiter"

abbreviation history_run :: "rat \<Rightarrow> call list \<Rightarrow> (bool \<times> int) result list \<times> history" where
  "history_run t0 calls \<equiv> run_steps (spec_step RATE_LIMIT_WINDOW_SECONDS) calls ((\<lambda>_. []), t0)"

lemma limiter_run_simulates:
  assumes "sorted (map call_time calls)" "\<forall>c \<in> set calls. t0 \<le> call_time c"
  shows "fst (limiter_run calls) = fst (history_run t0 calls)"
    and "refines RATE_LIMIT_WINDOW_SECONDS (snd (limiter_run calls)) (snd (history_run t0 calls))"
  using minute.run_simulates [OF refines_new admissible_clock, of calls t0] assms by auto


section \<open>Properties\<close>

text \<open>
  C1. The limiter answers every sequence of calls, whatever the keys, limits and evictions, as
  the specification that keeps the whole history of admissions does, as long as the clock does
  not run backwards.
\<close>

theorem limiter_refines_history:
  assumes "sorted (map call_time calls)" and "\<forall>c \<in> set calls. t0 \<le> call_time c"
  shows "fst (run_steps (allow_step RATE_LIMIT_WINDOW_SECONDS) calls new_rate_limiter) =
         fst (run_steps (spec_step RATE_LIMIT_WINDOW_SECONDS) calls ((\<lambda>_. []), t0))"
  using assms by (rule limiter_run_simulates(1))

lemma history_window:
  assumes "fair_calls k L t0 calls"
  shows "window_inv RATE_LIMIT_WINDOW_SECONDS k L (snd (history_run t0 calls))"
  using assms unfolding fair_calls_def
  by (intro quota.run_inv admissible_calls admissible_clock)
     (auto simp: window_inv_def in_window_def list_all_iff)

lemma admitted_history:
  assumes "fair_calls k L t0 calls"
  shows "admitted k calls (fst (limiter_run calls)) = fst (snd (history_run t0 calls)) k"
  using assms limiter_run_simulates(1) [of calls t0] spec_history [of _ calls "\<lambda>_. []" t0 k]
  by (simp add: fair_calls_def list_all_iff)

text \<open>
  C9. In any interval of \<open>RATE_LIMIT_WINDOW_SECONDS\<close> seconds, wherever it lies, a key is admitted
  at most \<open>limit\<close> times.
\<close>

theorem limiter_window_bound:
  assumes "fair_calls k L t0 calls"
  shows "length (in_window RATE_LIMIT_WINDOW_SECONDS s (admitted k calls (fst (limiter_run calls)))) \<le> nat L"
  using history_window [OF assms]
  by (cases "snd (history_run t0 calls)") (auto simp: admitted_history [OF assms] window_inv_def)

lemma limiter_run_ok:
  assumes "fair_calls k L t0 calls"
  shows "\<exists>H clk. history_run t0 calls = (fst (history_run t0 calls), (H, clk)) \<and>
           refines RATE_LIMIT_WINDOW_SECONDS (snd (limiter_run calls)) (H, clk) \<and>
           window_inv RATE_LIMIT_WINDOW_SECONDS k L (H, clk)"
  using assms history_window [OF assms] limiter_run_simulates(2) [of calls t0]
  by (cases "snd (history_run t0 calls)") (simp add: fair_calls_def list_all_iff prod_eq_iff)

lemma clock_after_run: "calls \<noteq> [] \<Longrightarrow> snd (snd (run_steps (spec_step w) calls h)) = call_time (last calls)"
  by (induction calls arbitrary: h) (auto simp: call_time_def spec_step_def Let_def split: prod.splits)

text \<open>A refused call that follows a run: the window holds exactly \<open>L\<close> admissions.\<close>

lemma refused_state:
  assumes "refines w rl (H, clk)" and "window_inv w k L (H, clk)" and "clk \<le> now"
    and "fst (allow k L w now rl) = Inr (False, r)"
  obtains oldest rest where "live rl k (now - of_int w) = oldest # rest"
    and "int (length (oldest # rest)) = L"
    and "r = max 1 \<lceil>(oldest + of_int w) - now\<rceil>"
    and "snd (allow k L w now rl) = trimmed k (now - of_int w) rl"
    and "limiter_ok rl clk" and "sorted (oldest # rest)"
proof -
  have ok: "limiter_ok rl clk" using assms(1) by (simp add: refines_def)
  let ?b = "live rl k (now - of_int w)"
  from assms(4) obtain oldest rest where b: "?b = oldest # rest" and L: "L \<le> int (length ?b)"
    and r: "r = max 1 \<lceil>(oldest + of_int w) - now\<rceil>"
    by (auto simp: allow_eq [OF ok] Let_def split: if_splits list.splits)
  have h: "?b = filter (\<lambda>t. now - of_int w < t) (H k)" using assms(1,3) by (simp add: refines_def)
  also have "\<dots> = in_window w now (H k)" using assms(2,3)
    by (auto simp: in_window_def window_inv_def intro!: filter_cong)
  finally have "length ?b \<le> nat L" using assms(2) by (simp add: window_inv_def)
  with L b have "int (length (oldest # rest)) = L" by simp
  moreover have "snd (allow k L w now rl) = trimmed k (now - of_int w) rl"
    using L by (simp add: allow_eq [OF ok] Let_def)
  moreover have "sorted ?b"
    using assms(2) unfolding h by (simp add: window_inv_def sorted_wrt_filter)
  then have "sorted (oldest # rest)" by (simp only: b)
  ultimately show thesis using that b r ok by blast
qed

lemma live_after_refusal:
  assumes "limiter_ok l clk" "now \<le> later" "live l k (now - of_int w) = ts"
  shows "live (trimmed k (now - of_int w) l) k (later - of_int w) = filter (\<lambda>t. later - of_int w < t) ts"
proof -
  have c: "now - of_int w \<le> later - of_int w" using assms(2) by simp
  show ?thesis using live_trimmed [OF assms(1) c, of k] live_live [OF c, of l k] assms(3) by simp
qed

lemma clock_at_run:
  assumes "\<forall>c \<in> set calls. call_time c \<le> now" "t0 \<le> now" "snd (history_run t0 calls) = (H, clk)"
  shows "clk \<le> now"
proof (cases "calls = []")
  case False
  then show ?thesis using clock_after_run [OF False, of RATE_LIMIT_WINDOW_SECONDS "((\<lambda>_. []), t0)"] assms by simp
qed (use assms(2,3) in simp)

text \<open>
  C10. \<open>Retry-After\<close> is right: after a refusal that names \<open>r\<close> seconds, the same key is admitted at
  any time at least \<open>r\<close> seconds later, and while \<open>r\<close> is above one it is still refused up to
  \<open>r - 1\<close> seconds later.
\<close>

theorem retry_after_exact:
  assumes "fair_calls k L t0 calls" and "\<forall>c \<in> set calls. call_time c \<le> now" and "t0 \<le> now"
    and "allow k L RATE_LIMIT_WINDOW_SECONDS now
           (snd (run_steps (allow_step RATE_LIMIT_WINDOW_SECONDS) calls new_rate_limiter))
         = (Inr (False, r), rl)"
  shows "(now + of_int r \<le> later \<longrightarrow> fst (allow k L RATE_LIMIT_WINDOW_SECONDS later rl) = Inr (True, 0)) \<and>
         (1 < r \<and> now \<le> later \<and> later \<le> now + of_int (r - 1) \<longrightarrow>
            fst (allow k L RATE_LIMIT_WINDOW_SECONDS later rl) \<noteq> Inr (True, 0))"
proof -
  let ?w = RATE_LIMIT_WINDOW_SECONDS
  obtain H clk where run: "snd (history_run t0 calls) = (H, clk)" and ref: "refines ?w (snd (limiter_run calls)) (H, clk)"
    and win: "window_inv ?w k L (H, clk)"
    using limiter_run_ok [OF assms(1)] by (metis snd_conv)
  have "clk \<le> now" by (rule clock_at_run [OF assms(2,3) run])
  from refused_state [OF ref win this, of r] assms(4)
  obtain oldest rest where b: "live (snd (limiter_run calls)) k (now - of_int ?w) = oldest # rest"
    and len: "int (length (oldest # rest)) = L" and r: "r = max 1 \<lceil>(oldest + of_int ?w) - now\<rceil>"
    and rl: "rl = trimmed k (now - of_int ?w) (snd (limiter_run calls))"
    and ok: "limiter_ok (snd (limiter_run calls)) clk" and srt: "sorted (oldest # rest)"
    by (metis fst_conv snd_conv)
  have okr: "limiter_ok rl clk" unfolding rl by (rule limiter_ok_trimmed [OF ok])
  note live_later = live_after_refusal [OF ok _ b, folded rl]
  have up: "oldest + of_int ?w - now \<le> of_int r" unfolding r by linarith
  show ?thesis
  proof (intro conjI impI)
    assume late: "now + of_int r \<le> later"
    have "1 \<le> r" by (simp add: r)
    then have "(1::rat) \<le> of_int r" by simp
    with late have nl: "now \<le> later" by linarith
    have "oldest \<le> later - of_int ?w" using up late by linarith
    then have "live rl k (later - of_int ?w) = filter (\<lambda>t. later - of_int ?w < t) rest"
      by (simp add: live_later [OF nl])
    then have "length (live rl k (later - of_int ?w)) \<le> length rest" by simp
    with len show "fst (allow k L ?w later rl) = Inr (True, 0)"
      by (simp add: allow_eq [OF okr] Let_def)
  next
    assume early: "1 < r \<and> now \<le> later \<and> later \<le> now + of_int (r - 1)"
    then have "r = \<lceil>(oldest + of_int ?w) - now\<rceil>" by (simp add: r max_def split: if_splits)
    then have "of_int (r - 1) < (oldest + of_int ?w) - now" by linarith
    with early have "later - of_int ?w < oldest" by linarith
    then have "filter (\<lambda>t. later - of_int ?w < t) (oldest # rest) = oldest # rest"
      using srt by (auto simp: filter_id_conv)
    then show "fst (allow k L ?w later rl) \<noteq> Inr (True, 0)"
      using early len by (simp add: allow_eq [OF okr] Let_def live_later)
  qed
qed

text \<open>
  A call raises (an index error on the empty deque) exactly when the limit is not positive
  and the window is empty; otherwise it answers. A limit of zero, which the settings accept, so
  makes every call of an idle key raise.
\<close>

theorem allow_raises_iff:
  assumes "limiter_ok rl clk"
  shows "(fst (allow key limit w now rl) = Inl IndexErr \<longleftrightarrow> limit \<le> 0 \<and> live rl key (now - of_int w) = []) \<and>
         ((\<exists>ans. fst (allow key limit w now rl) = Inr ans) \<longleftrightarrow>
            \<not> (limit \<le> 0 \<and> live rl key (now - of_int w) = []))"
  by (auto simp: allow_eq [OF assms] Let_def split: list.splits)

text \<open>
  Memory: a call leaves at most \<open>MAX_TRACKED_KEYS\<close> keys tracked, or one more than the keys
  whose newest event lies in the caller's window.
\<close>

theorem allow_tracked_keys:
  "length (events (snd (allow key limit w now rl))) \<le>
     max MAX_TRACKED_KEYS
       (Suc (length (filter (\<lambda>(k, b). b \<noteq> [] \<and> now - of_int w < last b) (events rl))))"
proof -
  let ?c = "now - of_int w"
  let ?evs = "if MAX_TRACKED_KEYS \<le> length (events rl) then evict_expired ?c (events rl) else events rl"
  have live: "length (evict_expired ?c (events rl)) =
        length (filter (\<lambda>(k, b). b \<noteq> [] \<and> ?c < last b) (events rl))"
    unfolding evict_expired_def by (rule arg_cong [where f = length], rule filter_cong) auto
  have some: "(map_of (setdefault key [] e) key = None) = False" for e
    by (auto simp: map_of_setdefault split: option.splits)
  have "length (events (snd (allow key limit w now rl))) = length (setdefault key [] ?evs)"
    by (simp add: allow_def Let_def length_update map_of_update some del: not_None_eq)
  also have "\<dots> \<le> Suc (length ?evs)"
    by (auto simp: setdefault_def length_update split: option.splits)
  finally show ?thesis using live by (auto split: if_splits)
qed

section \<open>Witnesses\<close>

lemma fair_three: "fair_calls [65] 2 0 [([65], 2, 10), ([66], 9, 11), ([65], 2, 12)]"
  by (simp add: fair_calls_def call_time_def)

lemma limiter_refines_history_witness:
  "fst (run_steps (allow_step RATE_LIMIT_WINDOW_SECONDS) [([65], 2, 10), ([65], 2, 12), ([65], 2, 13)] new_rate_limiter) =
   fst (run_steps (spec_step RATE_LIMIT_WINDOW_SECONDS) [([65], 2, 10), ([65], 2, 12), ([65], 2, 13)] ((\<lambda>_. []), 0))"
  by (rule limiter_refines_history) (simp_all add: call_time_def)

lemma limiter_window_bound_witness:
  "length (in_window RATE_LIMIT_WINDOW_SECONDS 20 (admitted [65] [([65], 2, 10), ([66], 9, 11), ([65], 2, 12)]
      (fst (run_steps (allow_step RATE_LIMIT_WINDOW_SECONDS) [([65], 2, 10), ([66], 9, 11), ([65], 2, 12)] new_rate_limiter))))
   \<le> nat 2"
  by (rule limiter_window_bound [OF fair_three])

lemma retry_after_exact_witness:
  "let calls = [([65], 2, 10), ([66], 9, 11), ([65], 2, 12)];
       (out, rl) = allow [65] 2 RATE_LIMIT_WINDOW_SECONDS 15
         (snd (run_steps (allow_step RATE_LIMIT_WINDOW_SECONDS) calls new_rate_limiter))
   in out = Inr (False, 55) \<and> fst (allow [65] 2 RATE_LIMIT_WINDOW_SECONDS 70 rl) = Inr (True, 0)"
proof -
  let ?calls = "[([65], 2, 10), ([66], 9, 11), ([65], 2, 12)] :: call list"
  let ?st = "snd (run_steps (allow_step RATE_LIMIT_WINDOW_SECONDS) ?calls new_rate_limiter)"
  have st: "?st = \<lparr>events = [([65], [10, 12]), ([66], [11])]\<rparr>"
    by (simp add: allow_step_def allow_def new_rate_limiter_def setdefault_def Let_def
        RATE_LIMIT_WINDOW_SECONDS_def MAX_TRACKED_KEYS_def)
  have out: "allow [65] 2 RATE_LIMIT_WINDOW_SECONDS 15 ?st = (Inr (False, 55), ?st)"
    unfolding st by (simp add: allow_def setdefault_def Let_def RATE_LIMIT_WINDOW_SECONDS_def MAX_TRACKED_KEYS_def)
  have "fst (allow [65] 2 RATE_LIMIT_WINDOW_SECONDS 70 ?st) = Inr (True, 0)"
    using retry_after_exact [OF fair_three _ _ out, of 70] by (simp add: call_time_def)
  then show ?thesis unfolding Let_def out by simp
qed

lemma allow_raises_iff_witness:
  "fst (allow [65] 0 60 5 new_rate_limiter) = Inl IndexErr"
  using allow_raises_iff [OF limiter_ok_new, of "[65]" 0 60 5]
  by (simp add: live_def bucket_of_def new_rate_limiter_def)

end
