(* ===== verification/Runtime_Config.thy ===== *)
theory Runtime_Config
  imports Config Auth_Security Rate_Limit
begin

text \<open>
  \<open>app/core/runtime_config.py\<close>: the configuration object the routes read, and its replacement
  on a settings update; with the objects \<open>app/main.py\<close> keeps in \<open>app.state\<close>.
\<close>

record RuntimeConfig =
  APP_NAME :: pystr
  CENTER_LON :: pyfloat
  CENTER_LAT :: pyfloat
  DEFAULT_ZOOM :: int
  VWORLD_WMTS_KEY :: pystr
  VWORLD_GEOCODER_KEY :: pystr
  BASE_DIR :: pystr
  ADMIN_ID :: pystr
  ADMIN_PW_HASH :: pystr
  ALLOWED_IP_NETWORKS :: "net list"
  MAX_UPLOAD_SIZE_MB :: int
  MAX_UPLOAD_ROWS :: int
  LOGIN_MAX_ATTEMPTS :: int
  LOGIN_COOLDOWN_SECONDS :: int
  VWORLD_TIMEOUT_S :: pyfloat
  VWORLD_RETRIES :: int
  VWORLD_BACKOFF_S :: pyfloat
  SESSION_HTTPS_ONLY :: bool
  SESSION_COOKIE_NAME :: pystr
  SESSION_NAMESPACE :: pystr
  TRUST_PROXY_HEADERS :: bool
  TRUSTED_PROXY_NETWORKS :: "net list"
  UPLOAD_SHEET_NAME :: pystr
  ALLOWED_WEB_TRACK_PATHS :: "pystr list"
  PUBLIC_DOWNLOAD_MAX_SIZE_MB :: int
  PUBLIC_DOWNLOAD_RATE_LIMIT_PER_MINUTE :: int
  PUBLIC_DOWNLOAD_ALLOWED_EXTS :: "pystr list"
  PUBLIC_DOWNLOAD_DIR :: pystr
  ADMIN_ENABLED :: bool

definition runtime_config :: "Settings \<Rightarrow> RuntimeConfig" where
  "runtime_config s = \<lparr>
     APP_NAME = app_name s,
     CENTER_LON = map_center_lon s,
     CENTER_LAT = map_center_lat s,
     DEFAULT_ZOOM = map_default_zoom s,
     VWORLD_WMTS_KEY = vworld_wmts_key s,
     VWORLD_GEOCODER_KEY = vworld_geocoder_key s,
     BASE_DIR = base_dir s,
     ADMIN_ID = admin_id s,
     ADMIN_PW_HASH = admin_pw_hash s,
     ALLOWED_IP_NETWORKS = allowed_ip_networks s,
     MAX_UPLOAD_SIZE_MB = max_upload_size_mb s,
     MAX_UPLOAD_ROWS = max_upload_rows s,
     LOGIN_MAX_ATTEMPTS = login_max_attempts s,
     LOGIN_COOLDOWN_SECONDS = login_cooldown_seconds s,
     VWORLD_TIMEOUT_S = vworld_timeout_s s,
     VWORLD_RETRIES = vworld_retries s,
     VWORLD_BACKOFF_S = vworld_backoff_s s,
     SESSION_HTTPS_ONLY = session_https_only s,
     SESSION_COOKIE_NAME = session_cookie_name s,
     SESSION_NAMESPACE = session_namespace s,
     TRUST_PROXY_HEADERS = trust_proxy_headers s,
     TRUSTED_PROXY_NETWORKS = trusted_proxy_networks s,
     UPLOAD_SHEET_NAME = upload_sheet_name s,
     ALLOWED_WEB_TRACK_PATHS = allowed_web_track_paths s,
     PUBLIC_DOWNLOAD_MAX_SIZE_MB = public_download_max_size_mb s,
     PUBLIC_DOWNLOAD_RATE_LIMIT_PER_MINUTE = public_download_rate_limit_per_minute s,
     PUBLIC_DOWNLOAD_ALLOWED_EXTS = public_download_allowed_exts s,
     PUBLIC_DOWNLOAD_DIR = public_download_dir s,
     ADMIN_ENABLED = admin_enabled s\<rparr>"

text \<open>The objects of \<open>app.state\<close> that operations change.\<close>

record app_state =
  app_config :: RuntimeConfig
  app_login_limiter :: login_limiter
  app_event_limiter :: "rate_limiter"

definition initial_app_state :: "Settings \<Rightarrow> app_state" where
  "initial_app_state s =
     \<lparr>app_config = runtime_config s,
      app_login_limiter = new_login_limiter (login_max_attempts s) (login_cooldown_seconds s),
      app_event_limiter = new_rate_limiter\<rparr>"

definition rebuild_runtime_state :: "app_state \<Rightarrow> Settings \<Rightarrow> app_state" where
  "rebuild_runtime_state app new_settings =
     (let old_config = app_config app;
          app = app\<lparr>app_config := runtime_config new_settings\<rparr>
      in if LOGIN_MAX_ATTEMPTS old_config \<noteq> login_max_attempts new_settings
            \<or> LOGIN_COOLDOWN_SECONDS old_config \<noteq> login_cooldown_seconds new_settings
         then app\<lparr>app_login_limiter :=
                 new_login_limiter (login_max_attempts new_settings) (login_cooldown_seconds new_settings)\<rparr>
         else app)"

text \<open>The limiter always runs with the parameters of the configuration in force.\<close>

definition app_consistent :: "app_state \<Rightarrow> bool" where
  "app_consistent app \<longleftrightarrow>
     max_attempts (app_login_limiter app) = LOGIN_MAX_ATTEMPTS (app_config app) \<and>
     cooldown_seconds (app_login_limiter app) = LOGIN_COOLDOWN_SECONDS (app_config app)"

lemma app_consistent_initial [inv_intros]: "app_consistent (initial_app_state s)"
  by (simp add: app_consistent_def initial_app_state_def runtime_config_def new_login_limiter_def)

lemma app_consistent_rebuild [inv_intros]:
  "app_consistent app \<Longrightarrow> app_consistent (rebuild_runtime_state app s)"
  by (auto simp: app_consistent_def rebuild_runtime_state_def Let_def runtime_config_def new_login_limiter_def)

lemma rebuild_keeps_lockouts:
  assumes "app_consistent app" "login_max_attempts s = LOGIN_MAX_ATTEMPTS (app_config app)"
    and "login_cooldown_seconds s = LOGIN_COOLDOWN_SECONDS (app_config app)"
  shows "app_login_limiter (rebuild_runtime_state app s) = app_login_limiter app"
  using assms by (simp add: rebuild_runtime_state_def Let_def)

section \<open>A configuration for examples\<close>

definition sample_settings :: Settings where
  "sample_settings =
     \<lparr>app_name = asc ''parcels'', map_center_lon = Fin 126, map_center_lat = Fin 36, map_default_zoom = 14,
      vworld_wmts_key = asc ''w'', vworld_geocoder_key = asc ''g'', admin_id = asc ''admin'',
      admin_pw_hash = asc ''secret'', secret_key = asc ''s'',
      allowed_ip_networks = [Net4 2130706433 (- 1)], max_upload_size_mb = 10, max_upload_rows = 5000,
      login_max_attempts = 2, login_cooldown_seconds = 300, vworld_timeout_s = Fin 5, vworld_retries = 3,
      vworld_backoff_s = Fin (1 / 2), session_https_only = True, session_cookie_name = asc ''session'',
      session_namespace = asc ''ns'', trust_proxy_headers = False, trusted_proxy_networks = [],
      upload_sheet_name = default_sheet, allowed_web_track_paths = [[47]], public_download_max_size_mb = 25,
      public_download_rate_limit_per_minute = 10, public_download_allowed_exts = [asc ''pdf'', asc ''csv''],
      public_download_dir = asc ''data/public_download'', raw_query_export_max_rows = 100000,
      raw_query_export_timeout_s = Fin 30, admin_enabled = True, seed_lands_on_empty = False,
      base_dir = asc ''/srv''\<rparr>"

definition sample_config :: RuntimeConfig where
  "sample_config = runtime_config sample_settings"

end
