(* ===== verification/Access.thy ===== *)
theory Access
  imports Runtime_Config
begin

text \<open>
  \<open>app/dependencies.py\<close>: the checks before an admin route (the internal network, the session,
  the CSRF token) over a request, its session and the configuration in force. A session is a map
  of texts; the random token of \<open>secrets.token_urlsafe\<close> is an argument.
\<close>

type_synonym session = "pystr \<rightharpoonup> pystr"

record request =
  client_host :: "pystr option"
  forwarded_for :: pystr
  state_request_id :: "pystr option"
  session :: session

text \<open>\<open>getattr(request.state, "request_id", "-")\<close>\<close>

definition request_id_of :: "request \<Rightarrow> pystr" where
  "request_id_of r = (case state_request_id r of Some i \<Rightarrow> i | None \<Rightarrow> [45])"

definition SESSION_NAMESPACE_KEY :: pystr where
  "SESSION_NAMESPACE_KEY = asc ''session_namespace''"

definition is_authenticated :: "RuntimeConfig \<Rightarrow> request \<Rightarrow> bool" where
  "is_authenticated config r \<longleftrightarrow>
     session r (asc ''user'') = Some (ADMIN_ID config) \<and>
     session r SESSION_NAMESPACE_KEY = Some (SESSION_NAMESPACE config)"

definition require_authenticated :: "RuntimeConfig \<Rightarrow> request \<Rightarrow> unit result" where
  "require_authenticated config r =
     (if is_authenticated config r then Inr () else Inl (HTTPException 401 msg_auth_required))"

text \<open>\<open>ip_address\<close> inside a \<open>try\<close>: only its \<open>ValueError\<close> is turned into the 403.\<close>

definition http_error_of :: "'a result \<Rightarrow> exn \<Rightarrow> 'a result" where
  "http_error_of r e = (case r of Inl (ValueErr _) \<Rightarrow> Inl e | _ \<Rightarrow> r)"

definition resolve_client_ip :: "RuntimeConfig \<Rightarrow> request \<Rightarrow> ip result" where
  "resolve_client_ip config r =
     (case client_host r of
        None \<Rightarrow> Inl (HTTPException 403 (asc ''Client Unknown''))
      | Some host \<Rightarrow>
          bindR (http_error_of (ip_address host) (HTTPException 403 (asc ''Invalid Client IP''))) (\<lambda>peer_ip.
            if \<not> TRUST_PROXY_HEADERS config then Inr peer_ip
            else if \<not> list_ex (in_network peer_ip) (TRUSTED_PROXY_NETWORKS config) then Inr peer_ip
            else if forwarded_for r = [] then Inr peer_ip
            else let first_hop = strip (hd (split_on 44 (forwarded_for r)))
                 in if first_hop = [] then Inr peer_ip
                    else http_error_of (ip_address first_hop)
                           (HTTPException 403 (asc ''Invalid X-Forwarded-For IP''))))"

definition ensure_internal_network :: "RuntimeConfig \<Rightarrow> request \<Rightarrow> unit result" where
  "ensure_internal_network config r =
     (if \<not> ADMIN_ENABLED config then Inl (HTTPException 404 (asc ''Not Found''))
      else if client_host r = None then Inl (HTTPException 403 (asc ''Client Unknown''))
      else bindR (resolve_client_ip config r) (\<lambda>client_ip.
             if list_ex (in_network client_ip) (ALLOWED_IP_NETWORKS config) then Inr ()
             else Inl (HTTPException 403 msg_internal_only)))"

definition check_internal_network :: "RuntimeConfig \<Rightarrow> request \<Rightarrow> bool result" where
  "check_internal_network config r = bindR (ensure_internal_network config r) (\<lambda>_. Inr True)"

definition get_or_create_csrf_token :: "pystr \<Rightarrow> session \<Rightarrow> pystr \<times> session" where
  "get_or_create_csrf_token fresh s =
     (case s (asc ''csrf_token'') of
        Some token \<Rightarrow> if token = [] then (fresh, s(asc ''csrf_token'' \<mapsto> fresh)) else (token, s)
      | None \<Rightarrow> (fresh, s(asc ''csrf_token'' \<mapsto> fresh)))"

text \<open>\<open>secrets.compare_digest\<close> on two texts: both must be ASCII.\<close>

definition compare_digest :: "pystr \<Rightarrow> pystr \<Rightarrow> bool result" where
  "compare_digest a b = (if is_ascii a \<and> is_ascii b then Inr (a = b) else Inl TypeErr)"

definition validate_csrf_token :: "session \<Rightarrow> pystr option \<Rightarrow> bool result" where
  "validate_csrf_token s token_from_form =
     (case (s (asc ''csrf_token''), token_from_form) of
        (Some session_token, Some token) \<Rightarrow>
          if session_token = [] \<or> token = [] then Inr False else compare_digest session_token token
      | _ \<Rightarrow> Inr False)"

section \<open>Lemmas\<close>

lemma http_error_of_Inr [simp]: "http_error_of r e = Inr x \<longleftrightarrow> r = Inr x"
  by (auto simp: http_error_of_def split: sum.splits exn.splits)

lemma http_error_of_ip:
  "http_error_of (ip_address s) e = (case ip_address s of Inl _ \<Rightarrow> Inl e | Inr ip \<Rightarrow> Inr ip)"
  by (auto simp: http_error_of_def ip_address_def split: option.splits)

lemma validate_csrf_Inr_True:
  "validate_csrf_token s t = Inr True \<longleftrightarrow>
   (\<exists>token. token \<noteq> [] \<and> is_ascii token \<and> s (asc ''csrf_token'') = Some token \<and> t = Some token)"
  by (auto simp: validate_csrf_token_def compare_digest_def split: option.splits if_splits)

lemma csrf_issued:
  "get_or_create_csrf_token fresh s = (token, s') \<Longrightarrow> fresh \<noteq> [] \<Longrightarrow>
   s' (asc ''csrf_token'') = Some token \<and> token \<noteq> [] \<and> (\<forall>k. k \<noteq> asc ''csrf_token'' \<longrightarrow> s' k = s k)"
  by (auto simp: get_or_create_csrf_token_def split: option.splits if_splits)

lemma ensure_internal_network_Inr:
  "ensure_internal_network config r = Inr u \<longleftrightarrow>
   ADMIN_ENABLED config \<and> (\<exists>ip. resolve_client_ip config r = Inr ip \<and>
     (\<exists>n \<in> set (ALLOWED_IP_NETWORKS config). in_network ip n))"
  by (auto simp: ensure_internal_network_def bindR_Inr_iff list_ex_iff resolve_client_ip_def)

text \<open>The address a request is judged by, given the peer's host.\<close>

definition first_hop :: "request \<Rightarrow> pystr" where
  "first_hop r = strip (hd (split_on 44 (forwarded_for r)))"

definition proxied :: "RuntimeConfig \<Rightarrow> request \<Rightarrow> ip \<Rightarrow> bool" where
  "proxied config r peer \<longleftrightarrow>
     TRUST_PROXY_HEADERS config \<and> list_ex (in_network peer) (TRUSTED_PROXY_NETWORKS config) \<and> first_hop r \<noteq> []"

lemma resolve_client_ip_host:
  "client_host r = Some host \<Longrightarrow>
   resolve_client_ip config r =
     (case ip_address host of
        Inl _ \<Rightarrow> Inl (HTTPException 403 (asc ''Invalid Client IP''))
      | Inr peer \<Rightarrow>
          if proxied config r peer
          then case ip_address (first_hop r) of
                 Inl _ \<Rightarrow> Inl (HTTPException 403 (asc ''Invalid X-Forwarded-For IP''))
               | Inr ip \<Rightarrow> Inr ip
          else Inr peer)"
  unfolding resolve_client_ip_def http_error_of_ip proxied_def first_hop_def Let_def
  by (auto split: sum.split)

lemma resolve_untrusted:
  assumes "client_host r = Some host" "ip_address host = Inr peer"
    and "\<not> TRUST_PROXY_HEADERS config \<or> (\<forall>n \<in> set (TRUSTED_PROXY_NETWORKS config). \<not> in_network peer n)"
  shows "resolve_client_ip config r = Inr peer"
  using assms by (auto simp: resolve_client_ip_host proxied_def list_ex_iff)

section \<open>Properties\<close>

text \<open>
  C12. The admin gate: a request passes exactly when the admin pages are enabled and its address is
  in an allowed network, where the address is the peer's unless the peer is a trusted proxy that
  names a first hop; every other request is refused with 404 (disabled) or 403.
\<close>

theorem internal_network_gate:
  "(ensure_internal_network config r = Inr () \<longleftrightarrow>
      ADMIN_ENABLED config \<and>
      (\<exists>host peer ip. client_host r = Some host \<and> ip_address host = Inr peer \<and>
         ip_address (if proxied config r peer then first_hop r else host) = Inr ip \<and>
         list_ex (in_network ip) (ALLOWED_IP_NETWORKS config))) \<and>
   (ensure_internal_network config r = Inr () \<or>
    (\<exists>detail. ensure_internal_network config r =
       Inl (HTTPException (if ADMIN_ENABLED config then 403 else 404) detail)))"
proof (cases "client_host r")
  case (Some host)
  show ?thesis
  proof (cases "ip_address host")
    case (Inr peer)
    with Some show ?thesis
      by (cases "proxied config r peer"; cases "ip_address (first_hop r)")
         (auto simp: ensure_internal_network_def resolve_client_ip_host)
  qed (auto simp: ensure_internal_network_def resolve_client_ip_host Some)
qed (auto simp: ensure_internal_network_def)

end
