(* ===== verification/Auth.thy ===== *)
theory Auth
  imports Access
begin

text \<open>
  \<open>app/services/auth_service.py\<close> and \<open>app/routers/auth.py\<close>: login and logout over a session, the
  configuration and the login limiter. \<open>bcrypt.checkpw\<close> is a parameter; the random token and the
  clock readings of a request are part of the request's event.
\<close>

section \<open>The service\<close>

record RequestContext =
  request_id :: pystr
  actor :: pystr
  client_ip :: pystr
  csrf_valid :: bool

datatype limiter_action = no_action | reset_action | register_failure_action

record LoginCommand =
  cmd_context :: RequestContext
  cmd_username :: pystr
  cmd_password :: pystr
  cmd_admin_id :: pystr
  admin_password_hash :: pystr
  limiter_blocked :: bool

record LoginResult =
  login_success :: bool
  login_status :: int
  login_message :: "pystr option"
  limiter_action :: limiter_action

record LogoutResult =
  redirect_url :: pystr
  clear_session :: bool

type_synonym checkpw = "nat list \<Rightarrow> nat list \<Rightarrow> bool result"

definition login_failure :: "int \<Rightarrow> pystr \<Rightarrow> limiter_action \<Rightarrow> LoginResult" where
  "login_failure status msg action =
     \<lparr>login_success = False, login_status = status, login_message = Some msg, limiter_action = action\<rparr>"

definition check_password :: "checkpw \<Rightarrow> pystr \<Rightarrow> pystr \<Rightarrow> bool result" where
  "check_password checkpw pw hash =
     bindR (encode_utf8 pw) (\<lambda>p. bindR (encode_utf8 hash) (\<lambda>h. checkpw p h))"

definition login :: "checkpw \<Rightarrow> LoginCommand \<Rightarrow> LoginResult result" where
  "login checkpw command =
     (if limiter_blocked command then Inr (login_failure 429 msg_login_blocked no_action)
      else if \<not> csrf_valid (cmd_context command) then Inr (login_failure 403 msg_bad_request no_action)
      else bindR (compare_digest (cmd_username command) (cmd_admin_id command)) (\<lambda>is_id_match.
        case check_password checkpw (cmd_password command) (admin_password_hash command) of
          Inl (ValueErr _) \<Rightarrow> Inr (login_failure 500 msg_auth_config no_action)
        | Inl _ \<Rightarrow> Inr (login_failure 500 msg_auth_backend no_action)
        | Inr is_pw_match \<Rightarrow>
            if is_id_match \<and> is_pw_match
            then Inr \<lparr>login_success = True, login_status = 200, login_message = None, limiter_action = reset_action\<rparr>
            else Inr (login_failure 401 msg_wrong_credentials register_failure_action)))"

definition logout :: "bool \<Rightarrow> LogoutResult result" where
  "logout valid =
     (if \<not> valid then Inl (ValueErr (Some (asc ''csrf_invalid'')))
      else Inr \<lparr>redirect_url = asc ''/admin/login'', clear_session = True\<rparr>)"

section \<open>The routes\<close>

text \<open>
  A login request: its form, the times at which the limiter is asked and told, and the token
  drawn if the login succeeds.
\<close>

record login_event =
  le_request :: request
  le_username :: pystr
  le_password :: pystr
  le_csrf :: pystr
  le_asked :: rat
  le_settled :: rat
  le_fresh :: pystr

definition login_client_ip :: "login_event \<Rightarrow> pystr" where
  "login_client_ip ev = (case client_host (le_request ev) of Some h \<Rightarrow> h | None \<Rightarrow> asc ''unknown'')"

definition limiter_key :: "login_event \<Rightarrow> pystr" where
  "limiter_key ev = login_client_ip ev @ [58] @ le_username ev"

definition login_command :: "RuntimeConfig \<Rightarrow> login_event \<Rightarrow> bool \<Rightarrow> bool \<Rightarrow> LoginCommand" where
  "login_command config ev valid blocked =
     \<lparr>cmd_context = \<lparr>request_id = request_id_of (le_request ev),
                actor = (if le_username ev = [] then asc ''anonymous'' else le_username ev),
                client_ip = login_client_ip ev, csrf_valid = valid\<rparr>,
      cmd_username = le_username ev, cmd_password = le_password ev, cmd_admin_id = ADMIN_ID config,
      admin_password_hash = ADMIN_PW_HASH config, limiter_blocked = blocked\<rparr>"

text \<open>The session after a success: cleared, then the identity and a fresh CSRF token.\<close>

definition logged_in_session :: "RuntimeConfig \<Rightarrow> login_event \<Rightarrow> session" where
  "logged_in_session config ev =
     (let s = Map.empty(asc ''user'' \<mapsto> le_username ev, SESSION_NAMESPACE_KEY \<mapsto> SESSION_NAMESPACE config);
          (token, s) = get_or_create_csrf_token (le_fresh ev) s
      in s(asc ''csrf_token'' \<mapsto> token))"

text \<open>
  The route runs in a thread of a pool, and the limiter is locked by each of its calls only. Up to the verdict of the
  service it has read the token and asked the limiter, checking the password takes its time, and only then it tells the
  limiter: other logins run in between.
\<close>

definition login_begin ::
  "checkpw \<Rightarrow> RuntimeConfig \<Rightarrow> login_event \<Rightarrow> login_limiter \<Rightarrow> LoginResult result \<times> login_limiter" where
  "login_begin checkpw config ev limiter =
     (case validate_csrf_token (session (le_request ev)) (Some (le_csrf ev)) of
        Inl e \<Rightarrow> (Inl e, limiter)
      | Inr valid \<Rightarrow>
          let (blocked, limiter) = is_blocked (limiter_key ev) (le_asked ev) limiter
          in (login checkpw (login_command config ev valid blocked), limiter))"

definition login_end ::
  "RuntimeConfig \<Rightarrow> login_event \<Rightarrow> LoginResult result \<Rightarrow> login_limiter \<Rightarrow> reply result \<times> session \<times> login_limiter" where
  "login_end config ev res limiter =
     (let s = session (le_request ev); key = limiter_key ev in
      case res of
        Inl e \<Rightarrow> (Inl e, s, limiter)
      | Inr result \<Rightarrow>
          if limiter_action result = reset_action
          then (Inr (JSONResponse 200 [(asc ''success'', JBool True)]),
                logged_in_session config ev, reset key limiter)
          else (Inr (JSONResponse (login_status result)
                  [(asc ''success'', JBool False),
                   (asc ''message'', case login_message result of Some m \<Rightarrow> JStr m | None \<Rightarrow> JNull)]),
                s,
                if limiter_action result = register_failure_action
                then register_failure key (le_settled ev) limiter else limiter))"

definition login_route ::
  "checkpw \<Rightarrow> RuntimeConfig \<Rightarrow> login_event \<Rightarrow> login_limiter \<Rightarrow> reply result \<times> session \<times> login_limiter" where
  "login_route checkpw config ev limiter =
     (let (res, limiter) = login_begin checkpw config ev limiter in login_end config ev res limiter)"

text \<open>The route behind its dependency, as the application mounts it.\<close>

definition guarded_login ::
  "checkpw \<Rightarrow> RuntimeConfig \<Rightarrow> login_event \<Rightarrow> login_limiter \<Rightarrow> reply result \<times> session \<times> login_limiter" where
  "guarded_login checkpw config ev limiter =
     (case check_internal_network config (le_request ev) of
        Inl e \<Rightarrow> (Inl e, session (le_request ev), limiter)
      | Inr _ \<Rightarrow> login_route checkpw config ev limiter)"

definition login_page :: "RuntimeConfig \<Rightarrow> request \<Rightarrow> pystr \<Rightarrow> pystr result \<times> session" where
  "login_page config r fresh =
     (case check_internal_network config r of
        Inl e \<Rightarrow> (Inl e, session r)
      | Inr _ \<Rightarrow> (let (token, s) = get_or_create_csrf_token fresh (session r) in (Inr token, s)))"

definition logout_post :: "RuntimeConfig \<Rightarrow> request \<Rightarrow> pystr \<Rightarrow> reply result \<times> session" where
  "logout_post config r csrf =
     (case check_internal_network config r of Inl e \<Rightarrow> (Inl e, session r) | Inr _ \<Rightarrow>
      case require_authenticated config r of Inl e \<Rightarrow> (Inl e, session r) | Inr _ \<Rightarrow>
      case validate_csrf_token (session r) (Some csrf) of
        Inl e \<Rightarrow> (Inl e, session r)
      | Inr valid \<Rightarrow>
          if \<not> valid
          then (Inr (JSONResponse 403 [(asc ''success'', JBool False), (asc ''message'', JStr msg_bad_request)]),
                session r)
          else case logout True of
                 Inl e \<Rightarrow> (Inl e, session r)
               | Inr result \<Rightarrow>
                   (Inr (RedirectResponse 303 (redirect_url result)),
                    if clear_session result then Map.empty else session r))"

section \<open>Successes and failures\<close>

definition credentials_match :: "checkpw \<Rightarrow> RuntimeConfig \<Rightarrow> login_event \<Rightarrow> bool" where
  "credentials_match checkpw config ev \<longleftrightarrow>
     le_username ev = ADMIN_ID config \<and>
     check_password checkpw (le_password ev) (ADMIN_PW_HASH config) = Inr True"

fun is_wrong_reply :: "reply result \<Rightarrow> bool" where
  "is_wrong_reply (Inr (JSONResponse status _)) = (status = 401)"
| "is_wrong_reply _ = False"

lemmas login_parts = login_route_def login_begin_def login_end_def

text \<open>A success: who gets it, and what it leaves.\<close>

definition login_ok_reply :: "reply result" where
  "login_ok_reply = Inr (JSONResponse 200 [(asc ''success'', JBool True)])"

text \<open>The verdict of the service once the attempt is neither blocked nor forged.\<close>

lemma login_checked:
  assumes "\<not> limiter_blocked c" "csrf_valid (cmd_context c)"
    and "compare_digest (cmd_username c) (cmd_admin_id c) = Inr m"
  shows "login checkpw c =
     (case check_password checkpw (cmd_password c) (admin_password_hash c) of
        Inl (ValueErr _) \<Rightarrow> Inr (login_failure 500 msg_auth_config no_action)
      | Inl _ \<Rightarrow> Inr (login_failure 500 msg_auth_backend no_action)
      | Inr ok \<Rightarrow>
          Inr (if m \<and> ok
               then \<lparr>login_success = True, login_status = 200, login_message = None,
                     limiter_action = reset_action\<rparr>
               else login_failure 401 msg_wrong_credentials register_failure_action))"
  using assms by (auto simp: login_def split: sum.split exn.split)

lemma login_unchecked:
  assumes "limiter_blocked c \<or> \<not> csrf_valid (cmd_context c)
           \<or> isl (compare_digest (cmd_username c) (cmd_admin_id c))"
  shows "login checkpw c = Inl TypeErr \<or> login checkpw c = Inr (login_failure 429 msg_login_blocked no_action)
         \<or> login checkpw c = Inr (login_failure 403 msg_bad_request no_action)"
  using assms by (auto simp: login_def compare_digest_def isl_def)

lemma login_reset_iff:
  "(\<exists>r. login checkpw c = Inr r \<and> limiter_action r = reset_action) \<longleftrightarrow>
   \<not> limiter_blocked c \<and> csrf_valid (cmd_context c) \<and>
   compare_digest (cmd_username c) (cmd_admin_id c) = Inr True \<and>
   check_password checkpw (cmd_password c) (admin_password_hash c) = Inr True"
proof (cases "limiter_blocked c \<or> \<not> csrf_valid (cmd_context c)
              \<or> isl (compare_digest (cmd_username c) (cmd_admin_id c))")
  case True
  with login_unchecked [of c checkpw] show ?thesis by (auto simp: login_failure_def isl_def)
next
  case False
  then obtain m where m: "compare_digest (cmd_username c) (cmd_admin_id c) = Inr m" by (metis isl_def sum.exhaust)
  note login_checked [OF _ _ m, of checkpw]
  with False m show ?thesis
    by (cases "check_password checkpw (cmd_password c) (admin_password_hash c)")
       (auto simp: login_failure_def split: exn.split)
qed

lemma login_failure_status:
  assumes "login checkpw c = Inr r" "limiter_action r \<noteq> reset_action"
  shows "\<not> login_success r \<and> login_status r \<in> {401, 403, 429, 500}"
proof (cases "limiter_blocked c \<or> \<not> csrf_valid (cmd_context c)
              \<or> isl (compare_digest (cmd_username c) (cmd_admin_id c))")
  case True
  with login_unchecked [of c checkpw] assms show ?thesis by (auto simp: login_failure_def)
next
  case False
  then obtain m where m: "compare_digest (cmd_username c) (cmd_admin_id c) = Inr m" by (metis isl_def sum.exhaust)
  note login_checked [OF _ _ m, of checkpw]
  with False assms show ?thesis
    by (auto simp: login_failure_def split: sum.splits exn.splits if_splits)
qed

lemma compare_digest_True:
  "compare_digest a b = Inr True \<longleftrightarrow> a = b \<and> is_ascii b"
  by (auto simp: compare_digest_def)

text \<open>When a login request succeeds.\<close>

definition login_accepted :: "checkpw \<Rightarrow> RuntimeConfig \<Rightarrow> login_event \<Rightarrow> login_limiter \<Rightarrow> bool" where
  "login_accepted checkpw config ev l \<longleftrightarrow>
     ensure_internal_network config (le_request ev) = Inr () \<and>
     validate_csrf_token (session (le_request ev)) (Some (le_csrf ev)) = Inr True \<and>
     \<not> fst (is_blocked (limiter_key ev) (le_asked ev) l) \<and>
     is_ascii (ADMIN_ID config) \<and> credentials_match checkpw config ev"

lemma guarded_login_accepted:
  assumes "login_accepted checkpw config ev l"
  shows "guarded_login checkpw config ev l =
     (login_ok_reply, logged_in_session config ev,
      reset (limiter_key ev) (snd (is_blocked (limiter_key ev) (le_asked ev) l)))"
proof -
  obtain l1 where ask: "is_blocked (limiter_key ev) (le_asked ev) l = (False, l1)"
    using assms by (cases "is_blocked (limiter_key ev) (le_asked ev) l") (simp add: login_accepted_def)
  have "\<exists>r. login checkpw (login_command config ev True False) = Inr r \<and> limiter_action r = reset_action"
    unfolding login_reset_iff using assms
    by (simp add: login_command_def login_accepted_def credentials_match_def compare_digest_True)
  with ask assms show ?thesis
    by (auto simp: guarded_login_def check_internal_network_def login_parts login_accepted_def
        login_ok_reply_def Let_def)
qed

lemma guarded_login_refused:
  assumes "\<not> login_accepted checkpw config ev l" "guarded_login checkpw config ev l = (reply, s, l')"
  shows "reply \<noteq> login_ok_reply \<and> s = session (le_request ev)"
proof (cases "check_internal_network config (le_request ev)")
  case net: (Inr u)
  then have net': "ensure_internal_network config (le_request ev) = Inr ()"
    by (auto simp: check_internal_network_def bindR_Inr_iff)
  show ?thesis
  proof (cases "validate_csrf_token (session (le_request ev)) (Some (le_csrf ev))")
    case csrf: (Inr valid)
    obtain b l1 where ask: "is_blocked (limiter_key ev) (le_asked ev) l = (b, l1)" by fastforce
    let ?c = "login_command config ev valid b"
    have "\<not> (\<exists>r. login checkpw ?c = Inr r \<and> limiter_action r = reset_action)"
      unfolding login_reset_iff using assms(1) net' csrf ask
      by (auto simp: login_command_def login_accepted_def credentials_match_def compare_digest_True)
    with assms(2) net csrf ask login_failure_status [of checkpw ?c] show ?thesis
      by (auto simp: guarded_login_def login_parts Let_def login_ok_reply_def split: sum.splits if_splits)
  qed (use assms(2) net in \<open>auto simp: guarded_login_def login_parts Let_def login_ok_reply_def\<close>)
qed (use assms(2) in \<open>auto simp: guarded_login_def login_ok_reply_def\<close>)

section \<open>Logins in parallel\<close>

text \<open>
  At most \<open>p\<close> logins run at once (the thread pool has 40 threads), each with its verdict once it has asked the limiter, and
  they begin and end in any order. \<open>flights\<close> are those between the two, \<open>lg\<close> the answers given. The clock is read
  in the order of the calls to the limiter.
\<close>

inductive login_run ::
  "checkpw \<Rightarrow> RuntimeConfig \<Rightarrow> nat \<Rightarrow> rat \<Rightarrow> (login_event \<times> LoginResult result) list \<Rightarrow>
   (login_event \<times> reply result) list \<Rightarrow> login_limiter \<Rightarrow> bool" for checkpw config p where
  opened: "login_run checkpw config p 0 [] []
    (new_login_limiter (LOGIN_MAX_ATTEMPTS config) (LOGIN_COOLDOWN_SECONDS config))"
| begins: "login_run checkpw config p clk flights lg l \<Longrightarrow> clk \<le> le_asked ev \<Longrightarrow> length flights < p \<Longrightarrow>
    isr (check_internal_network config (le_request ev)) \<Longrightarrow> login_begin checkpw config ev l = (res, l') \<Longrightarrow>
    login_run checkpw config p (le_asked ev) ((ev, res) # flights) lg l'"
| ends: "login_run checkpw config p clk flights lg l \<Longrightarrow> (ev, res) \<in> set flights \<Longrightarrow> clk \<le> le_settled ev \<Longrightarrow>
    login_end config ev res l = (reply, s, l') \<Longrightarrow>
    login_run checkpw config p (le_settled ev) (remove1 (ev, res) flights) (lg @ [(ev, reply)]) l'"

text \<open>The times at which a wrong password was answered under a key.\<close>

definition wrong_replies :: "pystr \<Rightarrow> (login_event \<times> reply result) list \<Rightarrow> rat list" where
  "wrong_replies k lg = map (le_settled \<circ> fst) (filter (\<lambda>(ev, r). limiter_key ev = k \<and> is_wrong_reply r) lg)"

lemma wrong_replies_simps [simp]:
  "wrong_replies k [] = []"
  "wrong_replies k (lg @ [(ev, r)]) = wrong_replies k lg @ (if limiter_key ev = k \<and> is_wrong_reply r then [le_settled ev] else [])"
  by (simp_all add: wrong_replies_def)

text \<open>A flight that will register a failure.\<close>

definition wrong_verdict :: "LoginResult result \<Rightarrow> bool" where
  "wrong_verdict res \<longleftrightarrow> (\<exists>r. res = Inr r \<and> limiter_action r = register_failure_action)"

definition pending :: "pystr \<Rightarrow> (login_event \<times> LoginResult result) list \<Rightarrow> nat" where
  "pending k flights = length (filter (\<lambda>(ev, res). limiter_key ev = k \<and> wrong_verdict res) flights)"

lemma pending_simps [simp]:
  "pending k [] = 0"
  "pending k ((ev, res) # flights) = (if limiter_key ev = k \<and> wrong_verdict res then Suc (pending k flights) else pending k flights)"
  by (simp_all add: pending_def)

lemma pending_le: "pending k flights \<le> length flights"
  by (simp add: pending_def)

lemma pending_remove1:
  assumes "(ev, res) \<in> set flights"
  shows "pending k flights = (if limiter_key ev = k \<and> wrong_verdict res then Suc else id) (pending k (remove1 (ev, res) flights))"
  using assms by (induction flights) (auto simp: pending_def)

lemma login_actions:
  assumes "login checkpw c = Inr r"
  shows "limiter_action r = register_failure_action \<longleftrightarrow> login_status r = 401"
proof (cases "limiter_blocked c \<or> \<not> csrf_valid (cmd_context c)
              \<or> isl (compare_digest (cmd_username c) (cmd_admin_id c))")
  case True
  with login_unchecked [of c checkpw] assms show ?thesis by (auto simp: login_failure_def)
next
  case False
  then obtain m where m: "compare_digest (cmd_username c) (cmd_admin_id c) = Inr m" by (metis isl_def sum.exhaust)
  note login_checked [OF _ _ m, of checkpw]
  with False assms show ?thesis
    by (auto simp: login_failure_def split: sum.splits exn.splits if_splits)
qed

lemma login_begin_verdict:
  assumes "login_begin checkpw config ev l = (res, l')"
  shows "wrong_verdict res \<Longrightarrow> is_blocked (limiter_key ev) (le_asked ev) l = (False, l')"
    and "l' = l \<or> l' = snd (is_blocked (limiter_key ev) (le_asked ev) l)"
    and "res = Inr r \<Longrightarrow> limiter_action r = reset_action \<Longrightarrow> credentials_match checkpw config ev"
    and "res = Inr r \<Longrightarrow> limiter_action r = register_failure_action \<longleftrightarrow> login_status r = 401"
proof -
  show "l' = l \<or> l' = snd (is_blocked (limiter_key ev) (le_asked ev) l)"
    using assms by (auto simp: login_begin_def split: sum.splits prod.splits)
  have run: "\<exists>valid b. login checkpw (login_command config ev valid b) = res \<and> is_blocked (limiter_key ev) (le_asked ev) l = (b, l')"
    if "res = Inr r" for r
    using assms that by (auto simp: login_begin_def split: sum.splits prod.splits)
  show "is_blocked (limiter_key ev) (le_asked ev) l = (False, l')" if "wrong_verdict res"
  proof -
    from that obtain r where r: "res = Inr r" "limiter_action r = register_failure_action" by (auto simp: wrong_verdict_def)
    with run obtain valid b where b: "login checkpw (login_command config ev valid b) = Inr r"
        "is_blocked (limiter_key ev) (le_asked ev) l = (b, l')" by metis
    have "\<not> b"
      using b(1) r(2) by (auto simp: login_def login_command_def login_failure_def)
    with b(2) show ?thesis by simp
  qed
  show "credentials_match checkpw config ev" if "res = Inr r" "limiter_action r = reset_action"
  proof -
    from run [OF that(1)] that obtain valid b where b: "login checkpw (login_command config ev valid b) = Inr r" by metis
    with that(2) login_reset_iff [of checkpw "login_command config ev valid b"] show ?thesis
      by (auto simp: login_command_def credentials_match_def compare_digest_True)
  qed
  show "limiter_action r = register_failure_action \<longleftrightarrow> login_status r = 401" if "res = Inr r"
    using run [OF that] login_actions that by metis
qed

lemma login_end_verdict:
  assumes "login_end config ev res l = (reply, s, l')"
    and "\<And>r. res = Inr r \<Longrightarrow> limiter_action r = register_failure_action \<longleftrightarrow> login_status r = 401"
  shows "is_wrong_reply reply \<longleftrightarrow> wrong_verdict res"
    and "l' = (if wrong_verdict res then register_failure (limiter_key ev) (le_settled ev) l
               else if \<exists>r. res = Inr r \<and> limiter_action r = reset_action then reset (limiter_key ev) l else l)"
  using assms by (auto simp: login_end_def wrong_verdict_def Let_def split: sum.splits if_splits)

text \<open>A run of logins is a run of the guard.\<close>

definition verdicts_ok :: "checkpw \<Rightarrow> RuntimeConfig \<Rightarrow> (login_event \<times> LoginResult result) list \<Rightarrow> bool" where
  "verdicts_ok checkpw config flights \<longleftrightarrow>
     (\<forall>(ev, res) \<in> set flights. \<exists>l l'. login_begin checkpw config ev l = (res, l'))"

lemma login_run_guard:
  assumes "login_run checkpw config p clk flights lg l"
    and "\<forall>(ev, r) \<in> set lg. limiter_key ev = k \<longrightarrow> \<not> credentials_match checkpw config ev"
  shows "guard_run is_blocked register_failure reset p k
      (new_login_limiter (LOGIN_MAX_ATTEMPTS config) (LOGIN_COOLDOWN_SECONDS config))
      clk (wrong_replies k lg) (pending k flights) l \<and> verdicts_ok checkpw config flights"
  using assms
proof (induction rule: login_run.induct)
  case opened
  then show ?case by (simp add: guard_run.start verdicts_ok_def)
next
  case (begins clk flights lg l ev res l')
  let ?g = "guard_run is_blocked register_failure reset p k
      (new_login_limiter (LOGIN_MAX_ATTEMPTS config) (LOGIN_COOLDOWN_SECONDS config))"
  note IH = begins.IH [OF begins.prems]
  have g: "?g (le_asked ev) (wrong_replies k lg) (pending k flights) l"
    by (rule guard_run.tick [OF conjunct1 [OF IH] begins.hyps(2)])
  note ok = conjunct2 [OF IH]
  have q: "pending k flights < p" using begins.hyps(3) pending_le [of k flights] by simp
  note v = login_begin_verdict [OF begins.hyps(5)]
  have "?g (le_asked ev) (wrong_replies k lg) (pending k ((ev, res) # flights)) l'"
  proof (cases "limiter_key ev = k \<and> wrong_verdict res")
    case True
    with guard_run.admit [OF g _ q, of l'] v(1) show ?thesis by simp
  next
    case False
    with v(2) g guard_run.ask [OF g, of "limiter_key ev"] show ?thesis by auto
  qed
  with ok begins.hyps(5) show ?case by (auto simp: verdicts_ok_def)
next
  case (ends clk flights lg l ev res reply s l')
  let ?g = "guard_run is_blocked register_failure reset p k
      (new_login_limiter (LOGIN_MAX_ATTEMPTS config) (LOGIN_COOLDOWN_SECONDS config))"
  let ?F = "remove1 (ev, res) flights"
  have "\<forall>(ev, r) \<in> set lg. limiter_key ev = k \<longrightarrow> \<not> credentials_match checkpw config ev" using ends.prems by auto
  note IH = ends.IH [OF this]
  have g: "?g (le_settled ev) (wrong_replies k lg) (pending k flights) l"
    by (rule guard_run.tick [OF conjunct1 [OF IH] ends.hyps(3)])
  note ok = conjunct2 [OF IH]
  from ok ends.hyps(2) obtain l1 l2 where b: "login_begin checkpw config ev l1 = (res, l2)"
    by (auto simp: verdicts_ok_def)
  note e = login_end_verdict [OF ends.hyps(4) login_begin_verdict(4) [OF b]]
  have other: "limiter_key ev \<noteq> k" if "res = Inr r" "limiter_action r = reset_action" for r
    using login_begin_verdict(3) [OF b that] ends.prems by auto
  have "?g (le_settled ev) (wrong_replies k (lg @ [(ev, reply)])) (pending k ?F) l'"
  proof (cases "wrong_verdict res")
    case True
    show ?thesis
    proof (cases "limiter_key ev = k")
      case key: True
      with True g ends.hyps(2) have "?g (le_settled ev) (wrong_replies k lg) (Suc (pending k ?F)) l"
        by (simp add: pending_remove1)
      from guard_run.wrong [OF this] True key e show ?thesis by simp
    next
      case False
      with True g ends.hyps(2) have "?g (le_settled ev) (wrong_replies k lg) (pending k ?F) l"
        by (simp add: pending_remove1)
      from guard_run.wrong_other [OF this False] True False e show ?thesis by simp
    qed
  next
    case False
    with g ends.hyps(2) have g': "?g (le_settled ev) (wrong_replies k lg) (pending k ?F) l" by (simp add: pending_remove1)
    show ?thesis
    proof (cases "\<exists>r. res = Inr r \<and> limiter_action r = reset_action")
      case True
      then have "limiter_key ev \<noteq> k" using other by blast
      from guard_run.right_other [OF g' this] True False e show ?thesis by simp
    next
      case False
      with \<open>\<not> wrong_verdict res\<close> g' e show ?thesis by simp
    qed
  qed
  moreover have "verdicts_ok checkpw config ?F"
    using ok notin_set_remove1 by (fastforce simp: verdicts_ok_def)
  ultimately show ?case by blast
qed

section \<open>The sessions in circulation\<close>

text \<open>
  A session lives in a signed cookie, so a client may send back any session it was ever given:
  \<open>C\<close> is the set of those, and \<open>lg\<close> the login requests answered so far. The configuration may
  change between requests.
\<close>

inductive cookies :: "checkpw \<Rightarrow> (RuntimeConfig \<times> login_event \<times> reply result) list \<Rightarrow> session set \<Rightarrow> bool"
  for checkpw where
  fresh_client: "cookies checkpw [] {Map.empty}"
| csrf_cookie: "cookies checkpw lg C \<Longrightarrow> s \<in> C \<Longrightarrow>
    cookies checkpw lg (insert (snd (get_or_create_csrf_token token s)) C)"
| login_cookie: "cookies checkpw lg C \<Longrightarrow> session (le_request ev) \<in> C \<Longrightarrow>
    guarded_login checkpw config ev l = (reply, s, l') \<Longrightarrow>
    cookies checkpw ((config, ev, reply) # lg) (insert s C)"
| logout_cookie: "cookies checkpw lg C \<Longrightarrow> session r \<in> C \<Longrightarrow>
    cookies checkpw lg (insert (snd (logout_post config r csrf)) C)"

lemma logged_in_session_eq:
  "logged_in_session config ev =
     [asc ''user'' \<mapsto> le_username ev, SESSION_NAMESPACE_KEY \<mapsto> SESSION_NAMESPACE config,
      asc ''csrf_token'' \<mapsto> le_fresh ev]"
  by (simp add: logged_in_session_def get_or_create_csrf_token_def SESSION_NAMESPACE_KEY_def)

lemma session_keys_distinct [simp]:
  "asc ''user'' \<noteq> asc ''csrf_token''" "SESSION_NAMESPACE_KEY \<noteq> asc ''csrf_token''"
  "asc ''user'' \<noteq> SESSION_NAMESPACE_KEY"
  by (simp_all add: SESSION_NAMESPACE_KEY_def)

lemma csrf_keeps_identity:
  assumes "k \<noteq> asc ''csrf_token''"
  shows "snd (get_or_create_csrf_token token s) k = s k"
  using assms by (auto simp: get_or_create_csrf_token_def split: option.split)

lemma logout_session: "snd (logout_post config r csrf) \<in> {session r, Map.empty}"
  by (auto simp: logout_post_def split: sum.split)

definition vouched :: "checkpw \<Rightarrow> (RuntimeConfig \<times> login_event \<times> reply result) list \<Rightarrow> session \<Rightarrow> bool" where
  "vouched checkpw lg s \<longleftrightarrow>
     s (asc ''user'') = None \<or>
     (\<exists>config ev. (config, ev, login_ok_reply) \<in> set lg \<and> credentials_match checkpw config ev \<and>
        s (asc ''user'') = Some (ADMIN_ID config) \<and>
        s SESSION_NAMESPACE_KEY = Some (SESSION_NAMESPACE config))"

lemma cookies_vouched: "cookies checkpw lg C \<Longrightarrow> s \<in> C \<Longrightarrow> vouched checkpw lg s"
proof (induction arbitrary: s rule: cookies.induct)
  case (csrf_cookie lg C s' token)
  then show ?case by (fastforce simp: vouched_def csrf_keeps_identity)
next
  case (login_cookie lg C ev config l reply s' l')
  show ?case
  proof (cases "s = s' \<and> login_accepted checkpw config ev l")
    case True
    with login_cookie.hyps(3) guarded_login_accepted [of checkpw config ev l]
    have "reply = login_ok_reply" "s = logged_in_session config ev" by auto
    with True show ?thesis
      by (auto simp: vouched_def logged_in_session_eq login_accepted_def credentials_match_def)
  next
    case False
    with login_cookie guarded_login_refused [OF _ login_cookie.hyps(3)]
    have "vouched checkpw lg s" by (cases "s = s'") auto
    then show ?thesis by (auto simp: vouched_def)
  qed
next
  case (logout_cookie lg C r config csrf)
  have "s \<in> C \<or> s = session r \<or> s = Map.empty"
    using logout_cookie.prems logout_session [of config r csrf] by blast
  with logout_cookie.IH logout_cookie.hyps(2) show ?case by (auto simp: vouched_def [of _ _ Map.empty])
qed (simp add: vouched_def)

section \<open>Examples\<close>

definition sample_checkpw :: checkpw where
  "sample_checkpw p h = Inr (p = h)"

definition admin_context :: RequestContext where
  "admin_context = \<lparr>request_id = asc ''r'', actor = asc ''admin'', client_ip = asc ''10.0.0.1'', csrf_valid = True\<rparr>"

definition sample_login :: "session \<Rightarrow> pystr \<Rightarrow> rat \<Rightarrow> login_event" where
  "sample_login s pw t =
     \<lparr>le_request = \<lparr>client_host = Some (asc ''127.0.0.1''), forwarded_for = [], state_request_id = None, session = s\<rparr>,
      le_username = asc ''admin'', le_password = pw, le_csrf = asc ''tok'', le_asked = t, le_settled = t,
      le_fresh = asc ''fresh''\<rparr>"

definition csrf_session :: session where
  "csrf_session = snd (get_or_create_csrf_token (asc ''tok'') Map.empty)"

section \<open>Properties\<close>

text \<open>
  C4. Password guessing: whatever other logins interleave, and however long each takes between asking the limiter and telling
  it, a client that does not know the credentials is answered at most \<open>LOGIN_MAX_ATTEMPTS + p - 1\<close> wrong passwords under a key
  (address and user name) in any \<open>LOGIN_COOLDOWN_SECONDS\<close>, where \<open>p\<close> is the number of logins that run at once; the rest
  is refused unchecked. Logins one after the other (\<open>p = 1\<close>) are held to \<open>LOGIN_MAX_ATTEMPTS\<close>; guesses in parallel are not,
  because a password is checked before its failure is registered: the witness has three in a window that allows two.
\<close>

theorem login_guess_bound:
  assumes "0 < LOGIN_MAX_ATTEMPTS config" and "0 \<le> LOGIN_COOLDOWN_SECONDS config"
    and "login_run checkpw config p clk flights lg l"
    and "\<forall>(ev, r) \<in> set lg. limiter_key ev = k \<longrightarrow> \<not> credentials_match checkpw config ev"
  shows "length (in_window (LOGIN_COOLDOWN_SECONDS config) t (wrong_replies k lg)) \<le> nat (LOGIN_MAX_ATTEMPTS config) + p - 1"
  using limiter.guarded_bound [OF conjunct1 [OF login_run_guard [OF assms(3,4)]] guard_inv_new [OF assms(1,2)]] .

text \<open>Two guesses begin before either has ended, after one that is registered, with a limit of two.\<close>

definition guess :: "rat \<Rightarrow> rat \<Rightarrow> login_event" where
  "guess t u = (sample_login csrf_session (asc ''guess'') t)\<lparr>le_settled := u\<rparr>"

abbreviation begun :: "rat \<Rightarrow> rat \<Rightarrow> login_limiter \<Rightarrow> LoginResult result \<times> login_limiter" where
  "begun t u l \<equiv> login_begin sample_checkpw sample_config (guess t u) l"

definition guess_failed :: "LoginResult result" where
  "guess_failed = Inr (login_failure 401 msg_wrong_credentials register_failure_action)"

abbreviation ended :: "rat \<Rightarrow> rat \<Rightarrow> login_limiter \<Rightarrow> reply result \<times> session \<times> login_limiter" where
  "ended t u l \<equiv> login_end sample_config (guess t u) guess_failed l"

lemma guess_times: "le_asked (guess t u) = t" "le_settled (guess t u) = u"
  by (simp_all add: guess_def sample_login_def)

lemma guess_begins:
  assumes "login_run sample_checkpw sample_config 2 clk F lg l" "clk \<le> t" "length F < 2" "fst (begun t u l) = guess_failed"
  shows "login_run sample_checkpw sample_config 2 t ((guess t u, guess_failed) # F) lg (snd (begun t u l))"
proof -
  have "isr (check_internal_network sample_config (le_request (guess 0 0)))" by code_simp
  then have "isr (check_internal_network sample_config (le_request (guess t u)))" by (simp add: guess_def sample_login_def)
  from login_run.begins [OF assms(1) _ assms(3) this, of guess_failed "snd (begun t u l)"] assms(2,4)
  show ?thesis by (simp add: guess_times prod_eq_iff)
qed

lemma guess_ends:
  assumes "login_run sample_checkpw sample_config 2 clk F lg l" "(guess t u, guess_failed) \<in> set F" "clk \<le> u"
  shows "login_run sample_checkpw sample_config 2 u (remove1 (guess t u, guess_failed) F)
    (lg @ [(guess t u, fst (ended t u l))]) (snd (snd (ended t u l)))"
  using login_run.ends [OF assms(1,2), of "fst (ended t u l)" "fst (snd (ended t u l))" "snd (snd (ended t u l))"] assms(3)
  by (simp add: guess_times)

lemma login_guess_bound_witness:
  "\<exists>lg l. login_run sample_checkpw sample_config 2 5 [] lg l \<and> LOGIN_MAX_ATTEMPTS sample_config = 2 \<and>
     length (in_window 300 5 (wrong_replies (asc ''127.0.0.1:admin'') lg)) = 3 \<and>
     length (in_window 300 5 (wrong_replies (asc ''127.0.0.1:admin'') lg)) \<le> nat 2 + 2 - 1"
proof -
  let ?run = "login_run sample_checkpw sample_config 2"
  have par: "LOGIN_MAX_ATTEMPTS sample_config = 2" "LOGIN_COOLDOWN_SECONDS sample_config = 300" by code_simp+
  let ?l0 = "new_login_limiter 2 300"
  let ?l1 = "snd (begun 1 1 ?l0)" let ?l2 = "snd (snd (ended 1 1 ?l1))"
  let ?l3 = "snd (begun 2 4 ?l2)" let ?l4 = "snd (begun 3 5 ?l3)" let ?l5 = "snd (snd (ended 2 4 ?l4))"
  let ?lg = "[(guess 1 1, fst (ended 1 1 ?l1)), (guess 2 4, fst (ended 2 4 ?l4)), (guess 3 5, fst (ended 3 5 ?l5))]"
  have r: "fst (begun 1 1 ?l0) = guess_failed" "fst (begun 2 4 ?l2) = guess_failed" "fst (begun 3 5 ?l3) = guess_failed"
    by code_simp+
  have "?run 0 [] [] ?l0" using login_run.opened [of sample_checkpw sample_config 2] by (simp add: par)
  from guess_begins [OF this _ _ r(1)] have "?run 1 [(guess 1 1, guess_failed)] [] ?l1" by simp
  from guess_ends [OF this, of 1 1] have "?run 1 [] [(guess 1 1, fst (ended 1 1 ?l1))] ?l2" by simp
  from guess_begins [OF this _ _ r(2)] have "?run 2 [(guess 2 4, guess_failed)] [(guess 1 1, fst (ended 1 1 ?l1))] ?l3" by simp
  from guess_begins [OF this _ _ r(3)]
  have r4: "?run 3 [(guess 3 5, guess_failed), (guess 2 4, guess_failed)] [(guess 1 1, fst (ended 1 1 ?l1))] ?l4" by simp
  have ne: "guess 3 5 \<noteq> guess 2 4" using guess_times(1) [of 3 5] guess_times(1) [of 2 4] by force
  from guess_ends [OF r4, of 2 4] ne
  have "?run 4 [(guess 3 5, guess_failed)] [(guess 1 1, fst (ended 1 1 ?l1)), (guess 2 4, fst (ended 2 4 ?l4))] ?l5" by simp
  from guess_ends [OF this, of 3 5] have run: "?run 5 [] ?lg (snd (snd (ended 3 5 ?l5)))" by simp
  have wrong: "\<forall>(ev, r) \<in> set ?lg. limiter_key ev = asc ''127.0.0.1:admin'' \<longrightarrow> \<not> credentials_match sample_checkpw sample_config ev"
    by code_simp
  have "length (in_window 300 5 (wrong_replies (asc ''127.0.0.1:admin'') ?lg)) = 3" by code_simp
  moreover have "length (in_window 300 5 (wrong_replies (asc ''127.0.0.1:admin'') ?lg)) \<le> nat 2 + 2 - 1"
    using login_guess_bound [OF _ _ run wrong, of 5] by (simp add: par)
  ultimately show ?thesis using run par(1) by blast
qed

text \<open>
  C13. A login succeeds exactly for a request from the internal network, with the CSRF token of
  its session, under a key that is not blocked, and with the administrator's name and password.
  The session it leaves holds the identity, the namespace and a fresh token and nothing of the
  session before; any other request leaves its session as it was.
\<close>

theorem login_outcome:
  "(fst (guarded_login checkpw config ev l) = login_ok_reply \<longleftrightarrow> login_accepted checkpw config ev l) \<and>
   fst (snd (guarded_login checkpw config ev l)) =
     (if login_accepted checkpw config ev l
      then [asc ''user'' \<mapsto> ADMIN_ID config, SESSION_NAMESPACE_KEY \<mapsto> SESSION_NAMESPACE config,
            asc ''csrf_token'' \<mapsto> le_fresh ev]
      else session (le_request ev))"
proof (cases "login_accepted checkpw config ev l")
  case True
  then have "le_username ev = ADMIN_ID config" by (simp add: login_accepted_def credentials_match_def)
  with True show ?thesis by (simp add: guarded_login_accepted logged_in_session_eq)
next
  case False
  then show ?thesis
    using guarded_login_refused [OF False, of "fst (guarded_login checkpw config ev l)"
        "fst (snd (guarded_login checkpw config ev l))" "snd (snd (guarded_login checkpw config ev l))"]
    by simp
qed

text \<open>
  C14. An authenticated session was vouched for: of all the sessions ever given to clients,
  replayed ones included, only those that descend from a login answered with success, by an event
  with the name and password of the configuration of its time, pass \<open>is_authenticated\<close>, and only
  while that name and namespace are the configured ones.
\<close>

theorem authenticated_sessions_logged_in:
  assumes "cookies checkpw lg C" and "session r \<in> C" and "is_authenticated config r"
  shows "\<exists>config' ev. (config', ev, login_ok_reply) \<in> set lg \<and> credentials_match checkpw config' ev \<and>
           ADMIN_ID config' = ADMIN_ID config \<and> SESSION_NAMESPACE config' = SESSION_NAMESPACE config"
proof -
  from assms(3) have "session r (asc ''user'') = Some (ADMIN_ID config)"
    and "session r SESSION_NAMESPACE_KEY = Some (SESSION_NAMESPACE config)"
    by (simp_all add: is_authenticated_def)
  with cookies_vouched [OF assms(1,2)] show ?thesis by (simp add: vouched_def) metis
qed

lemma authenticated_sessions_logged_in_witness:
  "\<exists>lg C r. cookies sample_checkpw lg C \<and> session r \<in> C \<and> is_authenticated sample_config r \<and>
     (\<exists>config' ev. (config', ev, login_ok_reply) \<in> set lg \<and> credentials_match sample_checkpw config' ev \<and>
        ADMIN_ID config' = ADMIN_ID sample_config \<and>
        SESSION_NAMESPACE config' = SESSION_NAMESPACE sample_config)"
proof -
  let ?ev = "sample_login csrf_session (asc ''secret'') 1"
  let ?l = "new_login_limiter 2 300"
  let ?s = "logged_in_session sample_config ?ev"
  let ?r = "(le_request ?ev)\<lparr>session := ?s\<rparr>"
  let ?lg = "[(sample_config, ?ev, login_ok_reply)]"
  have acc: "login_accepted sample_checkpw sample_config ?ev ?l" by code_simp
  have "cookies sample_checkpw [] (insert csrf_session {Map.empty})"
    unfolding csrf_session_def by (rule csrf_cookie [OF fresh_client]) simp
  then have C: "cookies sample_checkpw ?lg (insert ?s (insert csrf_session {Map.empty}))"
    by (rule login_cookie [OF _ _ guarded_login_accepted [OF acc]]) (simp add: sample_login_def)
  have au: "is_authenticated sample_config ?r" by code_simp
  have r: "session ?r \<in> insert ?s (insert csrf_session {Map.empty})" by simp
  show ?thesis
    using C r au authenticated_sessions_logged_in [OF C r au] by blast
qed

end
