(* ===== verification/Sql.thy ===== *)
theory Sql
  imports Py_Value Messages
begin

text \<open>
  \<open>app/db/connection.py\<close> and the parts of SQL that the statements of the repositories share: what
  a column stores, \<open>LIMIT\<close>, counts, and ranked groups (\<open>GROUP BY key ORDER BY count DESC, key LIMIT n\<close>)
  with the lemma that says what a ranking lists.
\<close>

section \<open>Connections\<close>

text \<open>
  A connection sees its own uncommitted changes in \<open>work\<close>; \<open>disk\<close> is what is committed. A
  body that leaves \<open>with db_connection()\<close>, by an exception or not, closes the connection, which
  drops what it has not committed.
\<close>

record 'd conn =
  work :: 'd
  disk :: 'd

definition commit :: "'d conn \<Rightarrow> 'd conn" where
  "commit c = c\<lparr>disk := work c\<rparr>"

definition execute :: "('d \<Rightarrow> 'd) \<Rightarrow> 'd conn \<Rightarrow> 'd conn" where
  "execute f c = c\<lparr>work := f (work c)\<rparr>"

definition db_connection :: "('d conn \<Rightarrow> 'a \<times> 'd conn) \<Rightarrow> 'd \<Rightarrow> 'a \<times> 'd" where
  "db_connection body d = (let (r, c) = body \<lparr>work = d, disk = d\<rparr> in (r, disk c))"

lemma conn_simps [simp]:
  "work (commit c) = work c" "disk (commit c) = work c"
  "work (execute f c) = f (work c)" "disk (execute f c) = disk c"
  by (simp_all add: commit_def execute_def)

section \<open>Columns and limits\<close>

text \<open>A NaN is stored as NULL.\<close>

definition sql_real :: "pyfloat \<Rightarrow> pyfloat option" where
  "sql_real x = (if x = NaN then None else Some x)"

text \<open>\<open>LIMIT n\<close> takes the first \<open>n\<close> rows; a negative limit takes all of them.\<close>

definition sql_limit :: "int \<Rightarrow> 'r list \<Rightarrow> 'r list" where
  "sql_limit n rs = (if n < 0 then rs else take (nat n) rs)"

text \<open>Binding a text that has no UTF-8 form (a lone surrogate) raises.\<close>

definition bind_texts :: "pystr option list \<Rightarrow> unit result" where
  "bind_texts ts =
     bindR (mapR (\<lambda>t. case t of None \<Rightarrow> Inr [] | Some s \<Rightarrow> encode_utf8 s) ts) (\<lambda>_. Inr ())"

section \<open>Counts and groups\<close>

definition given :: "pystr option \<Rightarrow> bool" where
  "given t \<longleftrightarrow> t \<noteq> None \<and> t \<noteq> Some []"

definition count_if :: "('a \<Rightarrow> bool) \<Rightarrow> 'a list \<Rightarrow> int" where
  "count_if P xs = int (length (filter P xs))"

definition count_distinct :: "'a list \<Rightarrow> int" where
  "count_distinct xs = int (length (remdups xs))"

text \<open>\<open>GROUP BY key ... ORDER BY count DESC, key ASC LIMIT n\<close> over the keys of the rows.\<close>

definition top_groups :: "int \<Rightarrow> pystr list \<Rightarrow> (pystr \<times> int) list" where
  "top_groups n keys =
     sql_limit n (sort_key (\<lambda>(k, c). (- c, k)) (map (\<lambda>k. (k, int (count_list keys k))) (remdups keys)))"

section \<open>Ranked groups\<close>

lemma sort_key_snd_order:
  "sorted (map (\<lambda>(k, c). (- c, k)) (sort_key (\<lambda>(k, c). (- c, k)) xs))" for xs :: "(pystr \<times> int) list"
  by (rule sorted_sort_key)

text \<open>
  The first \<open>n\<close> groups: real counts, every group counted once, in the order asked for, and no
  group left out that ranks before one of them.
\<close>

lemma top_groups_spec:
  fixes n :: int and keys :: "pystr list"
  assumes "0 \<le> n"
  shows "distinct (map fst (top_groups n keys))" (is ?distinct)
    and "sorted (map (\<lambda>(k, c). (- c, k)) (top_groups n keys))" (is ?sorted)
    and "\<And>k c. (k, c) \<in> set (top_groups n keys) \<Longrightarrow> k \<in> set keys \<and> c = int (count_list keys k)"
    and "length (top_groups n keys) = min (nat n) (length (remdups keys))"
    and "\<And>k c k'. (k, c) \<in> set (top_groups n keys) \<Longrightarrow> k' \<in> set keys \<Longrightarrow> k' \<notin> fst ` set (top_groups n keys) \<Longrightarrow>
           (- c, k) \<le> (- int (count_list keys k'), k')"
proof -
  let ?g = "map (\<lambda>k. (k, int (count_list keys k))) (remdups keys)"
  let ?s = "sort_key (\<lambda>(k, c). (- c, k)) ?g"
  have top: "top_groups n keys = take (nat n) ?s" using assms by (simp add: top_groups_def sql_limit_def)
  have "distinct ?s" by (simp add: distinct_map inj_on_def)
  moreover have keyed: "x = (fst x, int (count_list keys (fst x))) \<and> fst x \<in> set keys" if "x \<in> set ?s" for x
    using that by auto
  ultimately have d: "distinct (map fst ?s)" by (auto simp: distinct_map inj_on_def)
  then show ?distinct unfolding top take_map [symmetric] by (rule distinct_take)
  have srt: "sorted (map (\<lambda>(k, c). (- c, k)) ?s)" by (rule sorted_sort_key)
  then show ?sorted unfolding top take_map [symmetric] by (rule sorted_wrt_take)
  show "(k, c) \<in> set (top_groups n keys) \<Longrightarrow> k \<in> set keys \<and> c = int (count_list keys k)" for k c
    unfolding top using keyed [of "(k, c)"] by (auto dest: in_set_takeD)
  show "length (top_groups n keys) = min (nat n) (length (remdups keys))"
    by (simp add: top min.commute)
  show "(- c, k) \<le> (- int (count_list keys k'), k')"
    if "(k, c) \<in> set (top_groups n keys)" "k' \<in> set keys" "k' \<notin> fst ` set (top_groups n keys)" for k c k'
  proof -
    let ?A = "take (nat n) ?s" and ?B = "drop (nat n) ?s" and ?rank = "\<lambda>(k :: pystr, c :: int). (- c, k)"
    have all: "?A @ ?B = ?s" by (rule append_take_drop_id)
    have "(k', int (count_list keys k')) \<notin> set ?A"
    proof
      assume "(k', int (count_list keys k')) \<in> set ?A"
      then have "k' \<in> fst ` set ?A" by (rule rev_image_eqI) simp
      with that(3) show False unfolding top by blast
    qed
    moreover have "(k', int (count_list keys k')) \<in> set (?A @ ?B)" unfolding all using that(2) by simp
    ultimately have "(k', int (count_list keys k')) \<in> set ?B" unfolding set_append by blast
    moreover have "sorted (map ?rank ?A @ map ?rank ?B)" unfolding map_append [symmetric] all by (rule srt)
    then have "\<forall>x \<in> set (map ?rank ?A). \<forall>y \<in> set (map ?rank ?B). x \<le> y" unfolding sorted_append by blast
    then have "\<forall>x \<in> set ?A. \<forall>y \<in> set ?B. ?rank x \<le> ?rank y" unfolding set_map by blast
    ultimately show ?thesis
      using that(1) unfolding top by fast
  qed
qed

section \<open>Days\<close>

lemma count_by_day:
  "distinct days \<Longrightarrow> (\<And>r. r \<in> set rs \<Longrightarrow> f r \<in> set days) \<Longrightarrow>
   sum_list (map (\<lambda>day. count_if P (filter (\<lambda>r. f r = day) rs)) days) = count_if P rs"
proof (induction rs)
  case (Cons r rs)
  have zero: "(\<Sum>day\<leftarrow>ds. if f r = day then 1 else 0 :: int) = 0" if "f r \<notin> set ds" for ds r
    using that by (induction ds) auto
  have one: "(\<Sum>day\<leftarrow>ds. if f r = day then 1 else 0 :: int) = 1" if "distinct ds" "f r \<in> set ds" for ds r
    using that zero by (induction ds) auto
  have step: "count_if P (filter (\<lambda>r. f r = day) (r # rs)) =
      count_if P (filter (\<lambda>r. f r = day) rs) + (if f r = day \<and> P r then 1 else 0)" for day
    by (simp add: count_if_def)
  have "sum_list (map (\<lambda>day. if f r = day \<and> P r then 1 else 0) days) = (if P r then 1 else 0 :: int)"
    using Cons.prems(1) Cons.prems(2) [of r] one [of days r] by auto
  moreover have "sum_list (map (\<lambda>day. count_if P (filter (\<lambda>r. f r = day) rs)) days) = count_if P rs"
    using Cons.prems by (intro Cons.IH) auto
  ultimately show ?case
    unfolding step sum_list_addf by (simp add: count_if_def)
qed (simp add: count_if_def)

section \<open>Bounds of text columns\<close>

definition at_most :: "nat \<Rightarrow> pystr option \<Rightarrow> bool" where
  "at_most n t \<longleftrightarrow> (case t of None \<Rightarrow> True | Some s \<Rightarrow> length s \<le> n)"

lemma at_most_None [simp]: "at_most n None"
  by (simp add: at_most_def)

text \<open>The only error of binding texts is that of their encoding.\<close>

lemma encode_utf8_Inl: "encode_utf8 s = Inl e \<Longrightarrow> e = ValueErr None"
proof -
  have "mapR utf8_char t = Inl e \<Longrightarrow> e = ValueErr None" for t
    by (induction t) (auto simp: bindR_Inl_iff utf8_char_def split: if_splits)
  then show "encode_utf8 s = Inl e \<Longrightarrow> e = ValueErr None" by (auto simp: encode_utf8_def bindR_Inl_iff)
qed

lemma bind_texts_Inl: "bind_texts ts = Inl e \<Longrightarrow> e = ValueErr None"
proof -
  have "mapR (\<lambda>t. case t of None \<Rightarrow> Inr [] | Some s \<Rightarrow> encode_utf8 s) ts = Inl e \<Longrightarrow> e = ValueErr None"
    by (induction ts) (auto simp: bindR_Inl_iff split: option.splits dest: encode_utf8_Inl)
  then show "bind_texts ts = Inl e \<Longrightarrow> e = ValueErr None" by (auto simp: bind_texts_def bindR_Inl_iff)
qed

end
