(* ===== verification/Database.thy ===== *)
theory Database
  imports Sql
begin

text \<open>
  \<open>app/repositories/land_repository.py\<close> and \<open>app/repositories/job_repository.py\<close>: the tables \<open>poi\<close> and \<open>geom_update_jobs\<close> and the
  statements on them. The schema exists (\<open>init_db\<close> runs before any request), so
  \<open>CREATE TABLE IF NOT EXISTS\<close> changes nothing. A table keeps its rows in rowid order, which is
  the order of a scan, and the last identifier \<open>AUTOINCREMENT\<close> has given.
\<close>

section \<open>Parcels\<close>

record land =
  land_id :: int
  address :: pystr
  land_type :: pystr
  area :: "pyfloat option"
  adm_property :: pystr
  gen_property :: pystr
  contact :: pystr
  geom :: "pystr option"

record poi_table =
  poi_rows :: "land list"
  poi_seq :: int

definition fetch_lands_with_geom :: "poi_table \<Rightarrow> land list" where
  "fetch_lands_with_geom t = filter (\<lambda>r. geom r \<noteq> None) (poi_rows t)"

definition fetch_lands_with_geom_page :: "poi_table \<Rightarrow> int option \<Rightarrow> int \<Rightarrow> land list" where
  "fetch_lands_with_geom_page t after_id limit =
     (case after_id of
        None \<Rightarrow> sql_limit limit (sort_key land_id (filter (\<lambda>r. geom r \<noteq> None) (poi_rows t)))
      | Some a \<Rightarrow> sql_limit limit (sort_key land_id (filter (\<lambda>r. geom r \<noteq> None \<and> a < land_id r) (poi_rows t))))"

definition delete_all :: "poi_table \<Rightarrow> poi_table" where
  "delete_all t = t\<lparr>poi_rows := []\<rparr>"

definition insert_land ::
  "pystr \<Rightarrow> pystr \<Rightarrow> pyfloat \<Rightarrow> pystr \<Rightarrow> pystr \<Rightarrow> pystr \<Rightarrow> pystr option \<Rightarrow> poi_table \<Rightarrow> poi_table" where
  "insert_land addr ltype ar adm gen cont g t =
     \<lparr>poi_rows = poi_rows t @
        [\<lparr>land_id = poi_seq t + 1, address = addr, land_type = ltype, area = sql_real ar,
          adm_property = adm, gen_property = gen, contact = cont, geom = g\<rparr>],
      poi_seq = poi_seq t + 1\<rparr>"

definition fetch_missing_geom :: "poi_table \<Rightarrow> int option \<Rightarrow> int \<Rightarrow> (int \<times> pystr) list" where
  "fetch_missing_geom t limit after_id =
     map (\<lambda>r. (land_id r, address r))
       ((case limit of None \<Rightarrow> id | Some n \<Rightarrow> sql_limit n)
          (sort_key land_id (filter (\<lambda>r. geom r = None \<and> after_id < land_id r) (poi_rows t))))"

text \<open>The dictionary comprehension: of two rows with one address, the later one's geometry.\<close>

definition fetch_geom_by_address :: "poi_table \<Rightarrow> (pystr \<times> pystr) list" where
  "fetch_geom_by_address t =
     foldl (\<lambda>d r. AList.update (address r) (the (geom r)) d) []
       (filter (\<lambda>r. geom r \<noteq> None) (poi_rows t))"

definition update_geom :: "int \<Rightarrow> pystr \<Rightarrow> poi_table \<Rightarrow> poi_table" where
  "update_geom item_id g t =
     t\<lparr>poi_rows := map (\<lambda>r. if land_id r = item_id then r\<lparr>geom := Some g\<rparr> else r) (poi_rows t)\<rparr>"

definition count_missing_geom :: "poi_table \<Rightarrow> int" where
  "count_missing_geom t = int (length (filter (\<lambda>r. geom r = None) (poi_rows t)))"

definition count_all_lands :: "poi_table \<Rightarrow> int" where
  "count_all_lands t = int (length (poi_rows t))"

text \<open>Identifiers grow along the table and never pass the sequence.\<close>

definition poi_ok :: "poi_table \<Rightarrow> bool" where
  "poi_ok t \<longleftrightarrow> sorted_wrt (\<lambda>r s. land_id r < land_id s) (poi_rows t) \<and>
     (\<forall>r \<in> set (poi_rows t). 0 < land_id r \<and> land_id r \<le> poi_seq t) \<and> 0 \<le> poi_seq t"

definition empty_poi :: poi_table where
  "empty_poi = \<lparr>poi_rows = [], poi_seq = 0\<rparr>"

lemma poi_ok_empty [inv_intros]: "poi_ok empty_poi"
  by (simp add: poi_ok_def empty_poi_def)

lemma poi_ok_delete_all [inv_intros]: "poi_ok t \<Longrightarrow> poi_ok (delete_all t)"
  by (simp add: poi_ok_def delete_all_def)

lemma poi_ok_insert_land [inv_intros]: "poi_ok t \<Longrightarrow> poi_ok (insert_land a l ar ad ge co g t)"
  by (fastforce simp: poi_ok_def insert_land_def sorted_wrt_append)

lemma poi_ok_update_geom [inv_intros]: "poi_ok t \<Longrightarrow> poi_ok (update_geom i g t)"
  by (auto simp: poi_ok_def update_geom_def sorted_wrt_map intro: sorted_wrt_mono_rel [rotated])

lemma poi_rows_update_geom:
  "poi_rows (update_geom i g t) = map (\<lambda>r. if land_id r = i then r\<lparr>geom := Some g\<rparr> else r) (poi_rows t)"
  "poi_seq (update_geom i g t) = poi_seq t"
  by (simp_all add: update_geom_def)

text \<open>On a table in rowid order the \<open>ORDER BY\<close> changes nothing.\<close>

lemma sort_key_sorted_wrt:
  "sorted_wrt (\<lambda>r s. key r < key s) rs \<Longrightarrow> sort_key key rs = (rs :: 'r list)" for key :: "'r \<Rightarrow> int"
  by (rule sort_key_id_if_sorted) (simp add: sorted_map sorted_wrt_mono_rel [of _ "\<lambda>r s. key r < key s"])

lemma poi_ok_sort [simp]: "poi_ok t \<Longrightarrow> sort_key land_id (filter P (poi_rows t)) = filter P (poi_rows t)"
  by (rule sort_key_sorted_wrt) (simp add: poi_ok_def sorted_wrt_filter)

text \<open>Both readers of pages are keyset scans.\<close>

lemma geom_page_eq:
  "poi_ok t \<Longrightarrow> fetch_lands_with_geom_page t (Some a) (int n) =
     take n (filter (\<lambda>r. a < land_id r) (fetch_lands_with_geom t))"
  by (simp add: fetch_lands_with_geom_page_def fetch_lands_with_geom_def sql_limit_def)

definition missing_rows :: "poi_table \<Rightarrow> (int \<times> pystr) list" where
  "missing_rows t = map (\<lambda>r. (land_id r, address r)) (filter (\<lambda>r. geom r = None) (poi_rows t))"

lemma missing_page_eq:
  "poi_ok t \<Longrightarrow> fetch_missing_geom t (Some (int n)) a = take n (filter (\<lambda>r. a < fst r) (missing_rows t))"
  by (simp add: fetch_missing_geom_def missing_rows_def sql_limit_def filter_map take_map o_def)

interpretation geom_pages: keyset fetch_lands_with_geom land_id
    "\<lambda>t a n. fetch_lands_with_geom_page t (Some a) (int n)" poi_ok
proof unfold_locales
  show "poi_ok t \<Longrightarrow> sorted_wrt (\<lambda>r s. land_id r < land_id s) (fetch_lands_with_geom t)" for t
    by (simp add: poi_ok_def fetch_lands_with_geom_def sorted_wrt_filter)
qed (rule geom_page_eq)

interpretation missing_pages: keyset missing_rows fst "\<lambda>t a n. fetch_missing_geom t (Some (int n)) a" poi_ok
proof unfold_locales
  show "poi_ok t \<Longrightarrow> sorted_wrt (\<lambda>r s. fst r < fst s) (missing_rows t)" for t
    by (simp add: poi_ok_def missing_rows_def sorted_wrt_filter sorted_wrt_map)
qed (rule missing_page_eq)

section \<open>Jobs\<close>

datatype job_status = Pending | Running | Done | Failed

record job =
  job_id :: int
  status :: job_status
  job_attempts :: int
  updated_count :: int
  failed_count :: int
  error_message :: "pystr option"
  created_at :: pystr
  updated_at :: pystr

record job_table =
  job_rows :: "job list"
  job_seq :: int

text \<open>\<open>CURRENT_TIMESTAMP\<close> is the argument \<open>ts\<close>.\<close>

definition create_geom_update_job :: "pystr \<Rightarrow> job_table \<Rightarrow> int \<times> job_table" where
  "create_geom_update_job ts t =
     (job_seq t + 1,
      \<lparr>job_rows = job_rows t @
         [\<lparr>job_id = job_seq t + 1, status = Pending, job_attempts = 0, updated_count = 0, failed_count = 0,
           error_message = None, created_at = ts, updated_at = ts\<rparr>],
       job_seq = job_seq t + 1\<rparr>)"

definition update_jobs :: "(job \<Rightarrow> bool) \<Rightarrow> (job \<Rightarrow> job) \<Rightarrow> job_table \<Rightarrow> job_table" where
  "update_jobs P f t = t\<lparr>job_rows := map (\<lambda>j. if P j then f j else j) (job_rows t)\<rparr>"

definition mark_geom_job_running :: "int \<Rightarrow> pystr \<Rightarrow> job_table \<Rightarrow> job_table" where
  "mark_geom_job_running i ts =
     update_jobs (\<lambda>j. job_id j = i)
       (\<lambda>j. j\<lparr>status := Running, job_attempts := job_attempts j + 1, updated_at := ts\<rparr>)"

definition mark_geom_job_done :: "int \<Rightarrow> int \<Rightarrow> int \<Rightarrow> pystr \<Rightarrow> job_table \<Rightarrow> job_table" where
  "mark_geom_job_done i upd fld ts =
     update_jobs (\<lambda>j. job_id j = i)
       (\<lambda>j. j\<lparr>status := Done, updated_count := upd, failed_count := fld, error_message := None, updated_at := ts\<rparr>)"

definition mark_geom_job_failed :: "int \<Rightarrow> int \<Rightarrow> int \<Rightarrow> pystr \<Rightarrow> pystr \<Rightarrow> job_table \<Rightarrow> job_table" where
  "mark_geom_job_failed i upd fld msg ts =
     update_jobs (\<lambda>j. job_id j = i)
       (\<lambda>j. j\<lparr>status := Failed, updated_count := upd, failed_count := fld, error_message := Some msg,
             updated_at := ts\<rparr>)"

definition fetch_geom_job :: "int \<Rightarrow> job_table \<Rightarrow> job option" where
  "fetch_geom_job i t = find (\<lambda>j. job_id j = i) (job_rows t)"

definition is_active :: "job \<Rightarrow> bool" where
  "is_active j \<longleftrightarrow> status j = Pending \<or> status j = Running"

definition fetch_latest_active_geom_job :: "job_table \<Rightarrow> job option" where
  "fetch_latest_active_geom_job t =
     (case rev (sort_key job_id (filter is_active (job_rows t))) of [] \<Rightarrow> None | j # _ \<Rightarrow> Some j)"

definition mark_stale_geom_jobs_interrupted :: "pystr \<Rightarrow> job_table \<Rightarrow> int \<times> job_table" where
  "mark_stale_geom_jobs_interrupted ts t =
     (int (length (filter is_active (job_rows t))),
      update_jobs is_active
        (\<lambda>j. j\<lparr>status := Failed, error_message := Some msg_job_interrupted, updated_at := ts\<rparr>) t)"

definition jobs_ok :: "job_table \<Rightarrow> bool" where
  "jobs_ok t \<longleftrightarrow> sorted_wrt (\<lambda>i j. job_id i < job_id j) (job_rows t) \<and>
     (\<forall>j \<in> set (job_rows t). 0 < job_id j \<and> job_id j \<le> job_seq t) \<and> 0 \<le> job_seq t"

definition empty_jobs :: job_table where
  "empty_jobs = \<lparr>job_rows = [], job_seq = 0\<rparr>"

lemma jobs_ok_empty [inv_intros]: "jobs_ok empty_jobs"
  by (simp add: jobs_ok_def empty_jobs_def)

lemma jobs_ok_create [inv_intros]: "jobs_ok t \<Longrightarrow> jobs_ok (snd (create_geom_update_job ts t))"
  by (fastforce simp: jobs_ok_def create_geom_update_job_def sorted_wrt_append)

lemma jobs_ok_update_jobs:
  assumes "jobs_ok t" "\<And>j. job_id (f j) = job_id j"
  shows "jobs_ok (update_jobs P f t)"
proof -
  have "job_id (if P j then f j else j) = job_id j" for j by (simp add: assms(2))
  with assms(1) show ?thesis
    by (simp add: jobs_ok_def update_jobs_def sorted_wrt_map del: set_map) (simp add: assms(2) ball_Un image_iff)
qed

lemma jobs_ok_marks [inv_intros]:
  assumes "jobs_ok t"
  shows "jobs_ok (mark_geom_job_running i ts t)" "jobs_ok (mark_geom_job_done i u f ts t)"
    "jobs_ok (mark_geom_job_failed i u f m ts t)" "jobs_ok (snd (mark_stale_geom_jobs_interrupted ts t))"
  unfolding mark_geom_job_running_def mark_geom_job_done_def mark_geom_job_failed_def
    mark_stale_geom_jobs_interrupted_def snd_conv
  by (rule jobs_ok_update_jobs [OF assms]; simp)+

lemma find_update_jobs:
  assumes "\<And>j. job_id (f j) = job_id j"
  shows "fetch_geom_job i (update_jobs P f t) =
    map_option (\<lambda>j. if P j then f j else j) (fetch_geom_job i t)"
proof -
  have "find (\<lambda>j. job_id j = i) (map (\<lambda>j. if P j then f j else j) js) =
        map_option (\<lambda>j. if P j then f j else j) (find (\<lambda>j. job_id j = i) js)" for js
    by (induction js) (auto simp: assms)
  then show ?thesis by (simp add: fetch_geom_job_def update_jobs_def)
qed

text \<open>What a mark does to the job it names, and that it touches no other job.\<close>

lemma fetch_marked:
  "fetch_geom_job i (mark_geom_job_running i' ts t) =
     map_option (\<lambda>j. if i = i' then j\<lparr>status := Running, job_attempts := job_attempts j + 1, updated_at := ts\<rparr> else j)
       (fetch_geom_job i t)"
  "fetch_geom_job i (mark_geom_job_done i' u f ts t) =
     map_option (\<lambda>j. if i = i' then j\<lparr>status := Done, updated_count := u, failed_count := f, error_message := None,
                        updated_at := ts\<rparr> else j) (fetch_geom_job i t)"
  "fetch_geom_job i (mark_geom_job_failed i' u f m ts t) =
     map_option (\<lambda>j. if i = i' then j\<lparr>status := Failed, updated_count := u, failed_count := f,
                        error_message := Some m, updated_at := ts\<rparr> else j) (fetch_geom_job i t)"
proof -
  have i: "job_id j = i" if "fetch_geom_job i t = Some j" for j
    using that by (auto simp: fetch_geom_job_def find_Some_iff)
  show "fetch_geom_job i (mark_geom_job_running i' ts t) =
     map_option (\<lambda>j. if i = i' then j\<lparr>status := Running, job_attempts := job_attempts j + 1, updated_at := ts\<rparr> else j)
       (fetch_geom_job i t)"
    unfolding mark_geom_job_running_def using i
    by (subst find_update_jobs) (auto simp: map_option_case split: option.split)
  show "fetch_geom_job i (mark_geom_job_done i' u f ts t) =
     map_option (\<lambda>j. if i = i' then j\<lparr>status := Done, updated_count := u, failed_count := f, error_message := None,
                        updated_at := ts\<rparr> else j) (fetch_geom_job i t)"
    unfolding mark_geom_job_done_def using i
    by (subst find_update_jobs) (auto simp: map_option_case split: option.split)
  show "fetch_geom_job i (mark_geom_job_failed i' u f m ts t) =
     map_option (\<lambda>j. if i = i' then j\<lparr>status := Failed, updated_count := u, failed_count := f,
                        error_message := Some m, updated_at := ts\<rparr> else j) (fetch_geom_job i t)"
    unfolding mark_geom_job_failed_def using i
    by (subst find_update_jobs) (auto simp: map_option_case split: option.split)
qed

lemma find_append: "find P (xs @ ys) = (case find P xs of None \<Rightarrow> find P ys | Some x \<Rightarrow> Some x)"
  by (induction xs) auto

lemma fetch_created:
  "jobs_ok t \<Longrightarrow> fetch_geom_job i (snd (create_geom_update_job ts t)) =
     (if i = job_seq t + 1
      then Some \<lparr>job_id = i, status = Pending, job_attempts = 0, updated_count = 0, failed_count = 0,
                 error_message = None, created_at = ts, updated_at = ts\<rparr>
      else fetch_geom_job i t)"
proof (cases "i = job_seq t + 1")
  case True
  assume "jobs_ok t"
  with True have "find (\<lambda>j. job_id j = i) (job_rows t) = None"
    by (auto simp: find_None_iff jobs_ok_def)
  with True show ?thesis by (simp add: fetch_geom_job_def create_geom_update_job_def find_append)
qed (simp add: fetch_geom_job_def create_geom_update_job_def find_append split: option.split)

lemma fetch_latest_active_iff:
  "fetch_latest_active_geom_job t = None \<longleftrightarrow> (\<forall>j \<in> set (job_rows t). \<not> is_active j)"
proof -
  have "fetch_latest_active_geom_job t = None \<longleftrightarrow> set (sort_key job_id (filter is_active (job_rows t))) = {}"
    by (simp add: fetch_latest_active_geom_job_def del: set_sort split: list.split)
  then show ?thesis by (auto simp: filter_empty_conv)
qed

end
