(* ===== verification/Vworld.thy ===== *)
theory Vworld
  imports Py_Value
begin

text \<open>
  \<open>app/clients/http_client.py\<close> and \<open>app/clients/vworld_client.py\<close>: a JSON request with retries,
  and the geocoder and WFS requests that find the boundary of a parcel. The network is a
  parameter: what \<open>requests.get\<close> gives for the \<open>n\<close>-th call of a run, an exception or a status and
  the outcome of \<open>response.json()\<close>. The number of calls made is threaded through.
\<close>

type_synonym http = "nat \<Rightarrow> pystr \<Rightarrow> pyfloat \<Rightarrow> (int \<times> json result) result"

text \<open>What the model leaves to the interpreter's rendering of floats: \<open>str\<close> of a float, a list
  or an object, and the JSON encoder (as it is, and with \<open>ensure_ascii=False\<close> and no spaces) and decoder.\<close>

record pylib =
  lib_str :: "json \<Rightarrow> pystr"
  lib_dumps :: "json \<Rightarrow> pystr"
  lib_dumps_raw :: "json \<Rightarrow> pystr"
  lib_loads :: "pystr \<Rightarrow> json result"

section \<open>time.sleep\<close>

definition float_times :: "pyfloat \<Rightarrow> int \<Rightarrow> pyfloat" where
  "float_times f k =
     (case f of
        Fin q \<Rightarrow> dbl (q * of_int k)
      | NaN \<Rightarrow> NaN
      | _ \<Rightarrow> if k = 0 then NaN else if (f = PosInf) = (0 < k) then PosInf else NegInf)"

text \<open>\<open>time.sleep\<close> counts in nanoseconds of 64 bits.\<close>

definition sleep :: "pyfloat \<Rightarrow> unit result" where
  "sleep f =
     (case float_times f (10 ^ 9) of
        Fin d \<Rightarrow> if d < - (2 ^ 63) \<or> 2 ^ 63 \<le> d then Inl OverflowErr
                 else if d < 0 then Inl (ValueErr None) else Inr ()
      | NaN \<Rightarrow> Inl (ValueErr None)
      | _ \<Rightarrow> Inl OverflowErr)"

section \<open>HTTP\<close>

text \<open>One request: \<open>raise_for_status\<close> raises from 400 to 599.\<close>

definition get_json_once :: "(int \<times> json result) result \<Rightarrow> json result" where
  "get_json_once response =
     bindR response (\<lambda>(status_code, body).
       if 400 \<le> status_code \<and> status_code < 500 \<and> status_code \<noteq> 429
       then Inl (NonRetryableHTTPError status_code)
       else if 400 \<le> status_code \<and> status_code < 600 then Inl (HTTPStatusErr status_code)
       else body)"

fun is_non_retryable :: "exn \<Rightarrow> bool" where
  "is_non_retryable (NonRetryableHTTPError _) = True"
| "is_non_retryable _ = False"

fun retry_loop ::
  "http \<Rightarrow> pystr \<Rightarrow> pyfloat \<Rightarrow> int \<Rightarrow> pyfloat \<Rightarrow> int list \<Rightarrow> exn option \<Rightarrow> nat \<Rightarrow> json result \<times> nat" where
  "retry_loop http url timeout_s retries backoff_s [] last_error n =
     (Inl (case last_error of Some e \<Rightarrow> e
           | None \<Rightarrow> RuntimeErr (asc ''HTTP request failed without explicit exception'')), n)"
| "retry_loop http url timeout_s retries backoff_s (attempt # rest) last_error n =
     (case get_json_once (http n url timeout_s) of
        Inr body \<Rightarrow> (Inr body, Suc n)
      | Inl e \<Rightarrow>
          if is_non_retryable e then (Inl e, Suc n)
          else if attempt < retries then
            (case sleep (float_times backoff_s attempt) of
               Inl e' \<Rightarrow> (Inl e', Suc n)
             | Inr _ \<Rightarrow> retry_loop http url timeout_s retries backoff_s rest (Some e) (Suc n))
          else retry_loop http url timeout_s retries backoff_s rest (Some e) (Suc n))"

definition get_json_with_retry ::
  "http \<Rightarrow> pystr \<Rightarrow> pyfloat \<Rightarrow> int \<Rightarrow> pyfloat \<Rightarrow> nat \<Rightarrow> json result \<times> nat" where
  "get_json_with_retry http url timeout_s retries backoff_s n =
     retry_loop http url timeout_s retries backoff_s [1..retries] None n"

section \<open>JSON access\<close>

text \<open>\<open>v.get(k, d)\<close> and \<open>v[k]\<close> on a decoded value.\<close>

definition json_get :: "json \<Rightarrow> string \<Rightarrow> json \<Rightarrow> json result" where
  "json_get v k d =
     (case v of
        JObj kvs \<Rightarrow> Inr (case map_of kvs (asc k) of Some x \<Rightarrow> x | None \<Rightarrow> d)
      | _ \<Rightarrow> Inl AttributeErr)"

definition json_item :: "json \<Rightarrow> string \<Rightarrow> json result" where
  "json_item v k =
     (case v of
        JObj kvs \<Rightarrow> (case map_of kvs (asc k) of Some x \<Rightarrow> Inr x | None \<Rightarrow> Inl KeyErr)
      | _ \<Rightarrow> Inl TypeErr)"

text \<open>What a \<open>for\<close> loop over a JSON value runs through.\<close>

fun json_items :: "json \<Rightarrow> json list result" where
  "json_items (JList xs) = Inr xs"
| "json_items (JObj kvs) = Inr (map (\<lambda>(k, _). JStr k) kvs)"
| "json_items (JStr s) = Inr (map (\<lambda>c. JStr [c]) s)"
| "json_items _ = Inl TypeErr"

text \<open>\<open>v[0]\<close> on a true value.\<close>

definition json_first :: "json \<Rightarrow> json result" where
  "json_first v =
     (case v of
        JList (x # _) \<Rightarrow> Inr x
      | JList [] \<Rightarrow> Inl IndexErr
      | JStr (c # _) \<Rightarrow> Inr (JStr [c])
      | JStr [] \<Rightarrow> Inl IndexErr
      | JObj _ \<Rightarrow> Inl KeyErr
      | _ \<Rightarrow> Inl TypeErr)"

section \<open>quote_plus\<close>

definition hex_upper :: "nat \<Rightarrow> nat" where
  "hex_upper d = (if d < 10 then 48 + d else 55 + d)"

definition quote_byte :: "nat \<Rightarrow> pystr" where
  "quote_byte b =
     (if (65 \<le> b \<and> b \<le> 90) \<or> (97 \<le> b \<and> b \<le> 122) \<or> (48 \<le> b \<and> b \<le> 57) \<or> b \<in> {95, 46, 45, 126} then [b]
      else if b = 32 then [43]
      else [37, hex_upper (b div 16), hex_upper (b mod 16)])"

definition quote_plus :: "pystr \<Rightarrow> pystr result" where
  "quote_plus s = bindR (encode_utf8 s) (\<lambda>bs. Inr (concat (map quote_byte bs)))"

section \<open>The VWorld client\<close>

record VWorldClient =
  api_key :: pystr
  client_timeout_s :: pyfloat
  client_retries :: int
  client_backoff_s :: pyfloat

definition geocoder_url :: "VWorldClient \<Rightarrow> pystr \<Rightarrow> pystr" where
  "geocoder_url c encoded_address =
     asc ''https://api.vworld.kr/req/address?service=address&request=getcoord&address='' @ encoded_address @
     asc ''&key='' @ api_key c @ asc ''&type=parcel''"

definition wfs_url :: "VWorldClient \<Rightarrow> pystr \<Rightarrow> pystr \<Rightarrow> pystr" where
  "wfs_url c x y =
     asc ''https://api.vworld.kr/req/wfs?key='' @ api_key c @ asc ''&service=WFS&version=1.1.0'' @
     asc ''&request=GetFeature&typename=lp_pa_cbnd_bubun,lp_pa_cbnd_bonbun'' @
     asc ''&bbox='' @ x @ [44] @ y @ [44] @ x @ [44] @ y @ asc ''&srsname=EPSG:4326&output=application/json''"

definition request_json :: "VWorldClient \<Rightarrow> http \<Rightarrow> pystr \<Rightarrow> nat \<Rightarrow> json result \<times> nat" where
  "request_json c http url n =
     get_json_with_retry http url (client_timeout_s c) (client_retries c) (client_backoff_s c) n"

definition geocoder_status :: "json \<Rightarrow> json result" where
  "geocoder_status res = bindR (json_get res ''response'' (JObj [])) (\<lambda>v. json_get v ''status'' JNull)"

definition geocoder_point :: "json \<Rightarrow> (json \<times> json) result" where
  "geocoder_point res =
     bindR (json_item res ''response'') (\<lambda>v. bindR (json_item v ''result'') (\<lambda>v. bindR (json_item v ''point'')
       (\<lambda>point. bindR (json_item point ''x'') (\<lambda>x. bindR (json_item point ''y'') (\<lambda>y. Inr (x, y))))))"

definition wfs_geometry :: "pylib \<Rightarrow> json \<Rightarrow> json \<Rightarrow> json \<Rightarrow> pystr result" where
  "wfs_geometry lib wfs_res x y =
     bindR (json_get wfs_res ''features'' JNull) (\<lambda>features.
       if truthy features
       then bindR (json_first features) (\<lambda>f. bindR (json_item f ''geometry'') (\<lambda>g. Inr (lib_dumps lib g)))
       else bindR (float_of_json x) (\<lambda>fx. bindR (float_of_json y) (\<lambda>fy.
              Inr (lib_dumps lib (JObj [(asc ''type'', JStr (asc ''Point'')),
                                        (asc ''coordinates'', JList [JFloat fx, JFloat fy])])))))"

definition get_parcel_geometry ::
  "pylib \<Rightarrow> http \<Rightarrow> VWorldClient \<Rightarrow> pystr \<Rightarrow> nat \<Rightarrow> pystr option result \<times> nat" where
  "get_parcel_geometry lib http c address n =
     (case quote_plus address of Inl e \<Rightarrow> (Inl e, n) | Inr encoded_address \<Rightarrow>
      let (r, n) = request_json c http (geocoder_url c encoded_address) n in
      case bindR r (\<lambda>res. bindR (geocoder_status res) (\<lambda>st. Inr (res, st = JStr (asc ''OK'')))) of
        Inl _ \<Rightarrow> (Inr None, n)
      | Inr (res, ok) \<Rightarrow>
          if \<not> ok then (Inr None, n)
          else case geocoder_point res of
            Inl _ \<Rightarrow> (Inr None, n)
          | Inr (x, y) \<Rightarrow>
              let (w, n) = request_json c http (wfs_url c (py_str (lib_str lib) x) (py_str (lib_str lib) y)) n in
              case w of
                Inl _ \<Rightarrow> (Inr None, n)
              | Inr wfs_res \<Rightarrow> (bindR (wfs_geometry lib wfs_res x y) (\<lambda>g. Inr (Some g)), n))"

definition health_url :: "VWorldClient \<Rightarrow> pystr" where
  "health_url c =
     asc ''https://api.vworld.kr/req/address?service=address&request=getcoord&type=parcel'' @
     asc ''&address=%EC%84%9C%EC%9A%B8%ED%8A%B9%EB%B3%84%EC%8B%9C+%EC%A4%91%EA%B5%AC+'' @
     asc ''%EC%84%B8%EC%A2%85%EB%8C%80%EB%A1%9C+110'' @ asc ''&key='' @ api_key c"

text \<open>A list or an object is not hashable: \<open>status in {...}\<close> raises.\<close>

definition check_geocoder_health :: "http \<Rightarrow> VWorldClient \<Rightarrow> nat \<Rightarrow> bool result \<times> nat" where
  "check_geocoder_health http c n =
     (let (r, n) = request_json c http (health_url c) n in
      (bindR r (\<lambda>payload. bindR (geocoder_status payload) (\<lambda>st.
         case st of JList _ \<Rightarrow> Inl TypeErr | JObj _ \<Rightarrow> Inl TypeErr
         | _ \<Rightarrow> Inr (st = JStr (asc ''OK'') \<or> st = JStr (asc ''NOT_FOUND'')))), n))"

section \<open>Retries\<close>

text \<open>An answer that ends the loop: a body, or an error that is not retried.\<close>

definition decisive :: "json result \<Rightarrow> bool" where
  "decisive r = (case r of Inr _ \<Rightarrow> True | Inl e \<Rightarrow> is_non_retryable e)"

lemma retry_loop_calls:
  "n \<le> snd (retry_loop http url t r b as le n) \<and> snd (retry_loop http url t r b as le n) \<le> n + length as"
proof (induction "as" arbitrary: le n)
  case (Cons a "as")
  have "n \<le> snd (retry_loop http url t r b as le' (Suc n)) \<and>
        snd (retry_loop http url t r b as le' (Suc n)) \<le> Suc (n + length as)" for le'
    using Cons [of "Suc n" le'] by simp
  then show ?case by (auto split: sum.split)
qed simp

lemma get_json_with_retry_calls:
  "n \<le> snd (get_json_with_retry http url t r b n) \<and> snd (get_json_with_retry http url t r b n) \<le> n + nat r"
  using retry_loop_calls [of n http url t r b "[1..r]" None] by (simp add: get_json_with_retry_def)

lemma retry_loop_outcome:
  assumes "\<And>a. a \<in> set as \<Longrightarrow> a < r \<Longrightarrow> sleep (float_times b a) = Inr ()"
  shows "(\<exists>k < length as. decisive (get_json_once (http (n + k) url t)) \<and>
            (\<forall>i < k. \<not> decisive (get_json_once (http (n + i) url t))) \<and>
            retry_loop http url t r b as le n = (get_json_once (http (n + k) url t), n + k + 1)) \<or>
         ((\<forall>i < length as. \<not> decisive (get_json_once (http (n + i) url t))) \<and>
            snd (retry_loop http url t r b as le n) = n + length as \<and>
            (as \<noteq> [] \<longrightarrow> fst (retry_loop http url t r b as le n) =
               get_json_once (http (n + length as - 1) url t)))"
  using assms
proof (induction "as" arbitrary: le n)
  case (Cons a "as")
  let ?o = "get_json_once (http n url t)"
  show ?case
  proof (cases "decisive ?o")
    case True
    then show ?thesis by (intro disjI1 exI [of _ 0]) (auto simp: decisive_def split: sum.splits)
  next
    case False
    then obtain e where e: "?o = Inl e" "\<not> is_non_retryable e" by (auto simp: decisive_def split: sum.splits)
    then have step: "retry_loop http url t r b (a # as) le n = retry_loop http url t r b as (Some e) (Suc n)"
      using Cons.prems [of a] by auto
    have "(\<exists>k < length as. decisive (get_json_once (http (Suc n + k) url t)) \<and>
            (\<forall>i < k. \<not> decisive (get_json_once (http (Suc n + i) url t))) \<and>
            retry_loop http url t r b as (Some e) (Suc n) = (get_json_once (http (Suc n + k) url t), Suc n + k + 1)) \<or>
         ((\<forall>i < length as. \<not> decisive (get_json_once (http (Suc n + i) url t))) \<and>
            snd (retry_loop http url t r b as (Some e) (Suc n)) = Suc n + length as \<and>
            (as \<noteq> [] \<longrightarrow> fst (retry_loop http url t r b as (Some e) (Suc n)) =
               get_json_once (http (Suc n + length as - 1) url t)))"
      using Cons.prems by (intro Cons.IH) simp
    then show ?thesis
    proof (elim disjE exE conjE)
      fix k
      assume "k < length as" "decisive (get_json_once (http (Suc n + k) url t))"
        "\<forall>i < k. \<not> decisive (get_json_once (http (Suc n + i) url t))"
        "retry_loop http url t r b as (Some e) (Suc n) = (get_json_once (http (Suc n + k) url t), Suc n + k + 1)"
      with False show ?thesis
        unfolding step by (intro disjI1 exI [of _ "Suc k"]) (auto simp: less_Suc_eq_0_disj)
    next
      assume "\<forall>i < length as. \<not> decisive (get_json_once (http (Suc n + i) url t))"
        and "snd (retry_loop http url t r b as (Some e) (Suc n)) = Suc n + length as"
        and "as \<noteq> [] \<longrightarrow> fst (retry_loop http url t r b as (Some e) (Suc n)) =
               get_json_once (http (Suc n + length as - 1) url t)"
      with False e show ?thesis
        unfolding step by (intro disjI2) (cases "as"; auto simp: less_Suc_eq_0_disj)
    qed
  qed
qed simp

text \<open>
  The policy, said of the answers of the network: a status of the client's fault other than 429 settles a request, and
  so does a body under any status that is no error; an exception of the network, a body that is no JSON, the status 429 and
  the errors of the server do not.
\<close>

definition settles :: "(int \<times> json result) result \<Rightarrow> json result \<Rightarrow> bool" where
  "settles answer out \<longleftrightarrow>
     (\<exists>code body. answer = Inr (code, body) \<and>
        (code \<in> {400..499} - {429} \<and> out = Inl (NonRetryableHTTPError code) \<or>
         code \<notin> {400..599} \<and> (\<exists>v. body = Inr v \<and> out = Inr v)))"

definition fails_with :: "(int \<times> json result) result \<Rightarrow> exn \<Rightarrow> bool" where
  "fails_with answer e \<longleftrightarrow>
     answer = Inl e \<or>
     (\<exists>code body. answer = Inr (code, body) \<and>
        (code \<in> {429} \<union> {500..599} \<and> e = HTTPStatusErr code \<or> code \<notin> {400..599} \<and> body = Inl e))"

text \<open>\<open>requests\<close> raises none of the program's own exceptions.\<close>

definition foreign_http :: "http \<Rightarrow> bool" where
  "foreign_http http \<longleftrightarrow>
     (\<forall>n url t e. (http n url t = Inl e \<or> (\<exists>code. http n url t = Inr (code, Inl e))) \<longrightarrow> \<not> is_non_retryable e)"

lemma get_json_once_settles:
  assumes "foreign_http http"
  shows "decisive (get_json_once (http n url t)) \<Longrightarrow> settles (http n url t) (get_json_once (http n url t))"
    and "\<not> decisive (get_json_once (http n url t)) \<Longrightarrow> \<exists>e. get_json_once (http n url t) = Inl e \<and> fails_with (http n url t) e"
proof -
  show "settles (http n url t) (get_json_once (http n url t))" if d: "decisive (get_json_once (http n url t))"
  proof (cases "http n url t")
    case (Inl e)
    with assms d show ?thesis by (simp add: foreign_http_def get_json_once_def decisive_def)
  next
    case (Inr a)
    then obtain code body where a: "http n url t = Inr (code, body)" by (cases a) simp
    show ?thesis
    proof (cases body)
      case (Inl e)
      with a have "http n url t = Inr (code, Inl e)" by simp
      with assms have "\<not> is_non_retryable e" unfolding foreign_http_def by blast
      with Inl a d show ?thesis by (auto simp: get_json_once_def settles_def decisive_def split: if_splits)
    next
      case (Inr v)
      with a d show ?thesis by (auto simp: get_json_once_def settles_def decisive_def split: if_splits)
    qed
  qed
  show "\<exists>e. get_json_once (http n url t) = Inl e \<and> fails_with (http n url t) e" if "\<not> decisive (get_json_once (http n url t))"
    using that
    by (cases "http n url t") (auto simp: get_json_once_def fails_with_def decisive_def split: if_splits sum.splits)
qed

section \<open>Properties\<close>

text \<open>
  C15. Retries: with a backoff that can be slept, the calls are made one after the other until one is settled: by a
  body under a status that is no error, which is returned, or by a status from 400 to 499 other than 429, which is raised at
  once. After an exception of the network, a body that is no JSON, a 429 or a status from 500 to 599 the next call is made; when
  all \<open>retries\<close> calls have ended like that, the exception of the last one is raised, and no further call is made.
\<close>

theorem retry_policy:
  assumes "0 < retries" and "\<And>a. 0 < a \<Longrightarrow> a < retries \<Longrightarrow> sleep (float_times backoff_s a) = Inr ()"
    and "foreign_http http"
  shows "(\<exists>k < nat retries. \<exists>out. settles (http (n + k) url timeout_s) out \<and>
            (\<forall>i < k. \<exists>e. fails_with (http (n + i) url timeout_s) e) \<and>
            get_json_with_retry http url timeout_s retries backoff_s n = (out, n + k + 1)) \<or>
         (\<exists>e. (\<forall>i < nat retries. \<exists>e. fails_with (http (n + i) url timeout_s) e) \<and>
            fails_with (http (n + nat retries - 1) url timeout_s) e \<and>
            get_json_with_retry http url timeout_s retries backoff_s n = (Inl e, n + nat retries))"
proof -
  let ?o = "\<lambda>k. get_json_once (http k url timeout_s)" and ?run = "get_json_with_retry http url timeout_s retries backoff_s n"
  note settled = get_json_once_settles [OF assms(3)]
  have "[1..retries] \<noteq> []" using assms(1) by simp
  then have "(\<exists>k < nat retries. decisive (?o (n + k)) \<and> (\<forall>i < k. \<not> decisive (?o (n + i))) \<and> ?run = (?o (n + k), n + k + 1)) \<or>
      (\<forall>i < nat retries. \<not> decisive (?o (n + i))) \<and> ?run = (?o (n + nat retries - 1), n + nat retries)"
    using retry_loop_outcome [of "[1..retries]" retries backoff_s http n url timeout_s None] assms(2)
    unfolding get_json_with_retry_def by (auto simp: prod_eq_iff)
  then show ?thesis
  proof (elim disjE exE conjE)
    fix k assume "k < nat retries" "decisive (?o (n + k))" "\<forall>i < k. \<not> decisive (?o (n + i))" "?run = (?o (n + k), n + k + 1)"
    with settled show ?thesis by blast
  next
    assume all: "\<forall>i < nat retries. \<not> decisive (?o (n + i))" "?run = (?o (n + nat retries - 1), n + nat retries)"
    have "n + nat retries - 1 = n + (nat retries - 1)" "nat retries - 1 < nat retries" using assms(1) by simp_all
    with all(1) have "\<not> decisive (?o (n + nat retries - 1))" by metis
    from settled(2) [OF this] obtain e where "?o (n + nat retries - 1) = Inl e" "fails_with (http (n + nat retries - 1) url timeout_s) e"
      by blast
    with all settled(2) show ?thesis by metis
  qed
qed

text \<open>A network that is overloaded, then answers.\<close>

definition second_call_answers :: http where
  "second_call_answers n url t = (if n = 1 then Inr (200, Inr (JInt 7)) else Inr (503, Inl JSONDecodeErr))"

lemma retry_policy_witness:
  "get_json_with_retry second_call_answers [] (Fin 5) 3 (Fin 1) 0 = (Inr (JInt 7), 2)"
proof -
  have "\<forall>a \<in> {1, 2}. sleep (float_times (Fin 1) a) = Inr ()" by code_simp
  moreover have "a = 1 \<or> a = 2" if "0 < a" "a < 3" for a :: int using that by auto
  ultimately have s: "sleep (float_times (Fin 1) a) = Inr ()" if "0 < a" "a < 3" for a using that by blast
  have f: "foreign_http second_call_answers" by (simp add: foreign_http_def second_call_answers_def)
  let ?h = "\<lambda>k. second_call_answers k [] (Fin 5)" and ?r = "get_json_with_retry second_call_answers [] (Fin 5) 3 (Fin 1) 0"
  have call: "fails_with (?h k) e \<longleftrightarrow> k \<noteq> 1 \<and> e = HTTPStatusErr 503" "settles (?h k) out \<longleftrightarrow> k = 1 \<and> out = Inr (JInt 7)" for k e out
    by (auto simp: fails_with_def settles_def second_call_answers_def)
  have "(\<exists>k < nat 3. \<exists>out. settles (?h (0 + k)) out \<and> (\<forall>i < k. \<exists>e. fails_with (?h (0 + i)) e) \<and> ?r = (out, 0 + k + 1)) \<or>
      (\<exists>e. (\<forall>i < nat 3. \<exists>e. fails_with (?h (0 + i)) e) \<and> fails_with (?h (0 + nat 3 - 1)) e \<and> ?r = (Inl e, 0 + nat 3))"
    by (rule retry_policy [OF _ s f]) simp_all
  moreover have "\<not> (\<forall>i < nat 3. \<exists>e. fails_with (?h (0 + i)) e)"
  proof
    assume "\<forall>i < nat 3. \<exists>e. fails_with (?h (0 + i)) e"
    then have "\<exists>e. fails_with (?h (0 + 1)) e" by (rule allE [of _ 1]) simp
    then show False by (simp add: call)
  qed
  ultimately have "\<exists>k < nat 3. \<exists>out. settles (?h (0 + k)) out \<and> (\<forall>i < k. \<exists>e. fails_with (?h (0 + i)) e) \<and> ?r = (out, 0 + k + 1)"
    by blast
  then show ?thesis by (auto simp: call)
qed

lemma wfs_geometry_raises:
  "wfs_geometry lib w x y = Inl e \<longleftrightarrow>
     json_get w ''features'' JNull = Inl e \<or>
     (\<exists>features. json_get w ''features'' JNull = Inr features \<and>
        (if truthy features then bindR (json_first features) (\<lambda>f. json_item f ''geometry'') = Inl e
         else bindR (float_of_json x) (\<lambda>_. float_of_json y) = Inl e))"
  unfolding wfs_geometry_def
  by (cases "json_get w ''features'' JNull"; simp add: bindR_def split: sum.splits)

lemma request_json_calls: "request_json c http url n = (r, n1) \<Longrightarrow> n1 \<le> n + nat (client_retries c)"
  using get_json_with_retry_calls [of n http url "client_timeout_s c" "client_retries c" "client_backoff_s c"]
  by (simp add: request_json_def)

text \<open>
  C16. A boundary request makes at most twice \<open>retries\<close> calls, and no failure of the network leaves it as an exception. It
  raises exactly for an address that has no UTF-8 form, and after both requests were answered: when the WFS answer is no object,
  when its features are not a list whose first element has a geometry, or when it has no features and the coordinates of
  the geocoder, which are then converted, are not numbers.
\<close>

theorem geometry_request_contained:
  "snd (get_parcel_geometry lib http c address n) \<le> n + 2 * nat (client_retries c) \<and>
   (fst (get_parcel_geometry lib http c address n) = Inl e \<longleftrightarrow>
      quote_plus address = Inl e \<or>
      (\<exists>encoded res n1 x y wfs_res n2. quote_plus address = Inr encoded \<and>
         request_json c http (geocoder_url c encoded) n = (Inr res, n1) \<and>
         geocoder_status res = Inr (JStr (asc ''OK'')) \<and> geocoder_point res = Inr (x, y) \<and>
         request_json c http (wfs_url c (py_str (lib_str lib) x) (py_str (lib_str lib) y)) n1 = (Inr wfs_res, n2) \<and>
         (json_get wfs_res ''features'' JNull = Inl e \<or>
          (\<exists>features. json_get wfs_res ''features'' JNull = Inr features \<and>
             (if truthy features then bindR (json_first features) (\<lambda>f. json_item f ''geometry'') = Inl e
              else bindR (float_of_json x) (\<lambda>_. float_of_json y) = Inl e)))))"
proof (cases "quote_plus address")
  case (Inr enc)
  obtain r n1 where r: "request_json c http (geocoder_url c enc) n = (r, n1)" by fastforce
  note n1 = request_json_calls [OF r]
  show ?thesis
  proof (cases "bindR r (\<lambda>res. bindR (geocoder_status res) (\<lambda>st. Inr (res, st = JStr (asc ''OK''))))")
    case ok: (Inr p)
    obtain res b where p: "p = (res, b)" by fastforce
    from ok p obtain st where res: "r = Inr res" "geocoder_status res = Inr st" "b \<longleftrightarrow> st = JStr (asc ''OK'')"
      by (auto simp: bindR_Inr_iff)
    show ?thesis
    proof (cases "b \<and> isr (geocoder_point res)")
      case True
      then obtain x y where pt: "geocoder_point res = Inr (x, y)" by (cases "geocoder_point res") auto
      let ?url = "wfs_url c (py_str (lib_str lib) x) (py_str (lib_str lib) y)"
      obtain w n2 where w: "request_json c http ?url n1 = (w, n2)" by fastforce
      note n2 = request_json_calls [OF w]
      have run: "get_parcel_geometry lib http c address n =
          (case w of Inl _ \<Rightarrow> (Inr None, n2) | Inr a \<Rightarrow> (bindR (wfs_geometry lib a x y) (\<lambda>g. Inr (Some g)), n2))"
        using Inr r ok p True pt w by (simp add: get_parcel_geometry_def)
      show ?thesis
      proof (cases w)
        case Inl
        with Inr r res w pt n1 n2 run show ?thesis by auto
      next
        case answer: (Inr a)
        have "fst (get_parcel_geometry lib http c address n) = Inl e \<longleftrightarrow> wfs_geometry lib a x y = Inl e"
          by (cases "wfs_geometry lib a x y") (simp_all add: run answer)
        with Inr r res True w pt n1 n2 run answer show ?thesis unfolding wfs_geometry_raises by auto
      qed
    next
      case False
      have none: "get_parcel_geometry lib http c address n = (Inr None, n1)"
        using False Inr r ok p by (cases "geocoder_point res") (auto simp: get_parcel_geometry_def)
      show ?thesis unfolding none using False Inr r res n1 by auto
    qed
  next
    case (Inl e')
    have none: "get_parcel_geometry lib http c address n = (Inr None, n1)"
      using Inl Inr r by (simp add: get_parcel_geometry_def)
    have "\<not> (r = Inr res \<and> geocoder_status res = Inr (JStr (asc ''OK'')))" for res using Inl by auto
    then show ?thesis unfolding none using Inr r n1 by auto
  qed
qed (simp add: get_parcel_geometry_def)

text \<open>Well-formed answers that raise: a point whose coordinates are no numbers, and no feature there.\<close>

definition wordy_point :: http where
  "wordy_point n url t =
     Inr (200, Inr (if n = 0
       then JObj [(asc ''response'', JObj [(asc ''status'', JStr (asc ''OK'')), (asc ''result'', JObj [(asc ''point'',
              JObj [(asc ''x'', JStr (asc ''east'')), (asc ''y'', JStr (asc ''north''))])])])]
       else JObj [(asc ''features'', JList [])]))"

lemma wordy_point_raises:
  "fst (get_parcel_geometry \<lparr>lib_str = (\<lambda>_. []), lib_dumps = (\<lambda>_. []), lib_dumps_raw = (\<lambda>_. []), lib_loads = (\<lambda>_. Inr JNull)\<rparr>
      wordy_point \<lparr>api_key = [], client_timeout_s = Fin 5, client_retries = 3, client_backoff_s = Fin 1\<rparr> (asc ''a'') 0) =
   Inl (ValueErr None)"
  by code_simp

end
