(* ===== verification/Geo_Service.thy ===== *)
theory Geo_Service
  imports Database Vworld
begin

text \<open>
  \<open>app/services/geo_service.py\<close>: the jobs that fetch the boundaries of the parcels. The client
  is an argument: from a state \<open>w\<close> of the outside world and an address it gives an exception, no
  boundary or a boundary, and the next state (\<open>get_parcel_geometry\<close> is one). \<open>ts\<close> stands for
  \<open>CURRENT_TIMESTAMP\<close>.
\<close>

type_synonym 'w geom_client = "'w \<Rightarrow> pystr \<Rightarrow> pystr option result \<times> 'w"

record database =
  poi :: poi_table
  jobs :: job_table

definition on_poi :: "(poi_table \<Rightarrow> poi_table) \<Rightarrow> database conn \<Rightarrow> database conn" where
  "on_poi f = execute (\<lambda>d. d\<lparr>poi := f (poi d)\<rparr>)"

definition on_jobs :: "(job_table \<Rightarrow> job_table) \<Rightarrow> database conn \<Rightarrow> database conn" where
  "on_jobs f = execute (\<lambda>d. d\<lparr>jobs := f (jobs d)\<rparr>)"

definition GEOM_BATCH_SIZE :: int where
  "GEOM_BATCH_SIZE = 50"

definition enqueue_geom_update_job :: "pystr \<Rightarrow> database \<Rightarrow> int \<times> database" where
  "enqueue_geom_update_job ts =
     db_connection (\<lambda>c.
       let (i, js) = create_geom_update_job ts (jobs (work c));
           c = on_jobs (\<lambda>_. js) c
       in (i, commit c))"

definition recover_interrupted_geom_jobs :: "pystr \<Rightarrow> database \<Rightarrow> int option \<times> database" where
  "recover_interrupted_geom_jobs ts =
     db_connection (\<lambda>c.
       let (stale_count, js) = mark_stale_geom_jobs_interrupted ts (jobs (work c));
           c = on_jobs (\<lambda>_. js) c
       in if stale_count = 0 then (None, c)
          else if 0 < count_missing_geom (poi (work c))
          then let (i, js) = create_geom_update_job ts (jobs (work c))
               in (Some i, commit (on_jobs (\<lambda>_. js) c))
          else (None, commit c))"

section \<open>The scan\<close>

text \<open>The variables of \<open>update_geoms\<close>: the connection, \<open>after_id\<close>, \<open>updated_count\<close>, the world.\<close>

record 'w scan =
  sc_conn :: "database conn"
  sc_after :: int
  sc_updated :: int
  sc_world :: 'w

abbreviation scan_poi :: "'w scan \<Rightarrow> poi_table" where
  "scan_poi s \<equiv> poi (work (sc_conn s))"

definition geom_item ::
  "'w geom_client \<Rightarrow> pyfloat \<Rightarrow> int \<Rightarrow> int \<times> pystr \<Rightarrow> 'w scan \<Rightarrow> unit result \<times> 'w scan" where
  "geom_item client backoff_s attempt item s =
     (let (item_id, addr) = item;
          (r, w) = client (sc_world s) addr;
          s = s\<lparr>sc_after := item_id, sc_world := w\<rparr>
      in case r of
           Inl e \<Rightarrow> (Inl e, s)
         | Inr geom_data \<Rightarrow>
             if geom_data \<noteq> None \<and> geom_data \<noteq> Some []
             then (Inr (), s\<lparr>sc_conn := commit (on_poi (update_geom item_id (the geom_data)) (sc_conn s)),
                            sc_updated := sc_updated s + 1\<rparr>)
             else (sleep (float_times backoff_s attempt), s))"

fun geom_batch ::
  "'w geom_client \<Rightarrow> pyfloat \<Rightarrow> int \<Rightarrow> (int \<times> pystr) list \<Rightarrow> 'w scan \<Rightarrow> unit result \<times> 'w scan" where
  "geom_batch client backoff_s attempt [] s = (Inr (), s)"
| "geom_batch client backoff_s attempt (item # rest) s =
     (case geom_item client backoff_s attempt item s of
        (Inl e, s) \<Rightarrow> (Inl e, s)
      | (Inr _, s) \<Rightarrow> geom_batch client backoff_s attempt rest s)"

text \<open>The loop over batches ends: it counts down the missing rows behind \<open>after_id\<close>.\<close>

definition rows_ahead :: "poi_table \<Rightarrow> int \<Rightarrow> nat" where
  "rows_ahead t a = length (filter (\<lambda>r. geom r = None \<and> a < land_id r) (poi_rows t))"

lemma rows_ahead_update_geom: "rows_ahead (update_geom i g t) a \<le> rows_ahead t a"
proof -
  have "length (filter (\<lambda>r. geom r = None \<and> a < land_id r)
          (map (\<lambda>r. if land_id r = i then r\<lparr>geom := Some g\<rparr> else r) rs)) \<le>
        length (filter (\<lambda>r. geom r = None \<and> a < land_id r) rs)" for rs
    by (induction rs) auto
  then show ?thesis by (simp add: rows_ahead_def update_geom_def)
qed

lemma geom_item_poi:
  "scan_poi (snd (geom_item client b k (i, a) s)) \<in> {scan_poi s} \<union> range (\<lambda>g. update_geom i g (scan_poi s))"
  by (auto simp: geom_item_def on_poi_def Let_def split: sum.split prod.split)

lemma geom_item_after: "sc_after (snd (geom_item client b k (i, a) s)) = i"
  by (simp add: geom_item_def Let_def split: sum.split prod.split)

lemma rows_ahead_item:
  "rows_ahead (scan_poi (snd (geom_item client b k item s))) a \<le> rows_ahead (scan_poi s) a"
proof -
  obtain i ad where it: "item = (i, ad)" by fastforce
  show ?thesis using geom_item_poi [of client b k i ad s] rows_ahead_update_geom
    by (auto simp: it)
qed

lemma rows_ahead_batch:
  "rows_ahead (scan_poi (snd (geom_batch client b k xs s))) a \<le> rows_ahead (scan_poi s) a"
proof (induction xs arbitrary: s)
  case (Cons item xs)
  obtain r s' where it: "geom_item client b k item s = (r, s')" by fastforce
  have "rows_ahead (scan_poi s') a \<le> rows_ahead (scan_poi s) a"
    using rows_ahead_item [of client b k item s a] by (simp add: it)
  with Cons.IH [of s'] it show ?case by (auto split: sum.split)
qed simp

lemma geom_batch_after:
  "geom_batch client b k xs s = (Inr u, s') \<Longrightarrow> sc_after s' = (if xs = [] then sc_after s else fst (last xs))"
proof (induction xs arbitrary: s)
  case (Cons item xs)
  obtain i ad where i: "item = (i, ad)" by fastforce
  obtain r s1 where it: "geom_item client b k item s = (r, s1)" by fastforce
  have af: "sc_after s1 = i" using geom_item_after [of client b k i ad s] by (simp add: it [unfolded i])
  from Cons.prems it obtain v where "r = Inr v" by (cases r) auto
  with Cons.prems it have "geom_batch client b k xs s1 = (Inr u, s')" by simp
  from Cons.IH [OF this] af i show ?case by simp
qed simp

lemma rows_ahead_skip:
  assumes "fetch_missing_geom t (Some n) a = xs" "xs \<noteq> []"
  shows "rows_ahead t (fst (last xs)) < rows_ahead t a"
proof -
  let ?m = "filter (\<lambda>r. geom r = None \<and> a < land_id r) (poi_rows t)"
  have "last xs \<in> set xs" using assms(2) by simp
  then obtain r where r: "r \<in> set ?m" "fst (last xs) = land_id r"
    using assms(1) by (fastforce simp: fetch_missing_geom_def sql_limit_def dest: in_set_takeD split: if_splits)
  then have "filter (\<lambda>r. geom r = None \<and> fst (last xs) < land_id r) (poi_rows t) =
             filter (\<lambda>r'. land_id r < land_id r') ?m"
    by (auto intro: filter_cong)
  moreover have "length (filter (\<lambda>r'. land_id r < land_id r') ?m) < length ?m"
    using r(1) by (intro length_filter_less) auto
  ultimately show ?thesis by (simp add: rows_ahead_def)
qed

function (sequential) geom_scan ::
  "'w geom_client \<Rightarrow> pyfloat \<Rightarrow> int \<Rightarrow> 'w scan \<Rightarrow> unit result \<times> 'w scan" where
  "geom_scan client backoff_s attempt s =
     (let batch = fetch_missing_geom (scan_poi s) (Some GEOM_BATCH_SIZE) (sc_after s)
      in if batch = [] then (Inr (), s)
         else case geom_batch client backoff_s attempt batch s of
                (Inl e, s) \<Rightarrow> (Inl e, s)
              | (Inr _, s) \<Rightarrow> geom_scan client backoff_s attempt s)"
  by pat_completeness auto

termination
proof (relation "measure (\<lambda>(_, _, _, s). rows_ahead (scan_poi s) (sc_after s))")
  fix client :: "'w geom_client" and b :: pyfloat and k :: int and s s' :: "'w scan" and xs r u
  assume xs: "xs = fetch_missing_geom (scan_poi s) (Some GEOM_BATCH_SIZE) (sc_after s)" "xs \<noteq> []"
    and "(r, s') = geom_batch client b k xs s" "r = Inr u"
  then have run: "geom_batch client b k xs s = (Inr u, s')" by simp
  have "rows_ahead (scan_poi s') (sc_after s') \<le> rows_ahead (scan_poi s) (fst (last xs))"
    using rows_ahead_batch [of client b k xs s] geom_batch_after [OF run] xs(2) by (simp add: run)
  also have "\<dots> < rows_ahead (scan_poi s) (sc_after s)" by (rule rows_ahead_skip [OF xs(1) [symmetric] xs(2)])
  finally show "((client, b, k, s'), client, b, k, s) \<in> measure (\<lambda>(_, _, _, s). rows_ahead (scan_poi s) (sc_after s))"
    by simp
qed simp

declare geom_scan.simps [simp del]

fun geom_attempts ::
  "'w geom_client \<Rightarrow> pyfloat \<Rightarrow> int list \<Rightarrow> 'w scan \<Rightarrow> unit result \<times> 'w scan" where
  "geom_attempts client backoff_s [] s = (Inr (), s)"
| "geom_attempts client backoff_s (attempt # rest) s =
     (case geom_scan client backoff_s attempt (s\<lparr>sc_after := 0\<rparr>) of
        (Inl e, s) \<Rightarrow> (Inl e, s)
      | (Inr _, s) \<Rightarrow>
          if count_missing_geom (scan_poi s) = 0 then (Inr (), s)
          else geom_attempts client backoff_s rest s)"

definition update_geoms ::
  "'w geom_client \<Rightarrow> pyfloat \<Rightarrow> int \<Rightarrow> 'w \<Rightarrow> database \<Rightarrow> ((int \<times> int) result \<times> 'w) \<times> database" where
  "update_geoms client backoff_s max_retries w =
     db_connection (\<lambda>c.
       let (r, s) = geom_attempts client backoff_s [1..max_retries]
                      \<lparr>sc_conn = c, sc_after = 0, sc_updated = 0, sc_world = w\<rparr>
       in ((bindR r (\<lambda>_. Inr (sc_updated s, count_missing_geom (scan_poi s))), sc_world s), sc_conn s))"

section \<open>The job\<close>

definition change_jobs :: "(job_table \<Rightarrow> job_table) \<Rightarrow> database \<Rightarrow> database" where
  "change_jobs f d = snd (db_connection (\<lambda>c. ((), commit (on_jobs f c))) d)"

text \<open>The text of an exception, \<open>str(exc)\<close>, is the interpreter's or the library's.\<close>

definition run_geom_update_job ::
  "(exn \<Rightarrow> pystr) \<Rightarrow> 'w geom_client \<Rightarrow> pyfloat \<Rightarrow> pystr \<Rightarrow> pystr \<Rightarrow> int \<Rightarrow> int \<Rightarrow> 'w \<Rightarrow> database \<Rightarrow>
   ((int \<times> int) result \<times> 'w) \<times> database" where
  "run_geom_update_job str_of_exn client backoff_s ts1 ts2 i max_retries w d =
     (let d = change_jobs (mark_geom_job_running i ts1) d;
          ((r, w), d) = update_geoms client backoff_s max_retries w d
      in case r of
           Inr (updated, failed) \<Rightarrow> ((r, w), change_jobs (mark_geom_job_done i updated failed ts2) d)
         | Inl e \<Rightarrow> ((r, w), change_jobs (mark_geom_job_failed i 0 0 (take 2000 (str_of_exn e)) ts2) d))"

record GeomRefreshStartResult =
  refresh_success :: bool
  refresh_job_id :: int
  refresh_started :: bool
  refresh_message :: pystr

definition find_active_job :: "database \<Rightarrow> job option" where
  "find_active_job d = fst (db_connection (\<lambda>c. (fetch_latest_active_geom_job (jobs (work c)), c)) d)"

definition start_geom_refresh_job ::
  "bool \<Rightarrow> pystr \<Rightarrow> database \<Rightarrow> GeomRefreshStartResult result \<times> database" where
  "start_geom_refresh_job csrf_ok ts d =
     (if \<not> csrf_ok then (Inl (AuthError 403 msg_csrf_failed), d)
      else case find_active_job d of
        Some active_job \<Rightarrow>
          (Inr \<lparr>refresh_success = True, refresh_job_id = job_id active_job, refresh_started = False,
                refresh_message = msg_job_active\<rparr>, d)
      | None \<Rightarrow>
          let (i, d) = enqueue_geom_update_job ts d
          in (Inr \<lparr>refresh_success = True, refresh_job_id = i, refresh_started = True,
                   refresh_message = msg_job_started\<rparr>, d))"

definition status_text :: "job_status \<Rightarrow> pystr" where
  "status_text s =
     (case s of Pending \<Rightarrow> asc ''pending'' | Running \<Rightarrow> asc ''running'' | Done \<Rightarrow> asc ''done'' | Failed \<Rightarrow> asc ''failed'')"

definition get_geom_refresh_job_status :: "int \<Rightarrow> database \<Rightarrow> payload result" where
  "get_geom_refresh_job_status i d =
     (case fetch_geom_job i (jobs d) of
        None \<Rightarrow> Inl (NotFoundError 404 msg_job_not_found)
      | Some j \<Rightarrow> Inr
          [(asc ''id'', JInt (job_id j)), (asc ''status'', JStr (status_text (status j))),
           (asc ''attempts'', JInt (job_attempts j)), (asc ''updatedCount'', JInt (updated_count j)),
           (asc ''failedCount'', JInt (failed_count j)),
           (asc ''errorMessage'', JStr (case error_message j of None \<Rightarrow> [] | Some m \<Rightarrow> m)),
           (asc ''createdAt'', JStr (created_at j)), (asc ''updatedAt'', JStr (updated_at j))])"

section \<open>What a scan does to the table\<close>

text \<open>\<open>t'\<close> is \<open>t\<close> with the boundaries of some parcels that had none.\<close>

definition filled :: "land \<Rightarrow> land \<Rightarrow> bool" where
  "filled r r' \<longleftrightarrow> r' = r \<or> (geom r = None \<and> (\<exists>g. g \<noteq> [] \<and> r' = r\<lparr>geom := Some g\<rparr>))"

definition fills :: "poi_table \<Rightarrow> poi_table \<Rightarrow> bool" where
  "fills t t' \<longleftrightarrow> poi_seq t' = poi_seq t \<and> list_all2 filled (poi_rows t) (poi_rows t')"

lemma filled_trans: "filled r1 r2 \<Longrightarrow> filled r2 r3 \<Longrightarrow> filled r1 r3"
  by (auto simp: filled_def)

lemma fills_refl [intro]: "fills t t"
  by (simp add: fills_def filled_def list.rel_refl)

lemma fills_trans:
  assumes "fills t1 t2" "fills t2 t3"
  shows "fills t1 t3"
proof -
  have "list_all2 filled (poi_rows t1) (poi_rows t3)"
    by (rule list_all2_trans [of filled filled filled "poi_rows t1" "poi_rows t2"])
       (erule (1) filled_trans, use assms in \<open>simp_all add: fills_def\<close>)
  with assms show ?thesis by (simp add: fills_def)
qed

lemma missing_update_geom:
  "missing_rows (update_geom i g t) = filter (\<lambda>r. fst r \<noteq> i) (missing_rows t)"
proof -
  have "map (\<lambda>r. (land_id r, address r)) (filter (\<lambda>r. geom r = None)
          (map (\<lambda>r. if land_id r = i then r\<lparr>geom := Some g\<rparr> else r) rs)) =
        filter (\<lambda>r. fst r \<noteq> i) (map (\<lambda>r. (land_id r, address r)) (filter (\<lambda>r. geom r = None) rs))" for rs
    by (induction rs) auto
  then show ?thesis by (simp add: missing_rows_def update_geom_def)
qed

lemma missing_distinct: "poi_ok t \<Longrightarrow> distinct (map fst (missing_rows t))"
proof -
  assume "poi_ok t"
  then have "sorted_wrt (\<lambda>r s. fst r < fst s) (missing_rows t)" by (rule missing_pages.rows_sorted)
  then have "sorted_wrt (<) (map fst (missing_rows t))" by (simp add: sorted_wrt_map)
  then show ?thesis by (simp add: strict_sorted_iff)
qed

lemma length_filter_key:
  "distinct (map fst xs) \<Longrightarrow> i \<in> fst ` set xs \<Longrightarrow> length (filter (\<lambda>r. fst r \<noteq> i) xs) + 1 = length xs"
proof (induction xs)
  case (Cons x xs)
  show ?case
  proof (cases "fst x = i")
    case True
    with Cons.prems(1) have "i \<notin> fst ` set xs" by auto
    then have "filter (\<lambda>r. fst r \<noteq> i) xs = xs" by (intro filter_True) (auto simp: image_iff)
    with True show ?thesis by simp
  qed (use Cons in auto)
qed simp

lemma count_missing_rows: "count_missing_geom t = int (length (missing_rows t))"
  by (simp add: count_missing_geom_def missing_rows_def)

lemma missing_unique:
  assumes "poi_ok t" "(i, a) \<in> set (missing_rows t)" "r \<in> set (poi_rows t)" "land_id r = i"
  shows "geom r = None \<and> address r = a"
proof -
  obtain r0 where r0: "r0 \<in> set (poi_rows t)" "land_id r0 = i" "geom r0 = None" "address r0 = a"
    using assms(2) by (auto simp: missing_rows_def)
  have "distinct (map land_id (poi_rows t))"
    using assms(1) by (simp add: poi_ok_def sorted_wrt_map [symmetric] strict_sorted_iff)
  then have "r = r0" using assms(3,4) r0 by (metis distinct_map inj_on_contraD)
  with r0 show ?thesis by simp
qed

lemma fills_update_geom:
  assumes "poi_ok t" "(i, a) \<in> set (missing_rows t)" "g \<noteq> []"
  shows "fills t (update_geom i g t)"
proof -
  have none: "geom r = None" if "r \<in> set (poi_rows t)" "land_id r = i" for r
    using missing_unique [OF assms(1,2) that] by simp
  have "list_all2 filled rs
          (map (\<lambda>r. if land_id r = i then r\<lparr>geom := Some g\<rparr> else r) rs)" if "set rs \<subseteq> set (poi_rows t)" for rs
    using that none assms(3) by (induction rs) (auto simp: filled_def)
  then show ?thesis by (simp add: fills_def update_geom_def)
qed

text \<open>
  Every stretch of the loop keeps the connection committed and the jobs, fills boundaries, and
  keeps the sum of \<open>updated_count\<close> and the boundaries still missing.
\<close>

definition scan_ok :: "'w scan \<Rightarrow> 'w scan \<Rightarrow> bool" where
  "scan_ok s s' \<longleftrightarrow>
     disk (sc_conn s') = work (sc_conn s') \<and> jobs (work (sc_conn s')) = jobs (work (sc_conn s)) \<and>
     poi_ok (scan_poi s') \<and> fills (scan_poi s) (scan_poi s') \<and>
     sc_updated s' + count_missing_geom (scan_poi s') = sc_updated s + count_missing_geom (scan_poi s) \<and>
     set (missing_rows (scan_poi s')) \<subseteq> set (missing_rows (scan_poi s))"

definition scan_start :: "'w scan \<Rightarrow> bool" where
  "scan_start s \<longleftrightarrow> disk (sc_conn s) = work (sc_conn s) \<and> poi_ok (scan_poi s)"

lemma scan_ok_refl: "scan_start s \<Longrightarrow> scan_ok s s"
  by (auto simp: scan_ok_def scan_start_def)

lemma scan_ok_trans: "scan_ok s1 s2 \<Longrightarrow> scan_ok s2 s3 \<Longrightarrow> scan_ok s1 s3"
  unfolding scan_ok_def using fills_trans by auto

lemma scan_ok_start: "scan_ok s s' \<Longrightarrow> scan_start s'"
  by (simp add: scan_ok_def scan_start_def)

lemma scan_ok_after [simp]: "scan_ok (s\<lparr>sc_after := a\<rparr>) s' = scan_ok s s'" "scan_start (s\<lparr>sc_after := a\<rparr>) = scan_start s"
  by (simp_all add: scan_ok_def scan_start_def)

text \<open>What an item leaves missing: everything but itself.\<close>

lemma geom_item_ok:
  assumes start: "scan_start s" and mem: "(i, a) \<in> set (missing_rows (scan_poi s))"
  shows "scan_ok s (snd (geom_item client b k (i, a) s)) \<and>
         missing_rows (scan_poi (snd (geom_item client b k (i, a) s))) \<in>
           {missing_rows (scan_poi s), filter (\<lambda>r. fst r \<noteq> i) (missing_rows (scan_poi s))}"
proof -
  let ?M = "missing_rows (scan_poi s)"
  have ok: "poi_ok (scan_poi s)" and sync: "disk (sc_conn s) = work (sc_conn s)"
    using start by (simp_all add: scan_start_def)
  have "int (length (filter (\<lambda>r. fst r \<noteq> i) ?M)) + 1 = int (length ?M)"
    using length_filter_key [OF missing_distinct [OF ok], of i] mem by force
  then have upd: "scan_ok s s'"
    if "sc_conn s' = commit (on_poi (update_geom i g) (sc_conn s))" "sc_updated s' = sc_updated s + 1" "g \<noteq> []"
    for s' :: "'a scan" and g
    using that ok fills_update_geom [OF ok mem, of g]
    by (simp add: scan_ok_def on_poi_def poi_ok_update_geom count_missing_rows missing_update_geom)
  have same: "scan_ok s s'" if "sc_conn s' = sc_conn s" "sc_updated s' = sc_updated s" for s' :: "'a scan"
    using that ok sync by (auto simp: scan_ok_def)
  obtain r w where c: "client (sc_world s) a = (r, w)" by fastforce
  show ?thesis
  proof (cases "\<exists>g. r = Inr (Some g) \<and> g \<noteq> []")
    case True
    then obtain g where g: "r = Inr (Some g)" "g \<noteq> []" by blast
    then show ?thesis
      using upd [OF _ _ g(2)] by (simp add: geom_item_def c on_poi_def missing_update_geom)
  next
    case False
    then have "sc_conn (snd (geom_item client b k (i, a) s)) = sc_conn s"
      and "sc_updated (snd (geom_item client b k (i, a) s)) = sc_updated s"
      by (auto simp: geom_item_def c Let_def split: sum.split)
    then show ?thesis using same by simp
  qed
qed

text \<open>A batch of missing rows, each once: it leaves the rows behind its last one as they are.\<close>

lemma geom_batch_ok:
  assumes "scan_start s" "set xs \<subseteq> set (missing_rows (scan_poi s))" "distinct (map fst xs)"
  shows "scan_ok s (snd (geom_batch client b k xs s)) \<and>
         (\<forall>P. (\<forall>x \<in> set xs. \<not> P (fst x)) \<longrightarrow>
            filter (\<lambda>r. P (fst r)) (missing_rows (scan_poi (snd (geom_batch client b k xs s)))) =
            filter (\<lambda>r. P (fst r)) (missing_rows (scan_poi s)))"
  using assms
proof (induction xs arbitrary: s)
  case Nil
  then show ?case by (simp add: scan_ok_refl)
next
  case (Cons x xs)
  obtain i a where x: "x = (i, a)" by fastforce
  obtain r s1 where it: "geom_item client b k (i, a) s = (r, s1)" by fastforce
  have one: "scan_ok s s1" "missing_rows (scan_poi s1) \<in>
      {missing_rows (scan_poi s), filter (\<lambda>r. fst r \<noteq> i) (missing_rows (scan_poi s))}"
    using geom_item_ok [of s i a client b k] Cons.prems it by (simp_all add: x)
  have keep: "filter (\<lambda>r. P (fst r)) (missing_rows (scan_poi s1)) = filter (\<lambda>r. P (fst r)) (missing_rows (scan_poi s))"
    if "\<not> P i" for P
  proof -
    have "(fst r \<noteq> i \<and> P (fst r)) = P (fst r)" for r :: "int \<times> pystr" using that by auto
    with one(2) show ?thesis by auto
  qed
  show ?case
  proof (cases r)
    case (Inl e)
    with it one keep show ?thesis by (simp add: x)
  next
    case (Inr u)
    have "y \<in> set (missing_rows (scan_poi s1))" if "y \<in> set xs" for y
    proof -
      have "y \<in> set (missing_rows (scan_poi s))" "fst y \<noteq> i"
        using that Cons.prems(2,3) by (auto simp: x image_iff)
      with one(2) show ?thesis by auto
    qed
    then have "set xs \<subseteq> set (missing_rows (scan_poi s1))" by blast
    with Cons.IH [of s1] one(1) Cons.prems(3)
    have "scan_ok s1 (snd (geom_batch client b k xs s1)) \<and>
         (\<forall>P. (\<forall>x \<in> set xs. \<not> P (fst x)) \<longrightarrow>
            filter (\<lambda>r. P (fst r)) (missing_rows (scan_poi (snd (geom_batch client b k xs s1)))) =
            filter (\<lambda>r. P (fst r)) (missing_rows (scan_poi s1)))"
      by (simp add: scan_ok_start)
    with one(1) keep Inr it show ?thesis by (auto simp: x intro: scan_ok_trans)
  qed
qed

lemma geom_batch_append:
  "geom_batch client b k (xs @ ys) s =
     (case geom_batch client b k xs s of (Inl e, s) \<Rightarrow> (Inl e, s) | (Inr _, s) \<Rightarrow> geom_batch client b k ys s)"
  by (induction xs arbitrary: s) (auto split: sum.splits prod.splits)

text \<open>The rows a scan still has ahead of it, in the order it asks for them.\<close>

definition ahead :: "'w scan \<Rightarrow> (int \<times> pystr) list" where
  "ahead s = filter (\<lambda>r. sc_after s < fst r) (missing_rows (scan_poi s))"

lemma ahead_facts:
  assumes "scan_start s"
  shows "set (ahead s) \<subseteq> set (missing_rows (scan_poi s))" "distinct (map fst (ahead s))"
  using missing_distinct [of "scan_poi s"] assms
  by (auto simp: ahead_def scan_start_def distinct_map_filter)

lemma batch_of_ahead:
  "scan_start s \<Longrightarrow> fetch_missing_geom (scan_poi s) (Some GEOM_BATCH_SIZE) (sc_after s) = take 50 (ahead s)"
  using missing_page_eq [of "scan_poi s" 50 "sc_after s"]
  by (simp add: GEOM_BATCH_SIZE_def ahead_def scan_start_def)

text \<open>After a page that came through, what is ahead is what was ahead behind the page.\<close>

lemma last_is_greatest:
  assumes "sorted_wrt (\<lambda>r s. fst r < fst s) xs" "x \<in> set xs"
  shows "\<not> fst (last xs) < (fst x :: int)"
  using assms
proof (induction xs)
  case (Cons y ys)
  show ?case
  proof (cases "ys = []")
    case False
    then have lt: "fst y < fst (last ys)" using Cons.prems(1) by simp
    show ?thesis
    proof (cases "x = y")
      case True
      with lt False show ?thesis by simp
    qed (use Cons False in simp)
  qed (use Cons.prems in simp)
qed simp

lemma page_run_ok:
  assumes "scan_start s" "geom_batch client b k (take 50 (ahead s)) s = (r, s1)"
  shows "scan_ok s s1"
    and "\<forall>P. (\<forall>x \<in> set (take 50 (ahead s)). \<not> P (fst x)) \<longrightarrow>
       filter (\<lambda>r. P (fst r)) (missing_rows (scan_poi s1)) = filter (\<lambda>r. P (fst r)) (missing_rows (scan_poi s))"
  using geom_batch_ok [of s "take 50 (ahead s)" client b k] ahead_facts [OF assms(1)] assms
  by (auto simp: distinct_take take_map [symmetric] dest: in_set_takeD)

lemma ahead_after_page:
  assumes "scan_start s" "ahead s \<noteq> []" "geom_batch client b k (take 50 (ahead s)) s = (Inr u, s1)"
  shows "ahead s = take 50 (ahead s) @ ahead s1"
proof -
  let ?xs = "take 50 (ahead s)"
  have ne: "?xs \<noteq> []" using assms(2) by simp
  have ok: "poi_ok (scan_poi s)" using assms(1) by (simp add: scan_start_def)
  have af: "sc_after s1 = fst (last ?xs)" using geom_batch_after [OF assms(3)] ne by simp
  have pg: "fetch_missing_geom (scan_poi s) (Some (int 50)) (sc_after s) = ?xs"
    using batch_of_ahead [OF assms(1)] by (simp add: GEOM_BATCH_SIZE_def)
  have "sorted_wrt (\<lambda>r s. fst r < fst s) (ahead s)"
    using missing_pages.rows_sorted [OF ok] by (simp add: ahead_def sorted_wrt_filter)
  then have "\<not> fst (last ?xs) < fst x" if "x \<in> set ?xs" for x
    using that by (intro last_is_greatest) (simp_all add: sorted_wrt_take)
  then have "ahead s1 = filter (\<lambda>r. fst (last ?xs) < fst r) (missing_rows (scan_poi s))"
    using page_run_ok(2) [OF assms(1,3), rule_format, of "\<lambda>i. fst (last ?xs) < i"] by (simp add: ahead_def af)
  then show ?thesis
    using missing_pages.page_split [OF ok, of "sc_after s" 50] ne unfolding pg ahead_def [symmetric] by simp
qed

lemma geom_scan_batch:
  "scan_start s \<Longrightarrow> geom_scan client b k s = geom_batch client b k (ahead s) s"
proof (induction client b k s rule: geom_scan.induct)
  case (1 client b k s)
  let ?xs = "take 50 (ahead s)"
  note unroll = geom_scan.simps [of client b k s] batch_of_ahead [OF "1.prems"]
  obtain r s1 where run: "geom_batch client b k ?xs s = (r, s1)" by fastforce
  consider "ahead s = []" | e where "ahead s \<noteq> []" "r = Inl e" | u where "ahead s \<noteq> []" "r = Inr u"
    by (cases r) auto
  then show ?case
  proof cases
    case 1
    then show ?thesis by (simp add: unroll)
  next
    case 2
    have "geom_batch client b k (?xs @ drop 50 (ahead s)) s = (Inl e, s1)"
      unfolding geom_batch_append run using 2 by simp
    with 2 run show ?thesis by (simp add: unroll)
  next
    case 3
    note split = ahead_after_page [OF "1.prems" 3(1) run [unfolded 3(2)]]
    have "geom_scan client b k s = geom_scan client b k s1" using run 3 by (simp add: unroll)
    also have "\<dots> = geom_batch client b k (ahead s1) s1"
      by (rule "1.IH" [OF refl _ _ 3(2)])
        (use run 3 page_run_ok(1) [OF "1.prems" run] in \<open>auto simp: batch_of_ahead [OF "1.prems"] scan_ok_start\<close>)
    also have "\<dots> = geom_batch client b k (?xs @ ahead s1) s"
      unfolding geom_batch_append run using 3 by simp
    finally show ?thesis using split by simp
  qed
qed

lemma geom_scan_ok: "scan_start s \<Longrightarrow> scan_ok s (snd (geom_scan client b k s))"
  using geom_batch_ok [of s "ahead s" client b k] ahead_facts [of s] by (simp add: geom_scan_batch)

lemma geom_attempts_ok: "scan_start s \<Longrightarrow> scan_ok s (snd (geom_attempts client b ks s))"
proof (induction ks arbitrary: s)
  case (Cons k ks)
  obtain r s1 where run: "geom_scan client b k (s\<lparr>sc_after := 0\<rparr>) = (r, s1)" by fastforce
  have ok: "scan_ok s s1"
    using geom_scan_ok [of "s\<lparr>sc_after := 0\<rparr>" client b k] Cons.prems run by simp
  then have "scan_ok s1 (snd (geom_attempts client b ks s1))" by (intro Cons.IH scan_ok_start)
  with ok run show ?case by (auto split: sum.split intro: scan_ok_trans)
qed (simp add: scan_ok_refl)

text \<open>The outcome of \<open>update_geoms\<close> on a database, whatever the client does.\<close>

lemma update_geoms_ok:
  assumes "poi_ok (poi d)" "update_geoms client b m w d = ((r, w'), d')"
  shows "fills (poi d) (poi d') \<and> poi_ok (poi d') \<and> jobs d' = jobs d \<and>
    (\<forall>u f. r = Inr (u, f) \<longrightarrow> f = count_missing_geom (poi d') \<and> u + f = count_missing_geom (poi d))"
proof -
  let ?s = "\<lparr>sc_conn = \<lparr>work = d, disk = d\<rparr>, sc_after = 0, sc_updated = 0, sc_world = w\<rparr>"
  have "scan_start ?s" using assms(1) by (simp add: scan_start_def)
  then have "scan_ok ?s (snd (geom_attempts client b [1..m] ?s))" by (rule geom_attempts_ok)
  moreover obtain r' s' where "geom_attempts client b [1..m] ?s = (r', s')" by fastforce
  ultimately show ?thesis
    using assms(2) by (auto simp: update_geoms_def db_connection_def scan_ok_def bindR_Inr_iff)
qed

section \<open>A client that knows its answers\<close>

definition answers :: "(pystr \<Rightarrow> pystr option) \<Rightarrow> 'w geom_client" where
  "answers ans w a = (Inr (ans a), w)"

definition answered :: "(pystr \<Rightarrow> pystr option) \<Rightarrow> poi_table \<Rightarrow> poi_table" where
  "answered ans t =
     t\<lparr>poi_rows := map (\<lambda>r. if geom r = None then r\<lparr>geom := ans (address r)\<rparr> else r) (poi_rows t)\<rparr>"

lemma answered_idem [simp]: "answered ans (answered ans t) = answered ans t"
  by (auto simp: answered_def)

text \<open>The rows of \<open>xs\<close> get their answers.\<close>

definition answered_on :: "(pystr \<Rightarrow> pystr option) \<Rightarrow> (int \<times> pystr) set \<Rightarrow> poi_table \<Rightarrow> poi_table" where
  "answered_on ans X t =
     t\<lparr>poi_rows := map (\<lambda>r. if geom r = None \<and> (land_id r, address r) \<in> X
                            then r\<lparr>geom := ans (address r)\<rparr> else r) (poi_rows t)\<rparr>"

lemma answered_on_missing: "answered_on ans (set (missing_rows t)) t = answered ans t"
  by (auto simp: answered_on_def answered_def missing_rows_def intro!: arg_cong2 [of _ _ _ _ poi_rows_update] map_cong)

lemma answered_on_insert:
  "answered_on ans X (answered_on ans {(i, a)} t) = answered_on ans (insert (i, a) X) t"
proof -
  define g :: "(int \<times> pystr) set \<Rightarrow> land \<Rightarrow> land" where
    "g = (\<lambda>Y r. if geom r = None \<and> (land_id r, address r) \<in> Y then r\<lparr>geom := ans (address r)\<rparr> else r)"
  have on: "answered_on ans Y u = u\<lparr>poi_rows := map (g Y) (poi_rows u)\<rparr>" for Y u
    by (simp add: answered_on_def g_def)
  have "g X (g {(i, a)} r) = g (insert (i, a) X) r" for r
  proof (cases "geom r = None \<and> (land_id r, address r) = (i, a)")
    case True
    then have "g {(i, a)} r = r\<lparr>geom := ans (address r)\<rparr>" "g (insert (i, a) X) r = r\<lparr>geom := ans (address r)\<rparr>"
      by (simp_all add: g_def)
    moreover have "g X (r\<lparr>geom := ans (address r)\<rparr>) = r\<lparr>geom := ans (address r)\<rparr>" by (simp add: g_def)
    ultimately show ?thesis by (simp only:)
  next
    case False
    then have "g {(i, a)} r = r" "g X r = g (insert (i, a) X) r" by (auto simp: g_def)
    then show ?thesis by (simp only:)
  qed
  then have "map (g X) (map (g {(i, a)}) rs) = map (g (insert (i, a) X)) rs" for rs by simp
  then show ?thesis unfolding on by (simp del: map_map)
qed

lemma answered_on_None:
  assumes "ans a = None"
  shows "answered_on ans {(i, a)} t = t"
proof -
  have same: "geom r = None \<Longrightarrow> r\<lparr>geom := None\<rparr> = r" for r :: land by (cases r) simp
  have id: "map (\<lambda>r. if geom r = None \<and> (land_id r, address r) \<in> {(i, a)} then r\<lparr>geom := ans (address r)\<rparr> else r) rs = rs"
    for rs using assms same by (intro map_idI) auto
  show ?thesis unfolding answered_on_def id by simp
qed

lemma update_is_answer:
  assumes "poi_ok t" "(i, a) \<in> set (missing_rows t)" "ans a = Some g"
  shows "update_geom i g t = answered_on ans {(i, a)} t"
proof -
  have "(if land_id r = i then r\<lparr>geom := Some g\<rparr> else r) =
        (if geom r = None \<and> (land_id r, address r) \<in> {(i, a)} then r\<lparr>geom := ans (address r)\<rparr> else r)"
    if "r \<in> set (poi_rows t)" for r
    using missing_unique [OF assms(1,2) that] assms(3) by auto
  then show ?thesis by (simp add: update_geom_def answered_on_def cong: map_cong)
qed

lemma geom_batch_answers:
  assumes "scan_start s" "set xs \<subseteq> set (missing_rows (scan_poi s))" "distinct (map fst xs)"
    and "sleep (float_times b k) = Inr ()" "\<And>a. ans a \<noteq> Some []"
  shows "\<exists>s'. geom_batch (answers ans) b k xs s = (Inr (), s') \<and> sc_world s' = sc_world s \<and>
              scan_poi s' = answered_on ans (set xs) (scan_poi s)"
  using assms(1-3)
proof (induction xs arbitrary: s)
  case Nil
  then show ?case by (simp add: answered_on_def)
next
  case (Cons x xs)
  obtain i a where x: "x = (i, a)" by fastforce
  have mem: "(i, a) \<in> set (missing_rows (scan_poi s))" using Cons.prems(2) by (simp add: x)
  have ok: "poi_ok (scan_poi s)" using Cons.prems(1) by (simp add: scan_start_def)
  obtain s1 where it: "geom_item (answers ans) b k (i, a) s = (Inr (), s1)"
    and w: "sc_world s1 = sc_world s" and t: "scan_poi s1 = answered_on ans {(i, a)} (scan_poi s)"
  proof (cases "ans a")
    case None
    then have "answered_on ans {(i, a)} (scan_poi s) = scan_poi s" by (rule answered_on_None)
    with None that [of "s\<lparr>sc_after := i\<rparr>"] assms(4) show ?thesis
      by (simp add: geom_item_def answers_def)
  next
    case (Some g)
    with assms(5) [of a] that [of "s\<lparr>sc_after := i, sc_conn := commit (on_poi (update_geom i g) (sc_conn s)),
        sc_updated := sc_updated s + 1\<rparr>"] update_is_answer [OF ok mem, of ans g]
    show ?thesis by (simp add: geom_item_def answers_def on_poi_def)
  qed
  have one: "scan_ok s s1" "missing_rows (scan_poi s1) \<in>
      {missing_rows (scan_poi s), filter (\<lambda>r. fst r \<noteq> i) (missing_rows (scan_poi s))}"
    using geom_item_ok [OF Cons.prems(1) mem, of "answers ans" b k] it by simp_all
  have "y \<in> set (missing_rows (scan_poi s1))" if "y \<in> set xs" for y
  proof -
    have "y \<in> set (missing_rows (scan_poi s))" "fst y \<noteq> i"
      using that Cons.prems(2,3) by (auto simp: x image_iff)
    with one(2) show ?thesis by auto
  qed
  then obtain s' where s': "geom_batch (answers ans) b k xs s1 = (Inr (), s')" "sc_world s' = sc_world s1"
      "scan_poi s' = answered_on ans (set xs) (scan_poi s1)"
    using Cons.IH [OF scan_ok_start [OF one(1)]] Cons.prems(3) by (metis distinct.simps(2) list.map(2) subsetI)
  have "scan_poi s' = answered_on ans (set (x # xs)) (scan_poi s)"
    unfolding s'(3) t x by (simp add: answered_on_insert)
  with it s' w show ?case by (simp add: x)
qed

lemma geom_scan_answers:
  assumes "scan_start s" "sleep (float_times b k) = Inr ()" "\<And>a. ans a \<noteq> Some []" "\<And>r. r \<in> set (poi_rows (scan_poi s)) \<Longrightarrow> sc_after s < land_id r"
  shows "\<exists>s'. geom_scan (answers ans) b k s = (Inr (), s') \<and> sc_world s' = sc_world s \<and>
              scan_poi s' = answered ans (scan_poi s)"
proof -
  have "ahead s = missing_rows (scan_poi s)"
    unfolding ahead_def using assms(4) by (intro filter_True) (auto simp: missing_rows_def)
  then show ?thesis
    using geom_batch_answers [of s "missing_rows (scan_poi s)" b k ans] missing_distinct [of "scan_poi s"] assms(1-3)
    by (simp add: geom_scan_batch answered_on_missing scan_start_def)
qed

lemma poi_ok_pos: "poi_ok t \<Longrightarrow> r \<in> set (poi_rows t) \<Longrightarrow> 0 < land_id r"
  by (simp add: poi_ok_def)

lemma geom_attempts_answers:
  assumes "scan_start s" "\<And>k. k \<in> set ks \<Longrightarrow> sleep (float_times b k) = Inr ()" "\<And>a. ans a \<noteq> Some []" "ks \<noteq> []"
  shows "\<exists>s'. geom_attempts (answers ans) b ks s = (Inr (), s') \<and> sc_world s' = sc_world s \<and>
              scan_poi s' = answered ans (scan_poi s)"
  using assms
proof (induction ks arbitrary: s)
  case (Cons k ks)
  have "poi_ok (scan_poi s)" using Cons.prems(1) by (simp add: scan_start_def)
  then obtain s1 where s1: "geom_scan (answers ans) b k (s\<lparr>sc_after := 0\<rparr>) = (Inr (), s1)"
      "sc_world s1 = sc_world s" "scan_poi s1 = answered ans (scan_poi s)"
    using geom_scan_answers [of "s\<lparr>sc_after := 0\<rparr>" b k ans] Cons.prems by (auto simp: poi_ok_pos)
  have st: "scan_start s1"
    using geom_scan_ok [of "s\<lparr>sc_after := 0\<rparr>" "answers ans" b k] Cons.prems(1) s1(1) by (simp add: scan_ok_start)
  show ?case
  proof (cases "count_missing_geom (scan_poi s1) = 0 \<or> ks = []")
    case True
    with s1 show ?thesis by auto
  next
    case False
    with Cons.IH [OF st] Cons.prems(2,3) s1 show ?thesis by auto
  qed
qed simp

section \<open>Starting and recovering jobs\<close>

definition active_jobs :: "database \<Rightarrow> job list" where
  "active_jobs d = filter is_active (job_rows (jobs d))"

lemma active_created:
  "filter is_active (job_rows (snd (create_geom_update_job ts t))) =
     filter is_active (job_rows t) @
     [\<lparr>job_id = job_seq t + 1, status = Pending, job_attempts = 0, updated_count = 0, failed_count = 0,
       error_message = None, created_at = ts, updated_at = ts\<rparr>]"
  by (simp add: create_geom_update_job_def is_active_def)

lemma enqueue_eq:
  "enqueue_geom_update_job ts d = (job_seq (jobs d) + 1, d\<lparr>jobs := snd (create_geom_update_job ts (jobs d))\<rparr>)"
  by (simp add: enqueue_geom_update_job_def db_connection_def on_jobs_def create_geom_update_job_def)

lemma find_active_job_None: "find_active_job d = None \<longleftrightarrow> active_jobs d = []"
  by (simp add: find_active_job_def db_connection_def fetch_latest_active_iff active_jobs_def filter_empty_conv)

lemma find_active_job_Some:
  "find_active_job d = Some j \<Longrightarrow> j \<in> set (active_jobs d) \<and> (\<forall>j' \<in> set (active_jobs d). job_id j' \<le> job_id j)"
proof -
  assume "find_active_job d = Some j"
  then obtain js where js: "rev (sort_key job_id (active_jobs d)) = j # js"
    by (auto simp: find_active_job_def db_connection_def fetch_latest_active_geom_job_def active_jobs_def
        split: list.splits)
  then have srt: "sort_key job_id (active_jobs d) = rev js @ [j]" by (metis rev.simps(2) rev_rev_ident)
  then have "set (active_jobs d) = insert j (set js)" by (metis insert_def list.simps(15) set_append set_rev set_sort
      Un_insert_right empty_set sup_bot.right_neutral)
  moreover have "sorted (map job_id (rev js @ [j]))" using srt by (metis sorted_sort_key)
  then have "\<forall>j' \<in> set js. job_id j' \<le> job_id j" by (simp add: sorted_append)
  ultimately show ?thesis by simp
qed

text \<open>No job is active after the stale ones are marked.\<close>

lemma no_active_marked:
  "filter is_active (job_rows (snd (mark_stale_geom_jobs_interrupted ts t))) = []"
  by (auto simp: mark_stale_geom_jobs_interrupted_def update_jobs_def filter_empty_conv is_active_def)

lemma marked_finished:
  "fetch_geom_job i t = Some j \<Longrightarrow> \<not> is_active j \<Longrightarrow>
   fetch_geom_job i (snd (mark_stale_geom_jobs_interrupted ts t)) = Some j"
  by (simp add: mark_stale_geom_jobs_interrupted_def find_update_jobs)

text \<open>
  Two requests that both look for an active job before either creates its own each create one:
  the check and the insertion are on different connections.
\<close>

lemma refresh_race:
  assumes "find_active_job d = None"
  shows "length (active_jobs (snd (enqueue_geom_update_job ts (snd (enqueue_geom_update_job ts d))))) = 2"
  using assms by (simp add: enqueue_eq find_active_job_None active_jobs_def active_created)

section \<open>Examples\<close>

definition sample_db :: database where
  "sample_db =
     \<lparr>poi = insert_land (asc ''b'') [] (Fin 1) [] [] [] None (insert_land (asc ''a'') [] (Fin 1) [] [] [] None empty_poi),
      jobs = snd (create_geom_update_job [48] empty_jobs)\<rparr>"

definition sample_answers :: "pystr \<Rightarrow> pystr option" where
  "sample_answers a = (if a = asc ''a'' then Some (asc ''{}'') else None)"

definition offline_client :: "unit geom_client" where
  "offline_client w a = (Inl ConnectionErr, w)"

lemma sample_db_ok: "poi_ok (poi sample_db)" "jobs_ok (jobs sample_db)"
  by (simp_all add: sample_db_def poi_ok_insert_land poi_ok_empty jobs_ok_create jobs_ok_empty)

section \<open>Properties\<close>

text \<open>
  C7. Reading the missing boundaries in pages of \<open>GEOM_BATCH_SIZE\<close> while filling them asks for
  exactly the rows that were missing when the attempt began, each once and in identifier order:
  the paged loop is one pass over that list.
\<close>

theorem scan_is_one_pass:
  assumes "disk (sc_conn s) = work (sc_conn s)" and "poi_ok (scan_poi s)"
  shows "geom_scan client backoff_s attempt s =
         geom_batch client backoff_s attempt
           (filter (\<lambda>(i, _). sc_after s < i) (missing_rows (scan_poi s))) s"
  using geom_scan_batch [of s] assms by (simp add: scan_start_def ahead_def case_prod_beta')

lemma scan_is_one_pass_witness:
  "let s = \<lparr>sc_conn = \<lparr>work = sample_db, disk = sample_db\<rparr>, sc_after = 0, sc_updated = 0, sc_world = ()\<rparr>
   in geom_scan (answers sample_answers) (Fin 0) 1 s =
      geom_batch (answers sample_answers) (Fin 0) 1 [(1, asc ''a''), (2, asc ''b'')] s"
proof -
  let ?s = "\<lparr>sc_conn = \<lparr>work = sample_db, disk = sample_db\<rparr>, sc_after = 0, sc_updated = 0, sc_world = ()\<rparr>"
  have "filter (\<lambda>(i, _). 0 < i) (missing_rows (poi sample_db)) = [(1, asc ''a''), (2, asc ''b'')]" by code_simp
  then show ?thesis
    using scan_is_one_pass [of ?s "answers sample_answers" "Fin 0" 1] sample_db_ok(1) by simp
qed

text \<open>
  C17. Whatever the client answers and wherever it fails, \<open>update_geoms\<close> only gives boundaries to
  parcels that had none, leaves every other field, row and job as it was, and returns counts that
  add up: the updated and the failed are the boundaries missing at the start, and the failed are
  those missing at the end.
\<close>

theorem update_geoms_safe:
  assumes "poi_ok (poi d)"
  shows "case update_geoms client backoff_s max_retries w d of ((r, _), d') \<Rightarrow>
    fills (poi d) (poi d') \<and> jobs d' = jobs d \<and> poi_ok (poi d') \<and>
    (case r of Inl _ \<Rightarrow> True
     | Inr (updated, failed) \<Rightarrow>
         failed = count_missing_geom (poi d') \<and> updated + failed = count_missing_geom (poi d))"
  using update_geoms_ok [OF assms, of client backoff_s max_retries w]
  by (auto split: prod.splits sum.splits)

lemma update_geoms_safe_witness:
  "case update_geoms offline_client (Fin 0) 2 () sample_db of ((r, _), d') \<Rightarrow>
    fills (poi sample_db) (poi d') \<and> jobs d' = jobs sample_db \<and> poi_ok (poi d') \<and>
    (case r of Inl _ \<Rightarrow> True
     | Inr (updated, failed) \<Rightarrow>
         failed = count_missing_geom (poi d') \<and> updated + failed = count_missing_geom (poi sample_db))"
  by (rule update_geoms_safe [OF sample_db_ok(1)])

text \<open>
  C18. With a client that knows its answers, one run returns and gives every missing parcel with
  an answer that answer, and the counts are those of the table.
\<close>

theorem update_geoms_complete:
  assumes "poi_ok (poi d)" and "0 < max_retries" and "\<And>a. ans a \<noteq> Some []"
    and "\<And>k. 0 < k \<Longrightarrow> k \<le> max_retries \<Longrightarrow> sleep (float_times backoff_s k) = Inr ()"
  shows "update_geoms (answers ans) backoff_s max_retries w d =
    ((Inr (count_missing_geom (poi d) - count_missing_geom (answered ans (poi d)),
           count_missing_geom (answered ans (poi d))), w),
     d\<lparr>poi := answered ans (poi d)\<rparr>)"
proof -
  let ?s = "\<lparr>sc_conn = \<lparr>work = d, disk = d\<rparr>, sc_after = 0, sc_updated = 0, sc_world = w\<rparr>"
  have st: "scan_start ?s" using assms(1) by (simp add: scan_start_def)
  obtain s' where s': "geom_attempts (answers ans) backoff_s [1..max_retries] ?s = (Inr (), s')"
      "sc_world s' = w" "scan_poi s' = answered ans (poi d)"
    using geom_attempts_answers [OF st, of "[1..max_retries]" backoff_s ans] assms(2-4) by auto
  have "scan_ok ?s s'"
    using geom_attempts_ok [OF st, of "answers ans" backoff_s "[1..max_retries]"] s'(1) by simp
  then have "work (sc_conn s') = d\<lparr>poi := answered ans (poi d)\<rparr>" "disk (sc_conn s') = work (sc_conn s')"
      "sc_updated s' = count_missing_geom (poi d) - count_missing_geom (answered ans (poi d))"
    using s'(3) by (auto simp: scan_ok_def intro!: database.equality)
  with s' show ?thesis by (simp add: update_geoms_def db_connection_def)
qed

lemma update_geoms_complete_witness:
  "update_geoms (answers sample_answers) (Fin 0) 2 () sample_db =
     ((Inr (1, 1), ()), sample_db\<lparr>poi := answered sample_answers (poi sample_db)\<rparr>)"
proof -
  have "sleep (float_times (Fin 0) k) = Inr ()" for k by (simp add: float_times_def sleep_def)
  moreover have "count_missing_geom (poi sample_db) = 2"
    and "count_missing_geom (answered sample_answers (poi sample_db)) = 1" by code_simp+
  ultimately show ?thesis
    using update_geoms_complete [of sample_db 2 sample_answers "Fin 0" "()"] sample_db_ok(1)
    by (simp add: sample_answers_def)
qed

text \<open>
  C19. A run of a job always ends it: \<open>done\<close> with the counts it returns, or, if the client
  raises, \<open>failed\<close> with the exception's text (and counts of zero, whatever was stored), one attempt
  more; no other job changes.
\<close>

theorem run_job_settles:
  assumes "poi_ok (poi d)" and "fetch_geom_job i (jobs d) = Some j"
    and "run_geom_update_job str_of_exn client backoff_s ts1 ts2 i max_retries w d = ((r, w'), d')"
  shows "fetch_geom_job i (jobs d') = Some
      (case r of
         Inr (updated, failed) \<Rightarrow>
           j\<lparr>status := Done, job_attempts := job_attempts j + 1, updated_count := updated, failed_count := failed,
             error_message := None, updated_at := ts2\<rparr>
       | Inl e \<Rightarrow>
           j\<lparr>status := Failed, job_attempts := job_attempts j + 1, updated_count := 0, failed_count := 0,
             error_message := Some (take 2000 (str_of_exn e)), updated_at := ts2\<rparr>) \<and>
    (\<forall>i'. i' \<noteq> i \<longrightarrow> fetch_geom_job i' (jobs d') = fetch_geom_job i' (jobs d)) \<and>
    fills (poi d) (poi d')"
proof -
  let ?d = "change_jobs (mark_geom_job_running i ts1) d"
  have d: "poi ?d = poi d" "jobs ?d = mark_geom_job_running i ts1 (jobs d)"
    by (simp_all add: change_jobs_def db_connection_def on_jobs_def)
  obtain r0 w0 d0 where u: "update_geoms client backoff_s max_retries w ?d = ((r0, w0), d0)"
    by (metis prod.collapse)
  have u': "fills (poi d) (poi d0)" "jobs d0 = mark_geom_job_running i ts1 (jobs d)"
    using update_geoms_ok [OF _ u] assms(1) d by simp_all
  show ?thesis
  proof (cases r0)
    case (Inl e)
    with assms(2,3) u u' show ?thesis
      by (auto simp: run_geom_update_job_def change_jobs_def db_connection_def on_jobs_def fetch_marked option.map_ident)
  next
    case (Inr p)
    with assms(2,3) u u' show ?thesis
      by (cases p) (auto simp: run_geom_update_job_def change_jobs_def db_connection_def on_jobs_def fetch_marked option.map_ident)
  qed
qed

lemma run_job_settles_witness:
  "\<exists>d'. run_geom_update_job (\<lambda>_. asc ''offline'') offline_client (Fin 0) [49] [50] 1 5 () sample_db =
          ((Inl ConnectionErr, ()), d') \<and>
        map_option status (fetch_geom_job 1 (jobs d')) = Some Failed \<and> fills (poi sample_db) (poi d')"
proof -
  obtain j where j: "fetch_geom_job 1 (jobs sample_db) = Some j"
    by (simp add: sample_db_def create_geom_update_job_def empty_jobs_def fetch_geom_job_def)
  let ?r = "run_geom_update_job (\<lambda>_. asc ''offline'') offline_client (Fin 0) [49] [50] 1 5 () sample_db"
  have "fst ?r = (Inl ConnectionErr, ())" by code_simp
  then obtain d' where d': "?r = ((Inl ConnectionErr, ()), d')" by (cases ?r) auto
  from run_job_settles [OF sample_db_ok(1) j d'] d' show ?thesis by auto
qed

text \<open>
  A refresh request never starts a second job: if a job is active it reports the latest one
  and changes nothing, otherwise it creates a pending job, the only active one; a forged request
  is refused and changes nothing.
\<close>

theorem start_refresh_outcome:
  "case start_geom_refresh_job csrf_ok ts d of (r, d') \<Rightarrow>
     if \<not> csrf_ok then r = Inl (AuthError 403 msg_csrf_failed) \<and> d' = d
     else \<exists>res. r = Inr res \<and> refresh_started res = (active_jobs d = []) \<and>
       (if active_jobs d = []
        then map job_id (active_jobs d') = [refresh_job_id res] \<and> refresh_job_id res = job_seq (jobs d) + 1
        else d' = d \<and> refresh_job_id res \<in> job_id ` set (active_jobs d) \<and>
             (\<forall>j \<in> set (active_jobs d). job_id j \<le> refresh_job_id res))"
proof (cases "find_active_job d")
  case None
  then have "active_jobs d = []" by (simp add: find_active_job_None)
  with None show ?thesis
    by (simp add: start_geom_refresh_job_def enqueue_eq active_jobs_def active_created)
next
  case (Some j)
  then have "active_jobs d \<noteq> []" using find_active_job_None [of d] by auto
  with Some find_active_job_Some [OF Some] show ?thesis by (simp add: start_geom_refresh_job_def)
qed

theorem start_refresh_outcome_witness:
  "\<exists>res d'. start_geom_refresh_job True [48] \<lparr>poi = poi sample_db, jobs = empty_jobs\<rparr> = (Inr res, d') \<and>
    refresh_started res \<and> map job_id (active_jobs d') = [refresh_job_id res] \<and> refresh_job_id res = 1"
proof -
  let ?d = "\<lparr>poi = poi sample_db, jobs = empty_jobs\<rparr>"
  obtain r d' where run: "start_geom_refresh_job True [48] ?d = (r, d')" by fastforce
  have "active_jobs ?d = []" "job_seq (jobs ?d) + 1 = 1" by (simp_all add: active_jobs_def empty_jobs_def)
  then show ?thesis using start_refresh_outcome [where csrf_ok = True and ts = "[48]" and d = ?d] run by auto
qed

text \<open>
  Recovery at startup: every job a restart interrupted is failed, no finished job changes, and
  a new pending job is created, the only active one, exactly when there were interrupted jobs and
  boundaries are missing.
\<close>

theorem recovery_settles_jobs:
  assumes "jobs_ok (jobs d)"
  shows "case recover_interrupted_geom_jobs ts d of (r, d') \<Rightarrow>
    poi d' = poi d \<and>
    map job_id (active_jobs d') = (case r of None \<Rightarrow> [] | Some i \<Rightarrow> [i]) \<and>
    (r = None \<longleftrightarrow> active_jobs d = [] \<or> count_missing_geom (poi d) = 0) \<and>
    (\<forall>i. r = Some i \<longrightarrow> i = job_seq (jobs d) + 1) \<and>
    (\<forall>i j. fetch_geom_job i (jobs d) = Some j \<and> \<not> is_active j \<longrightarrow> fetch_geom_job i (jobs d') = Some j)"
proof -
  let ?m = "mark_stale_geom_jobs_interrupted ts (jobs d)"
  obtain n js where m: "?m = (n, js)" by fastforce
  have n: "n = int (length (active_jobs d))" and seq: "job_seq js = job_seq (jobs d)"
    using m by (auto simp: mark_stale_geom_jobs_interrupted_def active_jobs_def update_jobs_def)
  have none: "filter is_active (job_rows js) = []" using no_active_marked [of ts "jobs d"] m by simp
  have ok: "jobs_ok js" using jobs_ok_marks(4) [OF assms, of ts] m by simp
  have keep: "fetch_geom_job i js = Some j" if "fetch_geom_job i (jobs d) = Some j" "\<not> is_active j" for i j
    using marked_finished [OF that, of ts] m by simp
  have bound: "i \<le> job_seq (jobs d)" if "fetch_geom_job i (jobs d) = Some j" for i j
    using that assms by (fastforce simp: fetch_geom_job_def find_Some_iff jobs_ok_def)
  have miss: "0 \<le> count_missing_geom (poi d)" by (simp add: count_missing_geom_def)
  show ?thesis
  proof (cases "n = 0")
    case True
    with n m show ?thesis
      by (simp add: recover_interrupted_geom_jobs_def db_connection_def on_jobs_def)
  next
    case False
    obtain i js' where cr: "create_geom_update_job ts js = (i, js')" by fastforce
    have i: "i = job_seq (jobs d) + 1" using cr seq by (simp add: create_geom_update_job_def)
    have act: "map job_id (filter is_active (job_rows js')) = [i]"
      using active_created [of ts js] none cr i seq by simp
    have keep': "fetch_geom_job k js' = Some j" if "fetch_geom_job k (jobs d) = Some j" "\<not> is_active j" for k j
      using fetch_created [OF ok, of k ts] keep [OF that] bound [OF that(1)] cr seq by simp
    have rec: "recover_interrupted_geom_jobs ts d =
        (if 0 < count_missing_geom (poi d) then (Some i, d\<lparr>jobs := js'\<rparr>) else (None, d\<lparr>jobs := js\<rparr>))"
      using False m cr by (simp add: recover_interrupted_geom_jobs_def db_connection_def on_jobs_def Let_def)
    have ne: "active_jobs d \<noteq> []" using False n by simp
    show ?thesis
    proof (cases "0 < count_missing_geom (poi d)")
      case True
      with rec act keep' i ne show ?thesis by (simp add: active_jobs_def)
    next
      case f: False
      with miss have "count_missing_geom (poi d) = 0" by simp
      with rec none keep ne show ?thesis by (simp add: active_jobs_def)
    qed
  qed
qed

lemma recovery_settles_jobs_witness:
  "fst (recover_interrupted_geom_jobs [49] sample_db) = Some 2 \<and>
   map job_id (active_jobs (snd (recover_interrupted_geom_jobs [49] sample_db))) = [2]"
proof -
  have r: "fst (recover_interrupted_geom_jobs [49] sample_db) = Some 2" by code_simp
  with recovery_settles_jobs [OF sample_db_ok(2), of "[49]"] show ?thesis by (auto split: prod.splits)
qed

end
