(* ===== verification/Upload.thy ===== *)
theory Upload
  imports Geo_Service
begin

text \<open>
  \<open>app/validators/land_validators.py\<close> and \<open>app/services/upload_service.py\<close>: the upload of the
  parcel sheet. The spreadsheet reader of the pandas package is a parameter; a sheet is its column
  names and its rows of cells, indexed from 0. A file is its bytes.
\<close>

section \<open>Sheets\<close>

text \<open>A cell: \<open>None\<close>, a float (an empty cell is NaN), an integer, a text, a boolean, a missing
  timestamp, or another value of which only the text is known.\<close>

datatype cell = CNone | CFloat pyfloat | CInt int | CStr pystr | CBool bool | CNaT | COther pystr

record dataframe =
  columns :: "pystr list"
  df_rows :: "(pystr \<rightharpoonup> cell) list"

datatype engine = xlrd | openpyxl

type_synonym bytes = "nat list"

type_synonym excel_reader = "bytes \<Rightarrow> engine \<Rightarrow> (pystr list \<times> (pystr \<Rightarrow> dataframe result)) result"

definition row_get :: "(pystr \<rightharpoonup> cell) \<Rightarrow> pystr \<Rightarrow> cell" where
  "row_get row col = (case row col of Some c \<Rightarrow> c | None \<Rightarrow> CNone)"

definition pd_isna :: "cell \<Rightarrow> bool" where
  "pd_isna c \<longleftrightarrow> c \<in> {CNone, CFloat NaN, CNaT}"

fun cell_str :: "pylib \<Rightarrow> cell \<Rightarrow> pystr" where
  "cell_str lib CNone = asc ''None''"
| "cell_str lib (CFloat f) = lib_str lib (JFloat f)"
| "cell_str lib (CInt i) = str_of_int i"
| "cell_str lib (CStr s) = s"
| "cell_str lib (CBool b) = (if b then asc ''True'' else asc ''False'')"
| "cell_str lib CNaT = asc ''NaT''"
| "cell_str lib (COther s) = s"

fun cell_float :: "cell \<Rightarrow> pyfloat result" where
  "cell_float (CFloat f) = Inr f"
| "cell_float (CInt i) = float_of_int i"
| "cell_float (CStr s) = py_float s"
| "cell_float (CBool b) = Inr (Fin (if b then 1 else 0))"
| "cell_float _ = Inl TypeErr"

section \<open>Validators\<close>

definition REQUIRED_COLUMNS :: "pystr list" where
  "REQUIRED_COLUMNS = [col_address, col_land_type, col_area, col_adm_property, col_gen_property, col_contact]"

definition MAX_ERROR_REPORT :: nat where
  "MAX_ERROR_REPORT = 100"

record row_error =
  err_row :: int
  err_field :: pystr
  err_code :: pystr
  err_value :: pystr

record land_row =
  lr_address :: pystr
  lr_land_type :: pystr
  lr_area :: pyfloat
  lr_adm_property :: pystr
  lr_gen_property :: pystr
  lr_contact :: pystr

definition validate_required_columns :: "dataframe \<Rightarrow> pystr list" where
  "validate_required_columns df = filter (\<lambda>col. col \<notin> set (columns df)) REQUIRED_COLUMNS"

definition to_str :: "pylib \<Rightarrow> cell \<Rightarrow> pystr" where
  "to_str lib value =
     (if value = CNone \<or> value = CFloat NaN then [] else strip (cell_str lib value))"

definition append_error :: "int \<Rightarrow> pystr \<Rightarrow> pystr \<Rightarrow> pystr \<Rightarrow> row_error list \<Rightarrow> row_error list" where
  "append_error row_num field code value errors =
     (if MAX_ERROR_REPORT \<le> length errors then errors
      else errors @ [\<lparr>err_row = row_num, err_field = field, err_code = code, err_value = value\<rparr>])"

text \<open>\<open>"" if value is None else str(value)\<close>\<close>

definition error_value :: "pylib \<Rightarrow> cell \<Rightarrow> pystr" where
  "error_value lib value = (if value = CNone then [] else cell_str lib value)"

text \<open>An \<open>OverflowError\<close> is not among the exceptions the parser catches.\<close>

definition parse_area ::
  "pylib \<Rightarrow> cell \<Rightarrow> int \<Rightarrow> row_error list \<Rightarrow> (pyfloat option \<times> row_error list) result" where
  "parse_area lib value row_num errors =
     (if pd_isna value
      then Inr (None, append_error row_num (asc ''area'') (asc ''missing'') (error_value lib value) errors)
      else case cell_float value of
             Inr f \<Rightarrow> Inr (Some f, errors)
           | Inl (ValueErr _) \<Rightarrow>
               Inr (None, append_error row_num (asc ''area'') (asc ''invalid'') (error_value lib value) errors)
           | Inl TypeErr \<Rightarrow>
               Inr (None, append_error row_num (asc ''area'') (asc ''invalid'') (error_value lib value) errors)
           | Inl e \<Rightarrow> Inl e)"

type_synonym normalized = "land_row list \<times> row_error list \<times> int"

definition normalize_row :: "pylib \<Rightarrow> int \<Rightarrow> (pystr \<rightharpoonup> cell) \<Rightarrow> normalized \<Rightarrow> normalized result" where
  "normalize_row lib idx row acc =
     (let (normalized, errors, total_errors) = acc;
          row_num = idx + 1;
          addr = to_str lib (row_get row col_address)
      in if addr = []
         then Inr (normalized, append_error row_num (asc ''address'') (asc ''missing'') addr errors, total_errors + 1)
         else bindR (parse_area lib (row_get row col_area) row_num errors) (\<lambda>(ar, errors).
           case ar of
             None \<Rightarrow> Inr (normalized, errors, total_errors + 1)
           | Some a \<Rightarrow> Inr (normalized @
               [\<lparr>lr_address = addr, lr_land_type = to_str lib (row_get row col_land_type), lr_area = a,
                 lr_adm_property = to_str lib (row_get row col_adm_property),
                 lr_gen_property = to_str lib (row_get row col_gen_property),
                 lr_contact = to_str lib (row_get row col_contact)\<rparr>], errors, total_errors)))"

fun normalize_rows_from ::
  "pylib \<Rightarrow> int \<Rightarrow> (pystr \<rightharpoonup> cell) list \<Rightarrow> normalized \<Rightarrow> normalized result" where
  "normalize_rows_from lib idx [] acc = Inr acc"
| "normalize_rows_from lib idx (row # rows) acc =
     bindR (normalize_row lib idx row acc) (normalize_rows_from lib (idx + 1) rows)"

definition normalize_upload_rows :: "pylib \<Rightarrow> dataframe \<Rightarrow> normalized result" where
  "normalize_upload_rows lib df = normalize_rows_from lib 0 (df_rows df) ([], [], 0)"

definition check_excel_magic_bytes :: "bytes \<Rightarrow> pystr \<Rightarrow> bool" where
  "check_excel_magic_bytes header filename =
     (if endswith filename (asc ''.xlsx'') then take 4 header = [80, 75, 3, 4]
      else if endswith filename (asc ''.xls'') then take 8 header = [208, 207, 17, 224, 161, 177, 26, 225]
      else False)"

section \<open>The service\<close>

definition ALLOWED_CONTENT_TYPES :: "pystr set" where
  "ALLOWED_CONTENT_TYPES =
     {asc ''application/vnd.openxmlformats-officedocument.spreadsheetml.sheet'',
      asc ''application/vnd.ms-excel'', asc ''application/octet-stream''}"

record UploadedFileInput =
  file_name :: pystr
  file_content_type :: pystr
  file_bytes :: bytes

record UploadCommand =
  up_csrf_valid :: bool
  up_requested_sheet :: pystr
  up_max_size_mb :: int
  up_max_rows :: int

record UploadContext =
  ctx_requested_sheet :: pystr
  ctx_max_upload_size_mb :: int
  ctx_max_upload_rows :: int
  ctx_original_filename :: pystr
  ctx_filename :: pystr
  ctx_content_type :: pystr

datatype upload_result =
    UploadRejected int payload
  | UploadSuccess payload bool int

definition build_upload_context :: "UploadCommand \<Rightarrow> UploadedFileInput \<Rightarrow> UploadContext" where
  "build_upload_context command file_input =
     (let original_filename = strip (file_name file_input)
      in \<lparr>ctx_requested_sheet = up_requested_sheet command,
          ctx_max_upload_size_mb = up_max_size_mb command,
          ctx_max_upload_rows = up_max_rows command,
          ctx_original_filename = original_filename,
          ctx_filename = lower original_filename,
          ctx_content_type = lower (file_content_type file_input)\<rparr>)"

definition validate_upload_request ::
  "UploadCommand \<Rightarrow> UploadedFileInput \<Rightarrow> UploadContext \<Rightarrow> engine result" where
  "validate_upload_request command file_input ctx =
     (if \<not> up_csrf_valid command then Inl (AuthError 403 msg_csrf_failed)
      else if \<not> (endswith (ctx_filename ctx) (asc ''.xlsx'') \<or> endswith (ctx_filename ctx) (asc ''.xls''))
      then Inl (ValidationError 400 msg_excel_only)
      else if ctx_max_upload_size_mb ctx * 1024 * 1024 < int (length (file_bytes file_input))
      then Inl (ValidationError 400
             (msg_size_limit_1 @ str_of_int (ctx_max_upload_size_mb ctx) @ msg_size_limit_2))
      else if \<not> check_excel_magic_bytes (take 8 (file_bytes file_input)) (ctx_filename ctx)
      then Inl (ValidationError 400 msg_bad_magic)
      else if ctx_content_type ctx \<noteq> [] \<and> ctx_content_type ctx \<notin> ALLOWED_CONTENT_TYPES
      then Inl (ValidationError 400 msg_bad_content_type)
      else Inr (if endswith (ctx_filename ctx) (asc ''.xls'') then xlrd else openpyxl))"

definition load_upload_dataframe ::
  "excel_reader \<Rightarrow> UploadedFileInput \<Rightarrow> UploadContext \<Rightarrow> engine \<Rightarrow> dataframe result" where
  "load_upload_dataframe reader file_input ctx eng =
     bindR (reader (file_bytes file_input) eng) (\<lambda>(sheet_names, read_sheet).
       if ctx_requested_sheet ctx \<in> set sheet_names then read_sheet (ctx_requested_sheet ctx)
       else case sheet_names of [] \<Rightarrow> Inl IndexErr | first # _ \<Rightarrow> read_sheet first)"

definition row_error_json :: "row_error \<Rightarrow> json" where
  "row_error_json e =
     JObj [(asc ''row'', JInt (err_row e)), (asc ''field'', JStr (err_field e)), (asc ''code'', JStr (err_code e)),
           (asc ''value'', JStr (err_value e))]"

text \<open>The rows to store and their number, or the rejected result.\<close>

definition validate_upload_dataframe ::
  "pylib \<Rightarrow> dataframe \<Rightarrow> UploadContext \<Rightarrow> (upload_result + land_row list \<times> int) result" where
  "validate_upload_dataframe lib df ctx =
     (let row_count = int (length (df_rows df)); missing = validate_required_columns df in
      if missing \<noteq> []
      then Inl (ValidationError 400 (msg_missing_columns @ join (asc '', '') missing))
      else if ctx_max_upload_rows ctx < row_count
      then Inl (ValidationError 400
             (msg_rows_limit_1 @ str_of_int (ctx_max_upload_rows ctx) @ msg_rows_limit_2))
      else bindR (normalize_upload_rows lib df) (\<lambda>(normalized_rows, errors, total_errors).
        if total_errors \<noteq> 0
        then Inr (Inl (UploadRejected 400
               [(asc ''success'', JBool False), (asc ''message'', JStr msg_validation_failed),
                (asc ''failed'', JInt total_errors), (asc ''errors'', JList (map row_error_json errors))]))
        else Inr (Inr (normalized_rows, row_count))))"

fun insert_rows :: "pylib \<Rightarrow> (pystr \<times> pystr) list \<Rightarrow> land_row list \<Rightarrow> database conn \<Rightarrow> unit result \<times> database conn" where
  "insert_rows lib known_geoms [] c = (Inr (), c)"
| "insert_rows lib known_geoms (row # rows) c =
     (case py_float (lib_str lib (JFloat (lr_area row))) of
        Inl e \<Rightarrow> (Inl e, c)
      | Inr a \<Rightarrow>
          insert_rows lib known_geoms rows
            (on_poi (insert_land (lr_address row) (lr_land_type row) a (lr_adm_property row) (lr_gen_property row)
                      (lr_contact row) (map_of known_geoms (lr_address row))) c))"

text \<open>The write transaction of the replacement, from the first deletion to the commit.\<close>

definition store_rows ::
  "pylib \<Rightarrow> (pystr \<times> pystr) list \<Rightarrow> land_row list \<Rightarrow> database conn \<Rightarrow> unit result \<times> database conn" where
  "store_rows lib known_geoms rows c =
     (let c = on_poi delete_all c;
          (r, c) = insert_rows lib known_geoms rows c
      in case r of Inl e \<Rightarrow> (Inl e, c) | Inr _ \<Rightarrow> (Inr (), commit c))"

definition replace_land_data :: "pylib \<Rightarrow> land_row list \<Rightarrow> database \<Rightarrow> unit result \<times> database" where
  "replace_land_data lib rows =
     db_connection (\<lambda>c. store_rows lib (fetch_geom_by_address (poi (work c))) rows c)"

text \<open>
  The job is created over a connection of its own, after the rows are committed. \<open>locked\<close>: that connection raises (the
  database is locked, the disk is full).
\<close>

definition finalize_upload :: "bool \<Rightarrow> pystr \<Rightarrow> int \<Rightarrow> database \<Rightarrow> upload_result result \<times> database" where
  "finalize_upload locked ts row_count d =
     (if locked then (Inl (OtherErr (asc ''OperationalError'')), d)
      else let (i, d) = enqueue_geom_update_job ts d
        in (Inr (UploadSuccess
              [(asc ''success'', JBool True), (asc ''rows'', JInt row_count), (asc ''message'', JStr msg_upload_done),
               (asc ''geomJobId'', JInt i)] True i), d))"

text \<open>The handlers of \<open>handle_excel_upload\<close>: the service's own errors pass, any other exception is
  the 500 result.\<close>

definition upload_error :: "exn \<Rightarrow> upload_result result" where
  "upload_error e =
     (case e of
        ServiceError AuthClass _ _ \<Rightarrow> Inl e
      | ServiceError ValidationClass _ _ \<Rightarrow> Inl e
      | _ \<Rightarrow> Inr (UploadRejected 500 [(asc ''success'', JBool False), (asc ''message'', JStr msg_upload_error)]))"

definition handle_excel_upload ::
  "excel_reader \<Rightarrow> pylib \<Rightarrow> pystr \<Rightarrow> bool \<Rightarrow> UploadCommand \<Rightarrow> UploadedFileInput \<Rightarrow> database \<Rightarrow>
   upload_result result \<times> database" where
  "handle_excel_upload reader lib ts locked command file_input d =
     (let ctx = build_upload_context command file_input in
      case bindR (validate_upload_request command file_input ctx) (\<lambda>eng.
             bindR (load_upload_dataframe reader file_input ctx eng) (\<lambda>df.
             validate_upload_dataframe lib df ctx)) of
        Inl e \<Rightarrow> (upload_error e, d)
      | Inr (Inl rejected) \<Rightarrow> (Inr rejected, d)
      | Inr (Inr (rows, row_count)) \<Rightarrow>
          (case replace_land_data lib rows d of
             (Inl e, d) \<Rightarrow> (upload_error e, d)
           | (Inr _, d) \<Rightarrow>
              (case finalize_upload locked ts row_count d of
                 (Inl e, d) \<Rightarrow> (upload_error e, d)
               | (Inr res, d) \<Rightarrow> (Inr res, d))))"

section \<open>Rows, one at a time\<close>

text \<open>What is wrong with a row: the field, the code and the value reported; and the row stored.\<close>

definition row_fault :: "pylib \<Rightarrow> (pystr \<rightharpoonup> cell) \<Rightarrow> (pystr \<times> pystr \<times> pystr) option" where
  "row_fault lib row =
     (let value = row_get row col_area in
      if to_str lib (row_get row col_address) = [] then Some (asc ''address'', asc ''missing'', [])
      else if pd_isna value then Some (asc ''area'', asc ''missing'', error_value lib value)
      else if isl (cell_float value) then Some (asc ''area'', asc ''invalid'', error_value lib value)
      else None)"

definition row_land :: "pylib \<Rightarrow> (pystr \<rightharpoonup> cell) \<Rightarrow> land_row" where
  "row_land lib row =
     \<lparr>lr_address = to_str lib (row_get row col_address), lr_land_type = to_str lib (row_get row col_land_type),
      lr_area = projr (cell_float (row_get row col_area)),
      lr_adm_property = to_str lib (row_get row col_adm_property),
      lr_gen_property = to_str lib (row_get row col_gen_property),
      lr_contact = to_str lib (row_get row col_contact)\<rparr>"

definition fault_error :: "int \<Rightarrow> pystr \<times> pystr \<times> pystr \<Rightarrow> row_error" where
  "fault_error idx = (\<lambda>(field, code, value).
     \<lparr>err_row = idx + 1, err_field = field, err_code = code, err_value = value\<rparr>)"

text \<open>The faults of a sheet in order, the first row having index \<open>idx\<close>.\<close>

fun sheet_faults :: "pylib \<Rightarrow> int \<Rightarrow> (pystr \<rightharpoonup> cell) list \<Rightarrow> row_error list" where
  "sheet_faults lib idx [] = []"
| "sheet_faults lib idx (row # rows) =
     (case row_fault lib row of None \<Rightarrow> [] | Some f \<Rightarrow> [fault_error idx f]) @ sheet_faults lib (idx + 1) rows"

definition area_in_range :: "(pystr \<rightharpoonup> cell) \<Rightarrow> bool" where
  "area_in_range row \<longleftrightarrow> cell_float (row_get row col_area) \<noteq> Inl OverflowErr"

lemma cell_float_errors: "cell_float c = Inl e \<Longrightarrow> e \<in> {TypeErr, OverflowErr, ValueErr None}"
  by (cases c) (auto simp: float_of_int_def py_float_def Let_def split: pyfloat.splits if_splits option.splits prod.splits)

text \<open>Keeping the first hundred while appending is taking the first hundred at the end.\<close>

lemma append_error_take:
  "append_error (idx + 1) field code value (take MAX_ERROR_REPORT es) =
     take MAX_ERROR_REPORT (es @ [fault_error idx (field, code, value)])"
  by (simp add: append_error_def fault_error_def min_def)

lemma normalize_row_spec:
  assumes "area_in_range row"
  shows "normalize_row lib idx row (ls, take MAX_ERROR_REPORT es, n) =
    Inr (case row_fault lib row of
           None \<Rightarrow> (ls @ [row_land lib row], take MAX_ERROR_REPORT es, n)
         | Some f \<Rightarrow> (ls, take MAX_ERROR_REPORT (es @ [fault_error idx f]), n + 1))"
proof (cases "to_str lib (row_get row col_address) = [] \<or> pd_isna (row_get row col_area)")
  case True
  then show ?thesis
    by (auto simp: normalize_row_def row_fault_def parse_area_def append_error_take Let_def)
next
  case False
  show ?thesis
  proof (cases "cell_float (row_get row col_area)")
    case (Inl e)
    then have "e = TypeErr \<or> e = ValueErr None"
      using cell_float_errors [OF Inl] assms by (auto simp: area_in_range_def)
    with False Inl show ?thesis
      by (auto simp: normalize_row_def row_fault_def parse_area_def append_error_take Let_def)
  next
    case (Inr f)
    with False show ?thesis
      by (simp add: normalize_row_def row_fault_def row_land_def parse_area_def Let_def)
  qed
qed

lemma normalize_rows_from_spec:
  "list_all area_in_range rows \<Longrightarrow>
   normalize_rows_from lib idx rows (ls, take MAX_ERROR_REPORT es, n) =
     Inr (ls @ map (row_land lib) (filter (\<lambda>r. row_fault lib r = None) rows),
          take MAX_ERROR_REPORT (es @ sheet_faults lib idx rows),
          n + int (length (sheet_faults lib idx rows)))"
proof (induction rows arbitrary: idx ls es n)
  case (Cons row rows)
  then show ?case
    by (cases "row_fault lib row") (simp_all add: normalize_row_spec del: take_append)
qed simp

lemma length_sheet_faults:
  "length (sheet_faults lib idx rows) = length (filter (\<lambda>r. row_fault lib r \<noteq> None) rows)"
  by (induction rows arbitrary: idx) (auto split: option.split)

lemma normalize_upload_rows_spec:
  assumes "list_all area_in_range (df_rows df)"
  shows "normalize_upload_rows lib df =
     Inr (map (row_land lib) (filter (\<lambda>r. row_fault lib r = None) (df_rows df)),
          take MAX_ERROR_REPORT (sheet_faults lib 0 (df_rows df)),
          int (length (filter (\<lambda>r. row_fault lib r \<noteq> None) (df_rows df))))"
  using normalize_rows_from_spec [OF assms, of lib 0 "[]" "[]" 0]
  by (simp add: normalize_upload_rows_def length_sheet_faults)

section \<open>Replacing the parcels\<close>

text \<open>The boundary a new row inherits: that of the last old row with its address and a boundary.\<close>

definition retained :: "poi_table \<Rightarrow> pystr \<Rightarrow> pystr option" where
  "retained t a =
     (case find (\<lambda>r. geom r \<noteq> None \<and> address r = a) (rev (poi_rows t)) of None \<Rightarrow> None | Some r \<Rightarrow> geom r)"

lemma fetch_geom_by_address_retained: "map_of (fetch_geom_by_address t) a = retained t a"
proof -
  have "map_of (foldl (\<lambda>d r. AList.update (address r) (the (geom r)) d) [] (filter (\<lambda>r. geom r \<noteq> None) (rev rs))) a =
    (case find (\<lambda>r. geom r \<noteq> None \<and> address r = a) rs of None \<Rightarrow> None | Some r \<Rightarrow> geom r)" for rs
    by (induction rs) (auto simp: map_of_update)
  from this [of "rev (poi_rows t)"] show ?thesis
    by (simp add: fetch_geom_by_address_def retained_def)
qed

fun numbered_rows :: "(pystr \<Rightarrow> pystr option) \<Rightarrow> int \<Rightarrow> land_row list \<Rightarrow> land list" where
  "numbered_rows g i [] = []"
| "numbered_rows g i (row # rows) =
     \<lparr>land_id = i, address = lr_address row, land_type = lr_land_type row, area = sql_real (lr_area row),
      adm_property = lr_adm_property row, gen_property = lr_gen_property row, contact = lr_contact row,
      geom = g (lr_address row)\<rparr> # numbered_rows g (i + 1) rows"

text \<open>The table after an upload of \<open>rows\<close>.\<close>

definition replaced :: "land_row list \<Rightarrow> poi_table \<Rightarrow> poi_table" where
  "replaced rows t =
     \<lparr>poi_rows = numbered_rows (retained t) (poi_seq t + 1) rows, poi_seq = poi_seq t + int (length rows)\<rparr>"

lemma insert_rows_spec:
  assumes "\<And>row. row \<in> set rows \<Longrightarrow> py_float (lib_str lib (JFloat (lr_area row))) = Inr (lr_area row)"
  shows "insert_rows lib known rows c =
    (Inr (), on_poi (\<lambda>t. \<lparr>poi_rows = poi_rows t @ numbered_rows (map_of known) (poi_seq t + 1) rows,
                         poi_seq = poi_seq t + int (length rows)\<rparr>) c)"
  using assms
proof (induction rows arbitrary: c)
  case Nil
  then show ?case by (simp add: on_poi_def execute_def)
next
  case (Cons row rows)
  then show ?case by (simp add: on_poi_def execute_def insert_land_def)
qed

lemma replace_land_data_spec:
  assumes "\<And>row. row \<in> set rows \<Longrightarrow> py_float (lib_str lib (JFloat (lr_area row))) = Inr (lr_area row)"
  shows "replace_land_data lib rows d = (Inr (), d\<lparr>poi := replaced rows (poi d)\<rparr>)"
  using insert_rows_spec [OF assms]
  by (simp add: replace_land_data_def store_rows_def db_connection_def on_poi_def execute_def commit_def delete_all_def
      replaced_def fetch_geom_by_address_retained [abs_def] fun_eq_iff)

text \<open>Nothing is committed unless every row is stored.\<close>

lemma insert_rows_disk: "disk (snd (insert_rows lib known rows c)) = disk c"
  by (induction rows arbitrary: c) (auto simp: on_poi_def split: sum.split)

lemma replace_land_data_atomic:
  "replace_land_data lib rows d = (Inl e, d') \<Longrightarrow> d' = d"
  using insert_rows_disk [of lib "fetch_geom_by_address (poi d)" rows "on_poi delete_all \<lparr>work = d, disk = d\<rparr>"]
  by (auto simp: replace_land_data_def store_rows_def db_connection_def on_poi_def split: prod.splits sum.splits)

text \<open>The text of the row's area reads back as the same float.\<close>

definition area_printable :: "pylib \<Rightarrow> (pystr \<rightharpoonup> cell) \<Rightarrow> bool" where
  "area_printable lib row \<longleftrightarrow>
     (case cell_float (row_get row col_area) of
        Inl _ \<Rightarrow> True | Inr a \<Rightarrow> py_float (lib_str lib (JFloat a)) = Inr a)"

lemma row_fault_None_area:
  "row_fault lib row = None \<Longrightarrow> cell_float (row_get row col_area) = Inr (lr_area (row_land lib row))"
  by (cases "cell_float (row_get row col_area)") (auto simp: row_fault_def row_land_def Let_def split: if_splits)

lemma validate_upload_dataframe_spec:
  assumes "list_all area_in_range (df_rows df)" "validate_required_columns df = []"
    and "int (length (df_rows df)) \<le> ctx_max_upload_rows ctx"
  shows "validate_upload_dataframe lib df ctx =
    Inr (if list_all (\<lambda>r. row_fault lib r = None) (df_rows df)
         then Inr (map (row_land lib) (df_rows df), int (length (df_rows df)))
         else Inl (UploadRejected 400
           [(asc ''success'', JBool False), (asc ''message'', JStr msg_validation_failed),
            (asc ''failed'', JInt (int (length (filter (\<lambda>r. row_fault lib r \<noteq> None) (df_rows df))))),
            (asc ''errors'', JList (map row_error_json (take MAX_ERROR_REPORT (sheet_faults lib 0 (df_rows df)))))]))"
proof (cases "list_all (\<lambda>r. row_fault lib r = None) (df_rows df)")
  case True
  then have "filter (\<lambda>r. row_fault lib r = None) (df_rows df) = df_rows df"
    and "filter (\<lambda>r. row_fault lib r \<noteq> None) (df_rows df) = []"
    by (auto simp: list_all_iff filter_empty_conv intro: filter_True)
  with True assms show ?thesis
    by (simp add: validate_upload_dataframe_def normalize_upload_rows_spec Let_def)
next
  case False
  then have "filter (\<lambda>r. row_fault lib r \<noteq> None) (df_rows df) \<noteq> []"
    by (auto simp: list_all_iff filter_empty_conv)
  then have "int (length (filter (\<lambda>r. row_fault lib r \<noteq> None) (df_rows df))) \<noteq> 0"
    by (simp only: of_nat_eq_0_iff length_0_conv not_False_eq_True)
  with False assms show ?thesis
    by (simp only: validate_upload_dataframe_def normalize_upload_rows_spec Let_def) simp
qed

section \<open>Properties\<close>

text \<open>
  C22. Row validation: the rows stored are exactly the sheet's rows without a fault, in order, each
  with its own values; the count of failures is the number of the others, and the report is the
  first \<open>MAX_ERROR_REPORT\<close> of their faults, each with its row number.
\<close>

theorem row_validation_exact:
  assumes "list_all area_in_range (df_rows df)"
  shows "normalize_upload_rows lib df =
     Inr (map (row_land lib) (filter (\<lambda>r. row_fault lib r = None) (df_rows df)),
          take MAX_ERROR_REPORT (sheet_faults lib 0 (df_rows df)),
          int (length (filter (\<lambda>r. row_fault lib r \<noteq> None) (df_rows df))))"
  using assms by (rule normalize_upload_rows_spec)

definition sample_row :: "pystr \<Rightarrow> cell \<Rightarrow> (pystr \<rightharpoonup> cell)" where
  "sample_row a ar = [col_address \<mapsto> CStr a, col_area \<mapsto> ar]"

definition sample_sheet :: dataframe where
  "sample_sheet = \<lparr>columns = REQUIRED_COLUMNS,
     df_rows = [sample_row (asc ''a'') (CInt 3), sample_row [] (CInt 1), sample_row (asc ''b'') (CStr (asc ''x''))]\<rparr>"

definition upload_lib :: pylib where
  "upload_lib = \<lparr>lib_str = (\<lambda>v. if v = JFloat (Fin 3) then asc ''3.0'' else []), lib_dumps = (\<lambda>_. []), lib_dumps_raw = (\<lambda>_. []),
                 lib_loads = (\<lambda>_. Inr JNull)\<rparr>"

lemma row_validation_exact_witness:
  "\<exists>ls es. normalize_upload_rows upload_lib sample_sheet = Inr (ls, es, 2) \<and> map lr_address ls = [asc ''a''] \<and>
     map err_row es = [2, 3]"
proof -
  have "list_all area_in_range (df_rows sample_sheet)" by code_simp
  moreover have "map lr_address (map (row_land upload_lib)
      (filter (\<lambda>r. row_fault upload_lib r = None) (df_rows sample_sheet))) = [asc ''a'']" by code_simp
  moreover have "map err_row (take MAX_ERROR_REPORT (sheet_faults upload_lib 0 (df_rows sample_sheet))) = [2, 3]"
    by code_simp
  moreover have "length (filter (\<lambda>r. row_fault upload_lib r \<noteq> None) (df_rows sample_sheet)) = 2" by code_simp
  ultimately show ?thesis using row_validation_exact [of sample_sheet upload_lib] by auto
qed

text \<open>
  C23. A sheet that was read: if its columns are there, its rows are within the limit and none has a
  fault, the parcels become exactly its rows, under fresh identifiers, each with the boundary its
  address had before, and a pending job is created (if creating the job raises, the parcels are replaced
  and the answer is the failure, 500); otherwise the answer says what is wrong and the
  database is what it was. (The text of each area, as the interpreter prints it, must read back as
  the same float.)
\<close>

theorem upload_outcome:
  fixes command file_input
  defines "ctx \<equiv> build_upload_context command file_input"
  assumes "validate_upload_request command file_input ctx = Inr eng"
    and "load_upload_dataframe reader file_input ctx eng = Inr df"
    and "list_all area_in_range (df_rows df)" and "list_all (area_printable lib) (df_rows df)"
  shows "handle_excel_upload reader lib ts locked command file_input d =
    (let n = int (length (df_rows df)); missing = validate_required_columns df in
     if missing \<noteq> [] then (Inl (ValidationError 400 (msg_missing_columns @ join (asc '', '') missing)), d)
     else if up_max_rows command < n
     then (Inl (ValidationError 400 (msg_rows_limit_1 @ str_of_int (up_max_rows command) @ msg_rows_limit_2)), d)
     else if \<not> list_all (\<lambda>r. row_fault lib r = None) (df_rows df)
     then (Inr (UploadRejected 400
             [(asc ''success'', JBool False), (asc ''message'', JStr msg_validation_failed),
              (asc ''failed'', JInt (int (length (filter (\<lambda>r. row_fault lib r \<noteq> None) (df_rows df))))),
              (asc ''errors'', JList (map row_error_json
                 (take MAX_ERROR_REPORT (sheet_faults lib 0 (df_rows df)))))]), d)
     else if locked
     then (Inr (UploadRejected 500 [(asc ''success'', JBool False), (asc ''message'', JStr msg_upload_error)]),
           d\<lparr>poi := replaced (map (row_land lib) (df_rows df)) (poi d)\<rparr>)
     else (Inr (UploadSuccess
             [(asc ''success'', JBool True), (asc ''rows'', JInt n), (asc ''message'', JStr msg_upload_done),
              (asc ''geomJobId'', JInt (job_seq (jobs d) + 1))] True (job_seq (jobs d) + 1)),
           d\<lparr>poi := replaced (map (row_land lib) (df_rows df)) (poi d),
             jobs := snd (create_geom_update_job ts (jobs d))\<rparr>))"
proof -
  have ctx: "ctx_max_upload_rows ctx = up_max_rows command"
    by (simp add: ctx_def build_upload_context_def Let_def)
  have start: "handle_excel_upload reader lib ts locked command file_input d =
      (case validate_upload_dataframe lib df ctx of
         Inl e \<Rightarrow> (upload_error e, d)
       | Inr (Inl rejected) \<Rightarrow> (Inr rejected, d)
       | Inr (Inr (rows, row_count)) \<Rightarrow>
          (case replace_land_data lib rows d of
             (Inl e, d) \<Rightarrow> (upload_error e, d)
           | (Inr _, d) \<Rightarrow>
               (case finalize_upload locked ts row_count d of
                  (Inl e, d) \<Rightarrow> (upload_error e, d)
                | (Inr res, d) \<Rightarrow> (Inr res, d))))"
    using assms(2,3) by (simp add: handle_excel_upload_def ctx_def [symmetric])
  show ?thesis
  proof (cases "validate_required_columns df = [] \<and> int (length (df_rows df)) \<le> up_max_rows command")
    case False
    then show ?thesis
      unfolding start by (auto simp: validate_upload_dataframe_def upload_error_def ctx Let_def)
  next
    case ok: True
    show ?thesis
    proof (cases "list_all (\<lambda>r. row_fault lib r = None) (df_rows df)")
      case False
      with ok show ?thesis
        unfolding start by (simp add: validate_upload_dataframe_spec [OF assms(4)] ctx)
    next
      case True
      have stored: "replace_land_data lib (map (row_land lib) (df_rows df)) d =
          (Inr (), d\<lparr>poi := replaced (map (row_land lib) (df_rows df)) (poi d)\<rparr>)"
      proof (rule replace_land_data_spec)
        fix row assume "row \<in> set (map (row_land lib) (df_rows df))"
        then show "py_float (lib_str lib (JFloat (lr_area row))) = Inr (lr_area row)"
          using True assms(5) row_fault_None_area [of lib] by (auto simp: list_all_iff area_printable_def)
      qed
      from ok True show ?thesis
        unfolding start
        by (simp add: validate_upload_dataframe_spec [OF assms(4)] ctx stored finalize_upload_def upload_error_def enqueue_eq)
    qed
  qed
qed

definition sample_command :: UploadCommand where
  "sample_command = \<lparr>up_csrf_valid = True, up_requested_sheet = default_sheet, up_max_size_mb = 1, up_max_rows = 10\<rparr>"

definition sample_file :: UploadedFileInput where
  "sample_file = \<lparr>file_name = asc ''Lands.XLSX'', file_content_type = [], file_bytes = [80, 75, 3, 4, 0, 0, 0, 0]\<rparr>"

definition good_sheet :: dataframe where
  "good_sheet = \<lparr>columns = REQUIRED_COLUMNS, df_rows = [sample_row (asc ''a'') (CInt 3)]\<rparr>"

definition sample_reader :: excel_reader where
  "sample_reader bs eng = Inr ([default_sheet], \<lambda>_. Inr good_sheet)"

lemma upload_outcome_witness:
  "\<exists>p. handle_excel_upload sample_reader upload_lib [49] False sample_command sample_file sample_db =
     (Inr (UploadSuccess p True 2),
      sample_db\<lparr>poi := replaced [row_land upload_lib (sample_row (asc ''a'') (CInt 3))] (poi sample_db),
        jobs := snd (create_geom_update_job [49] (jobs sample_db))\<rparr>)"
proof -
  let ?ctx = "build_upload_context sample_command sample_file"
  have v: "validate_upload_request sample_command sample_file ?ctx = Inr openpyxl" by code_simp
  have l: "load_upload_dataframe sample_reader sample_file ?ctx openpyxl = Inr good_sheet"
    by (simp add: load_upload_dataframe_def sample_reader_def)
  have a: "list_all area_in_range (df_rows good_sheet)" "list_all (area_printable upload_lib) (df_rows good_sheet)"
    by code_simp+
  have s: "validate_required_columns good_sheet = []" "\<not> up_max_rows sample_command < int (length (df_rows good_sheet))"
      "list_all (\<lambda>r. row_fault upload_lib r = None) (df_rows good_sheet)" "job_seq (jobs sample_db) = 1"
    by code_simp+
  show ?thesis
    using upload_outcome [OF v l a, of "[49]" False sample_db] s by (simp add: Let_def good_sheet_def)
qed

text \<open>A parcel as a row was stored: its own values, the boundary \<open>g\<close> has for its address, an identifier after \<open>n\<close>.\<close>

definition stored_as :: "pylib \<Rightarrow> (pystr \<Rightarrow> pystr option) \<Rightarrow> int \<Rightarrow> land_row \<Rightarrow> land \<Rightarrow> bool" where
  "stored_as lib g n row r \<longleftrightarrow>
     address r = lr_address row \<and> land_type r = lr_land_type row \<and> adm_property r = lr_adm_property row \<and>
     gen_property r = lr_gen_property row \<and> contact r = lr_contact row \<and> geom r = g (lr_address row) \<and>
     Inr (area r) = bindR (py_float (lib_str lib (JFloat (lr_area row)))) (\<lambda>a. Inr (sql_real a)) \<and> n < land_id r"

lemma insert_rows_stored:
  assumes "insert_rows lib known rows c = (Inr u, c')" "n \<le> poi_seq (poi (work c))"
  shows "\<exists>ls. poi_rows (poi (work c')) = poi_rows (poi (work c)) @ ls \<and> list_all2 (stored_as lib (map_of known) n) rows ls \<and>
    jobs (work c') = jobs (work c) \<and> (poi_ok (poi (work c)) \<longrightarrow> poi_ok (poi (work c'))) \<and> n \<le> poi_seq (poi (work c'))"
  using assms
proof (induction rows arbitrary: c)
  case (Cons row rows)
  then obtain a where a: "py_float (lib_str lib (JFloat (lr_area row))) = Inr a" by (auto split: sum.splits)
  let ?c = "on_poi (insert_land (lr_address row) (lr_land_type row) a (lr_adm_property row) (lr_gen_property row)
                      (lr_contact row) (map_of known (lr_address row))) c"
  have "insert_rows lib known rows ?c = (Inr u, c')" "n \<le> poi_seq (poi (work ?c))"
    using Cons.prems a by (simp_all add: on_poi_def insert_land_def)
  moreover have ok: "poi_ok (poi (work c)) \<longrightarrow> poi_ok (poi (work ?c))" by (simp add: on_poi_def poi_ok_insert_land)
  ultimately obtain ls where ls: "poi_rows (poi (work c')) = poi_rows (poi (work ?c)) @ ls"
    "list_all2 (stored_as lib (map_of known) n) rows ls" "jobs (work c') = jobs (work ?c)"
    "poi_ok (poi (work c)) \<longrightarrow> poi_ok (poi (work c'))" "n \<le> poi_seq (poi (work c'))" using Cons.IH by blast
  obtain r where r: "poi_rows (poi (work ?c)) = poi_rows (poi (work c)) @ [r]" "stored_as lib (map_of known) n row r"
    using Cons.prems(2) a by (simp add: on_poi_def insert_land_def stored_as_def)
  from ls r show ?case by (intro exI [of _ "r # ls"]) (simp add: on_poi_def)
qed simp

text \<open>The transaction leaves the new rows only, or what was there.\<close>

lemma store_rows_stored:
  assumes "db_connection (store_rows lib known rows) d = (r, d')"
  shows "case r of
      Inl _ \<Rightarrow> d' = d
    | Inr _ \<Rightarrow> list_all2 (stored_as lib (map_of known) (poi_seq (poi d))) rows (poi_rows (poi d')) \<and> jobs d' = jobs d \<and>
        (poi_ok (poi d) \<longrightarrow> poi_ok (poi d')) \<and> poi_seq (poi d) \<le> poi_seq (poi d')"
proof (cases "insert_rows lib known rows (on_poi delete_all \<lparr>work = d, disk = d\<rparr>)")
  case (Pair r' c')
  have disk: "disk c' = d"
    using insert_rows_disk [of lib known rows "on_poi delete_all \<lparr>work = d, disk = d\<rparr>"] Pair by (simp add: on_poi_def)
  show ?thesis
  proof (cases r')
    case (Inl e)
    with assms(1) Pair disk show ?thesis by (auto simp: db_connection_def store_rows_def)
  next
    case (Inr u)
    with Pair insert_rows_stored [of lib known rows "on_poi delete_all \<lparr>work = d, disk = d\<rparr>" u c' "poi_seq (poi d)"]
    have "list_all2 (stored_as lib (map_of known) (poi_seq (poi d))) rows (poi_rows (poi (work c'))) \<and> jobs (work c') = jobs d \<and>
        (poi_ok (poi d) \<longrightarrow> poi_ok (poi (work c'))) \<and> poi_seq (poi d) \<le> poi_seq (poi (work c'))"
      by (auto simp: on_poi_def delete_all_def poi_ok_def)
    with assms(1) Pair Inr show ?thesis by (auto simp: db_connection_def store_rows_def)
  qed
qed

lemma replace_land_data_stored:
  assumes "replace_land_data lib rows d = (Inr u, d')"
  shows "list_all2 (stored_as lib (retained (poi d)) (poi_seq (poi d))) rows (poi_rows (poi d')) \<and> jobs d' = jobs d"
proof -
  have "map_of (fetch_geom_by_address (poi d)) = retained (poi d)" by (rule ext) (rule fetch_geom_by_address_retained)
  moreover have "db_connection (store_rows lib (fetch_geom_by_address (poi d)) rows) d = (Inr u, d')"
    using assms(1) by (simp add: replace_land_data_def db_connection_def)
  ultimately show ?thesis using store_rows_stored by fastforce
qed

definition succeeded :: "upload_result result \<Rightarrow> bool" where
  "succeeded r = (case r of Inr (UploadSuccess _ _ _) \<Rightarrow> True | _ \<Rightarrow> False)"

lemma upload_error_failed [simp]: "\<not> succeeded (upload_error e)"
  by (auto simp: upload_error_def succeeded_def split: exn.split service_class.split)

lemma rejected_failed: "validate_upload_dataframe lib df ctx = Inr (Inl x) \<Longrightarrow> \<not> succeeded (Inr x)"
  by (auto simp: validate_upload_dataframe_def Let_def bindR_Inr_iff succeeded_def split: if_splits prod.splits)

text \<open>The rows of an upload that passed every check.\<close>

definition checked_rows ::
  "excel_reader \<Rightarrow> pylib \<Rightarrow> UploadCommand \<Rightarrow> UploadedFileInput \<Rightarrow> land_row list \<Rightarrow> bool" where
  "checked_rows reader lib command f rows \<longleftrightarrow>
     (let ctx = build_upload_context command f in
      case bindR (validate_upload_request command f ctx) (load_upload_dataframe reader f ctx) of
        Inl _ \<Rightarrow> False
      | Inr df \<Rightarrow> case normalize_upload_rows lib df of Inl _ \<Rightarrow> False | Inr (ls, errors, n) \<Rightarrow> ls = rows \<and> n = 0)"

lemma checked_rows_intro:
  assumes "validate_upload_request command f (build_upload_context command f) = Inr eng"
    and "load_upload_dataframe reader f (build_upload_context command f) eng = Inr df"
    and "validate_upload_dataframe lib df (build_upload_context command f) = Inr (Inr (rows, n))"
  shows "checked_rows reader lib command f rows"
  using assms
  by (auto simp: checked_rows_def Let_def validate_upload_dataframe_def bindR_Inr_iff split: if_splits)

text \<open>
  C24. An upload is all or nothing in the table of parcels, and its success is the job: either the database is what
  it was and the upload did not succeed, or every row of the sheet passed the checks and the parcels are exactly those rows,
  none of the old ones left. In the second case a job is created and the upload succeeds, unless the creation of the job
  raises (it has a connection of its own, opened after the rows are committed): then the answer is the failure, 500, the
  parcels are replaced nevertheless and there is no job.
\<close>

theorem upload_atomic:
  "case handle_excel_upload reader lib ts locked command file_input d of (res, d') \<Rightarrow>
     (d' = d \<and> \<not> succeeded res) \<or>
     (\<exists>rows. checked_rows reader lib command file_input rows \<and> list_all2 (stored_as lib (retained (poi d)) (poi_seq (poi d))) rows (poi_rows (poi d')) \<and>
        (if locked
         then res = Inr (UploadRejected 500 [(asc ''success'', JBool False), (asc ''message'', JStr msg_upload_error)]) \<and>
              jobs d' = jobs d
         else (\<exists>p. res = Inr (UploadSuccess p True (job_seq (jobs d) + 1))) \<and>
              jobs d' = snd (create_geom_update_job ts (jobs d))))"
proof -
  let ?ctx = "build_upload_context command file_input"
  let ?checks = "bindR (validate_upload_request command file_input ?ctx) (\<lambda>eng.
      bindR (load_upload_dataframe reader file_input ?ctx eng) (\<lambda>df. validate_upload_dataframe lib df ?ctx))"
  consider e where "?checks = Inl e" | x where "?checks = Inr (Inl x)" | rows n where "?checks = Inr (Inr (rows, n))"
    by (metis sum.exhaust surj_pair)
  then show ?thesis
  proof cases
    case 2
    then have "\<not> succeeded (Inr x)" by (auto simp: bindR_Inr_iff dest: rejected_failed)
    with 2 show ?thesis by (simp add: handle_excel_upload_def)
  next
    case 3
    then have checked: "checked_rows reader lib command file_input rows"
      by (auto simp: bindR_Inr_iff intro: checked_rows_intro)
    show ?thesis
    proof (cases "replace_land_data lib rows d")
      case (Pair s d1)
      show ?thesis
      proof (cases s)
        case (Inl e)
        with Pair have "d1 = d" by (simp add: replace_land_data_atomic)
        with 3 Pair Inl show ?thesis by (simp add: handle_excel_upload_def)
      next
        case (Inr u)
        with Pair have stored: "list_all2 (stored_as lib (retained (poi d)) (poi_seq (poi d))) rows (poi_rows (poi d1))" "jobs d1 = jobs d"
          using replace_land_data_stored by blast+
        have "handle_excel_upload reader lib ts locked command file_input d =
            (if locked then (upload_error (OtherErr (asc ''OperationalError'')), d1)
             else let (i, d2) = enqueue_geom_update_job ts d1
               in (Inr (UploadSuccess [(asc ''success'', JBool True), (asc ''rows'', JInt n), (asc ''message'', JStr msg_upload_done),
                    (asc ''geomJobId'', JInt i)] True i), d2))"
          using 3 Pair Inr by (simp add: handle_excel_upload_def finalize_upload_def split: prod.split)
        with checked stored show ?thesis
          by (auto simp: upload_error_def enqueue_eq)
      qed
    qed
  qed (simp add: handle_excel_upload_def)
qed

end
