(* ===== verification/Boundaries.thy ===== *)
theory Boundaries
  imports Upload
begin

text \<open>
  Uploads and boundary jobs run concurrently: a job fetches a batch of missing rows, asks the
  geocoder for each with no lock held, and stores the answer under the row's identifier, while
  uploads may replace the whole table in between. An upload itself reads the known boundaries before its write
  transaction begins, so a job may write between the two. The steps interleave freely, each one a
  function of the services on the database of the moment; the state adds to the
  database the items that some job still holds, the boundaries that some upload has read, and the answers the geocoder has given.
\<close>

record boundary_state =
  bs_db :: database
  bs_held :: "(int \<times> pystr) set"
  bs_read :: "(pystr \<times> pystr) list set"
  bs_known :: "(pystr \<times> pystr) set"

text \<open>The pairs of address and boundary a table shows.\<close>

definition shown :: "poi_table \<Rightarrow> (pystr \<times> pystr) set" where
  "shown t = {(address r, g) |r g. r \<in> set (poi_rows t) \<and> geom r = Some g}"

text \<open>
  \<open>fetch\<close>: \<open>_scan_and_update_missing_geoms\<close> reads a batch. \<open>answer\<close>: the body of its loop for one item, with any progress
  of the scan. \<open>read\<close> and \<open>store\<close>: the two halves of \<open>_replace_land_data\<close>. \<open>upload\<close>: a whole upload with nothing in between.
  \<open>other\<close>: whatever leaves the parcels alone, such as the records of the jobs.
\<close>

inductive boundary_run :: "'w geom_client \<Rightarrow> database \<Rightarrow> boundary_state \<Rightarrow> bool" for client d0 where
  start: "boundary_run client d0 \<lparr>bs_db = d0, bs_held = {}, bs_read = {}, bs_known = shown (poi d0)\<rparr>"
| fetch: "boundary_run client d0 s \<Longrightarrow>
    boundary_run client d0 (s\<lparr>bs_held := bs_held s \<union> set (fetch_missing_geom (poi (bs_db s)) n a)\<rparr>)"
| answer: "boundary_run client d0 s \<Longrightarrow> (i, a) \<in> bs_held s \<Longrightarrow>
    geom_item client b k (i, a)
      \<lparr>sc_conn = \<lparr>work = bs_db s, disk = bs_db s\<rparr>, sc_after = x, sc_updated = n, sc_world = w\<rparr> = (r, sc) \<Longrightarrow>
    boundary_run client d0
      (s\<lparr>bs_db := disk (sc_conn sc), bs_known := bs_known s \<union> {(a, g) |g. fst (client w a) = Inr (Some g)}\<rparr>)"
| read: "boundary_run client d0 s \<Longrightarrow>
    boundary_run client d0 (s\<lparr>bs_read := insert (fetch_geom_by_address (poi (bs_db s))) (bs_read s)\<rparr>)"
| store: "boundary_run client d0 s \<Longrightarrow> known \<in> bs_read s \<Longrightarrow> db_connection (store_rows lib known rows) (bs_db s) = (r, d) \<Longrightarrow>
    boundary_run client d0 (s\<lparr>bs_db := d\<rparr>)"
| upload: "boundary_run client d0 s \<Longrightarrow> handle_excel_upload reader lib ts locked command f (bs_db s) = (r, d) \<Longrightarrow>
    boundary_run client d0 (s\<lparr>bs_db := d\<rparr>)"
| other: "boundary_run client d0 s \<Longrightarrow> poi d = poi (bs_db s) \<Longrightarrow> boundary_run client d0 (s\<lparr>bs_db := d\<rparr>)"

inductive_cases boundary_run_cases: "boundary_run client d0 s"

section \<open>The invariant\<close>

text \<open>Every boundary in the table or in the hands of an upload is known for its address; an item in the hands of a job is
  the parcel of its identifier, if that parcel is still there.\<close>

definition boundary_inv :: "boundary_state \<Rightarrow> bool" where
  "boundary_inv s \<longleftrightarrow>
     poi_ok (poi (bs_db s)) \<and> shown (poi (bs_db s)) \<subseteq> bs_known s \<and>
     (\<forall>known \<in> bs_read s. \<forall>a g. map_of known a = Some g \<longrightarrow> (a, g) \<in> bs_known s) \<and>
     (\<forall>(i, a) \<in> bs_held s. i \<le> poi_seq (poi (bs_db s)) \<and>
        (\<forall>r \<in> set (poi_rows (poi (bs_db s))). land_id r = i \<longrightarrow> address r = a))"

lemma retained_shown:
  assumes "retained t a = Some g"
  shows "(a, g) \<in> shown t"
proof -
  obtain r where "find (\<lambda>r. geom r \<noteq> None \<and> address r = a) (rev (poi_rows t)) = Some r" "geom r = Some g"
    using assms by (auto simp: retained_def split: option.splits)
  moreover from this have "r \<in> set (rev (poi_rows t)) \<and> address r = a"
    unfolding find_Some_iff by (metis nth_mem)
  ultimately show ?thesis by (auto simp: shown_def)
qed

lemma shown_stored:
  assumes "list_all2 (stored_as lib g n) rows (poi_rows t)" "\<And>a x. g a = Some x \<Longrightarrow> (a, x) \<in> K"
  shows "shown t \<subseteq> K" "\<And>r. r \<in> set (poi_rows t) \<Longrightarrow> n < land_id r"
proof -
  have stored: "\<exists>row. stored_as lib g n row r" if "r \<in> set (poi_rows t)" for r
    using assms(1) that by (auto simp: list_all2_conv_all_nth in_set_conv_nth)
  then show "shown t \<subseteq> K" using assms(2) by (fastforce simp: shown_def stored_as_def)
  show "n < land_id r" if "r \<in> set (poi_rows t)" for r using stored [OF that] by (auto simp: stored_as_def)
qed

lemma shown_update_geom:
  assumes "\<forall>r \<in> set (poi_rows t). land_id r = i \<longrightarrow> address r = a"
  shows "shown (update_geom i g t) \<subseteq> insert (a, g) (shown t)"
  using assms by (auto simp: shown_def update_geom_def split: if_splits)

lemma fetched_current:
  assumes "poi_ok t" "(i, a) \<in> set (fetch_missing_geom t n b)"
  shows "i \<le> poi_seq t \<and> (\<forall>r \<in> set (poi_rows t). land_id r = i \<longrightarrow> address r = a)"
proof -
  have "(i, a) \<in> set (missing_rows t)"
    using assms(2) by (auto simp: fetch_missing_geom_def missing_rows_def sql_limit_def
        split: option.splits if_splits dest!: in_set_takeD)
  with missing_unique [OF assms(1) this] assms(1) show ?thesis
    by (auto simp: missing_rows_def poi_ok_def)
qed

text \<open>A table of new rows: the rows held by jobs are gone.\<close>

lemma boundary_inv_rows:
  assumes "boundary_inv s" "list_all2 (stored_as lib g (poi_seq (poi (bs_db s)))) rows (poi_rows (poi d))"
    and "\<And>a x. g a = Some x \<Longrightarrow> (a, x) \<in> bs_known s" "poi_ok (poi d)" "poi_seq (poi (bs_db s)) \<le> poi_seq (poi d)"
  shows "boundary_inv (s\<lparr>bs_db := d\<rparr>)"
proof -
  have new: "poi_seq (poi (bs_db s)) < land_id r" if "r \<in> set (poi_rows (poi d))" for r
    using shown_stored(2) [OF assms(2,3)] that by simp
  have "i \<le> poi_seq (poi d) \<and> (\<forall>r \<in> set (poi_rows (poi d)). land_id r = i \<longrightarrow> address r = a)"
    if "(i, a) \<in> bs_held s" for i a
  proof -
    have "i \<le> poi_seq (poi (bs_db s))" using assms(1) that by (auto simp: boundary_inv_def)
    with new assms(5) show ?thesis by force
  qed
  with assms(1,4) shown_stored(1) [OF assms(2,3)] show ?thesis by (auto simp: boundary_inv_def)
qed

lemma boundary_inv_store:
  assumes "boundary_inv s" "db_connection (store_rows lib known rows) (bs_db s) = (r, d)"
    and "\<And>a x. map_of known a = Some x \<Longrightarrow> (a, x) \<in> bs_known s"
  shows "boundary_inv (s\<lparr>bs_db := d\<rparr>)"
proof (cases r)
  case (Inl e)
  with store_rows_stored [OF assms(2)] assms(1) show ?thesis by simp
next
  case (Inr u)
  have "poi_ok (poi (bs_db s))" using assms(1) by (simp add: boundary_inv_def)
  with store_rows_stored [OF assms(2)] Inr show ?thesis
    by (intro boundary_inv_rows [OF assms(1) _ assms(3), where g = "map_of known"]) auto
qed

lemma boundary_inv_same: "boundary_inv s \<Longrightarrow> poi d = poi (bs_db s) \<Longrightarrow> boundary_inv (s\<lparr>bs_db := d\<rparr>)"
  by (simp add: boundary_inv_def)

lemma known_retained:
  assumes "boundary_inv s" "map_of (fetch_geom_by_address (poi (bs_db s))) a = Some g"
  shows "(a, g) \<in> bs_known s"
  using assms retained_shown [of "poi (bs_db s)" a g] by (auto simp: boundary_inv_def fetch_geom_by_address_retained)

text \<open>An upload leaves the table of its one write transaction, or the table it found.\<close>

lemma upload_poi:
  assumes "handle_excel_upload reader lib ts locked command f d = (r, d')"
  shows "poi d' = poi d \<or> (\<exists>rows q d1. replace_land_data lib rows d = (q, d1) \<and> poi d' = poi d1)"
  using assms
  by (auto simp: handle_excel_upload_def finalize_upload_def enqueue_eq Let_def split: sum.splits prod.splits if_splits) blast

lemma boundary_inv_upload:
  assumes inv: "boundary_inv s" and run: "handle_excel_upload reader lib ts locked command f (bs_db s) = (r, d)"
  shows "boundary_inv (s\<lparr>bs_db := d\<rparr>)"
  using upload_poi [OF run]
proof (elim disjE exE conjE)
  fix rows q d1 assume *: "replace_land_data lib rows (bs_db s) = (q, d1)" "poi d = poi d1"
  then have "db_connection (store_rows lib (fetch_geom_by_address (poi (bs_db s))) rows) (bs_db s) = (q, d1)"
    by (simp add: replace_land_data_def db_connection_def)
  from boundary_inv_store [OF inv this known_retained [OF inv]] have "boundary_inv (s\<lparr>bs_db := d1\<rparr>)" by simp
  with *(2) show ?thesis by (simp add: boundary_inv_def)
qed (rule boundary_inv_same [OF inv])

text \<open>An item of a batch stores the geocoder's answer under its identifier, or nothing.\<close>

lemma geom_item_cases:
  assumes "geom_item client b k (i, a) s = (r, s')" "disk (sc_conn s) = work (sc_conn s)"
  shows "poi (disk (sc_conn s')) = scan_poi s \<or>
    (\<exists>g. fst (client (sc_world s) a) = Inr (Some g) \<and> poi (disk (sc_conn s')) = update_geom i g (scan_poi s))"
  using assms
  by (auto simp: geom_item_def on_poi_def Let_def split: sum.splits prod.splits if_splits)

lemma boundary_inv_answer:
  assumes inv: "boundary_inv s" and held: "(i, a) \<in> bs_held s"
    and run: "geom_item client b k (i, a)
      \<lparr>sc_conn = \<lparr>work = bs_db s, disk = bs_db s\<rparr>, sc_after = x, sc_updated = n, sc_world = w\<rparr> = (r, sc)"
  shows "boundary_inv
    (s\<lparr>bs_db := disk (sc_conn sc), bs_known := bs_known s \<union> {(a, g) |g. fst (client w a) = Inr (Some g)}\<rparr>)"
proof -
  let ?K = "bs_known s \<union> {(a, g) |g. fst (client w a) = Inr (Some g)}"
  have more: "boundary_inv (s\<lparr>bs_known := ?K\<rparr>)" using inv by (auto simp: boundary_inv_def)
  have "poi (disk (sc_conn sc)) = poi (bs_db s) \<or>
      (\<exists>g. fst (client w a) = Inr (Some g) \<and> poi (disk (sc_conn sc)) = update_geom i g (poi (bs_db s)))"
    using geom_item_cases [OF run] by simp
  then show ?thesis
  proof (elim disjE exE conjE)
    assume "poi (disk (sc_conn sc)) = poi (bs_db s)"
    with more show ?thesis by (simp add: boundary_inv_def)
  next
    fix g assume g: "fst (client w a) = Inr (Some g)" "poi (disk (sc_conn sc)) = update_geom i g (poi (bs_db s))"
    from inv held have "shown (update_geom i g (poi (bs_db s))) \<subseteq> insert (a, g) (shown (poi (bs_db s)))"
      by (intro shown_update_geom) (auto simp: boundary_inv_def)
    moreover have "\<forall>r \<in> set (poi_rows (update_geom i g (poi (bs_db s)))). land_id r = j \<longrightarrow> address r = c"
      if "(j, c) \<in> bs_held s" for j c
      using inv that by (auto simp: boundary_inv_def poi_rows_update_geom split: if_splits)
    ultimately show ?thesis
      using more g by (auto simp: boundary_inv_def poi_ok_update_geom poi_rows_update_geom(2))
  qed
qed

lemma boundary_run_inv: "boundary_run client d0 s \<Longrightarrow> poi_ok (poi d0) \<Longrightarrow> boundary_inv s"
proof (induction rule: boundary_run.induct)
  case start
  then show ?case by (simp add: boundary_inv_def)
next
  case (fetch s n a)
  then have "boundary_inv s" by simp
  then show ?case using fetched_current [of "poi (bs_db s)" _ _ n a] by (auto simp: boundary_inv_def)
next
  case (read s)
  then have "boundary_inv s" by simp
  then show ?case using known_retained [of s] by (auto simp: boundary_inv_def)
next
  case (store s known lib rows r d)
  then have "boundary_inv s" by simp
  with store show ?case by (intro boundary_inv_store [OF _ store.hyps(3)]) (auto simp: boundary_inv_def)
next
  case (upload s)
  then show ?case by (intro boundary_inv_upload) auto
next
  case (other s)
  then show ?case by (intro boundary_inv_same) auto
qed (simp_all add: boundary_inv_answer)

section \<open>Properties\<close>

text \<open>
  C3. However uploads and boundary jobs interleave, a job writing even between an upload's reading of the known boundaries
  and its writing, no parcel ever shows a boundary that is not its
  own: every boundary in the table was in the table at the start under the same address, or was
  the geocoder's answer for that address. A job's stale answer is dropped, never stored on another
  parcel, because identifiers are not reused.
\<close>

theorem boundaries_belong:
  assumes "boundary_run client d0 s" and "poi_ok (poi d0)"
  shows "shown (poi (bs_db s)) \<subseteq> bs_known s \<and> poi_ok (poi (bs_db s))"
  using boundary_run_inv [OF assms] by (simp add: boundary_inv_def)

text \<open>A job asks for the boundary of \<open>a\<close>; before the answer an upload replaces the parcels by \<open>c\<close>.\<close>

lemma boundaries_belong_witness:
  "\<exists>s. boundary_run (answers sample_answers :: unit geom_client) sample_db s \<and> (1, asc ''a'') \<in> bs_held s \<and>
     map address (poi_rows (poi (bs_db s))) = [asc ''a''] \<and> poi_seq (poi (bs_db s)) = 3 \<and>
     shown (poi (bs_db s)) \<subseteq> {(asc ''a'', asc ''{}'')}"
proof -
  let ?c = "answers sample_answers :: unit geom_client"
  let ?s0 = "\<lparr>bs_db = sample_db, bs_held = {}, bs_read = {}, bs_known = shown (poi sample_db)\<rparr>"
  let ?s1 = "?s0\<lparr>bs_held := bs_held ?s0 \<union> set (fetch_missing_geom (poi (bs_db ?s0)) None 0)\<rparr>"
  let ?d2 = "snd (handle_excel_upload sample_reader upload_lib [49] False sample_command sample_file sample_db)"
  let ?s2 = "?s1\<lparr>bs_db := ?d2\<rparr>"
  let ?sc = "\<lparr>sc_conn = \<lparr>work = ?d2, disk = ?d2\<rparr>, sc_after = 0, sc_updated = 0, sc_world = ()\<rparr>"
  let ?d3 = "disk (sc_conn (snd (geom_item ?c (Fin 0) 1 (1, asc ''a'') ?sc)))"
  let ?s3 = "?s2\<lparr>bs_db := ?d3, bs_known := bs_known ?s2 \<union> {(asc ''a'', g) |g. fst (?c () (asc ''a'')) = Inr (Some g)}\<rparr>"
  have "(1, asc ''a'') \<in> set (fetch_missing_geom (poi sample_db) None 0)" by code_simp
  then have held: "(1, asc ''a'') \<in> bs_held ?s2" by simp
  have two: "boundary_run ?c sample_db ?s2"
    by (rule boundary_run.upload [OF boundary_run.fetch [OF boundary_run.start], where r = "fst (handle_excel_upload sample_reader upload_lib
        [49] False sample_command sample_file sample_db)"]) simp
  have run: "boundary_run ?c sample_db ?s3"
    by (rule boundary_run.answer [OF two held, where r = "fst (geom_item ?c (Fin 0) 1 (1, asc ''a'') ?sc)" and b = "Fin 0" and k = 1
        and x = 0 and n = 0 and w = "()" and sc = "snd (geom_item ?c (Fin 0) 1 (1, asc ''a'') ?sc)", THEN rev_iffD1]) simp_all
  have empty: "shown (poi sample_db) = {}"
    by (auto simp: shown_def sample_db_def insert_land_def empty_poi_def)
  have "shown (poi (bs_db ?s3)) \<subseteq> bs_known ?s3"
    using boundaries_belong [OF run sample_db_ok(1)] by simp
  also have "bs_known ?s3 \<subseteq> {(asc ''a'', asc ''{}'')}" by (auto simp: empty answers_def sample_answers_def)
  finally have "shown (poi (bs_db ?s3)) \<subseteq> {(asc ''a'', asc ''{}'')}" .
  moreover have "map address (poi_rows (poi ?d3)) = [asc ''a''] \<and> poi_seq (poi ?d3) = 3" by code_simp
  ultimately show ?thesis using run held by (intro exI [of _ ?s3]) simp
qed

end
