(* ===== verification/Land_Service.thy ===== *)
theory Land_Service
  imports Geo_Service
begin

text \<open>
  \<open>app/services/land_service.py\<close> and the \<open>/lands\<close> route of \<open>app/routers/map_router.py\<close>: the
  parcels with a boundary, all at once or a page at a time behind a cursor. \<open>json.loads\<close> is the
  field \<open>lib_loads\<close> of the library parameter.
\<close>

definition PUBLIC_LAND_FIELDS :: "pystr set" where
  "PUBLIC_LAND_FIELDS =
     {asc ''id'', asc ''address'', asc ''land_type'', asc ''area'', asc ''adm_property'', asc ''gen_property'',
      asc ''contact''}"

text \<open>The columns of a row, in the order of \<open>SELECT *\<close>.\<close>

definition row_fields :: "land \<Rightarrow> payload" where
  "row_fields r =
     [(asc ''id'', JInt (land_id r)), (asc ''address'', JStr (address r)), (asc ''land_type'', JStr (land_type r)),
      (asc ''area'', case area r of None \<Rightarrow> JNull | Some x \<Rightarrow> JFloat x),
      (asc ''adm_property'', JStr (adm_property r)), (asc ''gen_property'', JStr (gen_property r)),
      (asc ''contact'', JStr (contact r)),
      (asc ''geom'', case geom r of None \<Rightarrow> JNull | Some g \<Rightarrow> JStr g)]"

definition land_feature :: "pylib \<Rightarrow> land \<Rightarrow> json result" where
  "land_feature lib r =
     bindR (lib_loads lib (the (geom r))) (\<lambda>geometry. Inr (JObj
       [(asc ''type'', JStr (asc ''Feature'')),
        (asc ''geometry'', geometry),
        (asc ''properties'', JObj (filter (\<lambda>(k, _). k \<in> PUBLIC_LAND_FIELDS) (row_fields r)))]))"

record feature_collection =
  fc_type :: pystr
  fc_features :: "json list"

record land_page =
  page_type :: pystr
  page_features :: "json list"
  next_cursor :: "pystr option"

definition get_public_land_features :: "pylib \<Rightarrow> database \<Rightarrow> feature_collection result" where
  "get_public_land_features lib d =
     bindR (mapR (land_feature lib) (fetch_lands_with_geom (poi d))) (\<lambda>features.
       Inr \<lparr>fc_type = asc ''FeatureCollection'', fc_features = features\<rparr>)"

definition get_public_land_features_page :: "pylib \<Rightarrow> int option \<Rightarrow> int \<Rightarrow> database \<Rightarrow> land_page result" where
  "get_public_land_features_page lib cursor limit d =
     (let rows = fetch_lands_with_geom_page (poi d) cursor limit in
      bindR (mapR (land_feature lib) rows) (\<lambda>features.
        let next_id = (if rows = [] then None else Some (land_id (last rows)));
            has_more = (int (length rows) = limit)
        in Inr \<lparr>page_type = asc ''FeatureCollection'', page_features = features,
                next_cursor = (if has_more then map_option str_of_int next_id else None)\<rparr>))"

section \<open>The route\<close>

definition MAX_LANDS_PAGE_LIMIT :: int where
  "MAX_LANDS_PAGE_LIMIT = 2000"

definition MAX_LAND_CURSOR :: int where
  "MAX_LAND_CURSOR = 2 ^ 63 - 1"

definition parse_cursor :: "pystr option \<Rightarrow> int option result" where
  "parse_cursor raw_cursor =
     (case raw_cursor of
        None \<Rightarrow> Inr None
      | Some raw \<Rightarrow>
          if strip raw = [] then Inr None
          else bindR (py_int raw) (\<lambda>cursor.
            if cursor < 0 \<or> MAX_LAND_CURSOR < cursor
            then Inl (ValueErr (Some (asc ''cursor is out of range'')))
            else Inr (Some cursor)))"

definition get_lands ::
  "(exn \<Rightarrow> pystr) \<Rightarrow> pylib \<Rightarrow> int \<Rightarrow> pystr option \<Rightarrow> database \<Rightarrow> land_page result" where
  "get_lands str_of_exn lib limit cursor d =
     (let clamped_limit = max 1 (min limit MAX_LANDS_PAGE_LIMIT) in
      case parse_cursor cursor of
        Inl e \<Rightarrow> Inl (HTTPException 400 (str_of_exn e))
      | Inr parsed_cursor \<Rightarrow> get_public_land_features_page lib parsed_cursor clamped_limit d)"

text \<open>A reader that follows \<open>nextCursor\<close> until there is none.\<close>

fun read_lands ::
  "nat \<Rightarrow> (exn \<Rightarrow> pystr) \<Rightarrow> pylib \<Rightarrow> int \<Rightarrow> pystr option \<Rightarrow> database \<Rightarrow> json list result option" where
  "read_lands 0 str_of_exn lib limit cursor d = None"
| "read_lands (Suc n) str_of_exn lib limit cursor d =
     (case get_lands str_of_exn lib limit cursor d of
        Inl e \<Rightarrow> Some (Inl e)
      | Inr page \<Rightarrow>
          (case next_cursor page of
             None \<Rightarrow> Some (Inr (page_features page))
           | Some c \<Rightarrow>
               map_option (\<lambda>r. bindR r (\<lambda>fs. Inr (page_features page @ fs)))
                 (read_lands n str_of_exn lib limit (Some c) d)))"

section \<open>Cursors\<close>

lemma str_of_int_nonspace: "strip (str_of_int i) \<noteq> []"
proof -
  have "\<not> list_all is_space (str_of_int i)"
  proof
    assume all: "list_all is_space (str_of_int i)"
    have "last (str_of_int i) = last (nat_digits (nat \<bar>i\<bar>))" by (simp add: str_of_int_def)
    then have "48 \<le> last (str_of_int i) \<and> last (str_of_int i) \<le> 57"
      using nat_digits_ascii [OF last_in_set [OF nat_digits_ne]] by simp
    moreover have "str_of_int i \<noteq> []" by (simp add: str_of_int_def)
    ultimately show False
      using all by (auto simp: list_all_iff is_space_def dest!: last_in_set)
  qed
  then show ?thesis by (simp add: strip_eq_Nil_iff)
qed

lemma small_int_digits: "\<bar>i\<bar> \<le> MAX_LAND_CURSOR \<Longrightarrow> \<bar>i\<bar> < 10 ^ MAX_INT_DIGITS"
proof -
  assume "\<bar>i\<bar> \<le> MAX_LAND_CURSOR"
  also have "MAX_LAND_CURSOR < 10 ^ 20" by (simp add: MAX_LAND_CURSOR_def)
  also have "(10 :: int) ^ 20 \<le> 10 ^ MAX_INT_DIGITS"
    by (rule power_increasing) (simp_all add: MAX_INT_DIGITS_def)
  finally show ?thesis .
qed

text \<open>A cursor the program prints is a cursor it reads back.\<close>

lemma parse_cursor_str:
  "0 \<le> i \<Longrightarrow> i \<le> MAX_LAND_CURSOR \<Longrightarrow> parse_cursor (Some (str_of_int i)) = Inr (Some i)"
  using py_int_str_of_int [OF small_int_digits, of i] by (simp add: parse_cursor_def str_of_int_nonspace)

text \<open>No cursor and cursor 0 read the same page.\<close>

lemma page_from_start:
  assumes "poi_ok t"
  shows "fetch_lands_with_geom_page t None n = fetch_lands_with_geom_page t (Some 0) n"
proof -
  have "filter (\<lambda>r. geom r \<noteq> None \<and> 0 < land_id r) (poi_rows t) = filter (\<lambda>r. geom r \<noteq> None) (poi_rows t)"
    using poi_ok_pos [OF assms] by (intro filter_cong) auto
  then show ?thesis unfolding fetch_lands_with_geom_page_def by simp
qed

lemma page_rows:
  assumes "poi_ok t" "0 \<le> n"
  shows "fetch_lands_with_geom_page t c n =
    take (nat n) (filter (\<lambda>r. (case c of None \<Rightarrow> 0 | Some a \<Rightarrow> a) < land_id r) (fetch_lands_with_geom t))"
  using geom_page_eq [OF assms(1), of _ "nat n"] assms page_from_start [OF assms(1), of n]
  by (cases c) simp_all

lemma read_lands_from:
  assumes ok: "poi_ok (poi d)" and ids: "poi_seq (poi d) \<le> MAX_LAND_CURSOR"
    and feat: "\<And>r. r \<in> set (fetch_lands_with_geom (poi d)) \<Longrightarrow> land_feature lib r = Inr (f r)"
  shows "parse_cursor c = Inr pc \<Longrightarrow>
    length (filter (\<lambda>r. (case pc of None \<Rightarrow> 0 | Some a \<Rightarrow> a) < land_id r) (fetch_lands_with_geom (poi d))) < fuel \<Longrightarrow>
    read_lands fuel str_of_exn lib limit c d =
      Some (Inr (map f (filter (\<lambda>r. (case pc of None \<Rightarrow> 0 | Some a \<Rightarrow> a) < land_id r) (fetch_lands_with_geom (poi d)))))"
proof (induction fuel arbitrary: c pc)
  case (Suc fuel)
  let ?R = "fetch_lands_with_geom (poi d)"
  define a where "a = (case pc of None \<Rightarrow> 0 | Some a \<Rightarrow> a)"
  define L where "L = max 1 (min limit MAX_LANDS_PAGE_LIMIT)"
  define F where "F = filter (\<lambda>r. a < land_id r) ?R"
  define rows where "rows = fetch_lands_with_geom_page (poi d) pc L"
  have L: "0 < L" by (simp add: L_def)
  have rows: "rows = take (nat L) F" using page_rows [OF ok, of L pc] L by (simp add: rows_def F_def a_def)
  have "set rows \<subseteq> set ?R" by (auto simp: rows F_def dest: in_set_takeD)
  then have fs: "mapR (land_feature lib) rows = Inr (map f rows)" by (intro mapR_total feat) auto
  show ?case
  proof (cases "int (length rows) = L")
    case False
    then have "length F \<le> nat L" unfolding rows using L by (auto simp: min_def split: if_splits)
    then have "rows = F" unfolding rows by simp
    with False Suc.prems(1) fs show ?thesis
      by (simp add: get_lands_def get_public_land_features_page_def L_def [symmetric] rows_def [symmetric] Let_def
          F_def a_def)
  next
    case True
    with L have ne: "rows \<noteq> []" by auto
    define b where "b = land_id (last rows)"
    have pg: "fetch_lands_with_geom_page (poi d) (Some a) (int (nat L)) = rows"
      using page_rows [OF ok, of L "Some a"] L by (simp add: rows F_def)
    have split: "F = rows @ filter (\<lambda>r. b < land_id r) ?R"
      using geom_pages.page_split [OF ok, of a "nat L"] ne unfolding pg F_def b_def by simp
    have "last rows \<in> set ?R" using ne \<open>set rows \<subseteq> set ?R\<close> last_in_set by blast
    then have "last rows \<in> set (poi_rows (poi d))" by (simp add: fetch_lands_with_geom_def)
    then have b: "0 \<le> b" "b \<le> MAX_LAND_CURSOR"
      using ok ids unfolding poi_ok_def b_def by fastforce+
    have "length (filter (\<lambda>r. b < land_id r) ?R) < length F" using ne by (simp add: split)
    then have "length (filter (\<lambda>r. b < land_id r) ?R) < fuel" using Suc.prems(2) by (simp add: F_def a_def)
    with Suc.IH [of "Some (str_of_int b)" "Some b"] parse_cursor_str [OF b]
    have "read_lands fuel str_of_exn lib limit (Some (str_of_int b)) d =
        Some (Inr (map f (filter (\<lambda>r. b < land_id r) ?R)))" by simp
    with True Suc.prems(1) fs ne have "read_lands (Suc fuel) str_of_exn lib limit c d = Some (Inr (map f F))"
      by (simp add: get_lands_def get_public_land_features_page_def L_def [symmetric] rows_def [symmetric] Let_def
          b_def split)
    then show ?thesis by (simp add: F_def a_def)
  qed
qed simp

section \<open>Properties\<close>

text \<open>
  C20. Paging: whatever limit it asks for, a reader that follows \<open>nextCursor\<close> from the first page
  ends, after at most one request more than there are parcels with a boundary, with every such
  parcel exactly once and in identifier order, the list the unpaged service gives. The cursors
  are texts the server printed and read back.
\<close>

theorem paged_reading_complete:
  assumes "poi_ok (poi d)" and "poi_seq (poi d) \<le> MAX_LAND_CURSOR"
    and "\<And>r. r \<in> set (fetch_lands_with_geom (poi d)) \<Longrightarrow> isr (lib_loads lib (the (geom r)))"
    and "length (fetch_lands_with_geom (poi d)) < fuel"
  shows "(\<exists>fs. read_lands fuel str_of_exn lib limit None d = Some (Inr fs) \<and>
            get_public_land_features lib d = Inr \<lparr>fc_type = asc ''FeatureCollection'', fc_features = fs\<rparr> \<and>
            length fs = length (fetch_lands_with_geom (poi d))) \<and>
         sorted_wrt (\<lambda>r s. land_id r < land_id s) (fetch_lands_with_geom (poi d))"
proof -
  let ?R = "fetch_lands_with_geom (poi d)"
  define f where "f = (\<lambda>r. projr (land_feature lib r))"
  have feat: "land_feature lib r = Inr (f r)" if "r \<in> set ?R" for r
    using assms(3) [OF that] by (cases "lib_loads lib (the (geom r))") (simp_all add: land_feature_def f_def)
  have all: "filter (\<lambda>r. 0 < land_id r) ?R = ?R"
    using poi_ok_pos [OF assms(1)] by (intro filter_True) (auto simp: fetch_lands_with_geom_def)
  have "parse_cursor None = Inr None" by (simp add: parse_cursor_def)
  from read_lands_from [OF assms(1,2) feat this, of fuel str_of_exn limit] all assms(4)
  have "read_lands fuel str_of_exn lib limit None d = Some (Inr (map f ?R))" by simp
  moreover have "mapR (land_feature lib) ?R = Inr (map f ?R)" by (rule mapR_total) (rule feat)
  then have "get_public_land_features lib d = Inr \<lparr>fc_type = asc ''FeatureCollection'', fc_features = map f ?R\<rparr>"
    by (simp add: get_public_land_features_def)
  ultimately show ?thesis using geom_pages.rows_sorted [OF assms(1)] by simp
qed

definition sample_lib :: pylib where
  "sample_lib = \<lparr>lib_str = (\<lambda>_. []), lib_dumps = (\<lambda>_. []), lib_dumps_raw = (\<lambda>_. []), lib_loads = (\<lambda>s. Inr (JStr s))\<rparr>"

definition sample_map_db :: database where
  "sample_map_db = sample_db\<lparr>poi := update_geom 2 (asc ''{}'') (update_geom 1 (asc ''{}'') (poi sample_db))\<rparr>"

lemma paged_reading_complete_witness:
  "\<exists>fs. read_lands 3 (\<lambda>_. []) sample_lib 1 None sample_map_db = Some (Inr fs) \<and> length fs = 2"
proof -
  have "poi_ok (poi sample_map_db)"
    by (simp add: sample_map_db_def sample_db_ok poi_ok_update_geom)
  moreover have "poi_seq (poi sample_map_db) \<le> MAX_LAND_CURSOR" by code_simp
  moreover have "length (fetch_lands_with_geom (poi sample_map_db)) = 2" by code_simp
  ultimately show ?thesis
    using paged_reading_complete [of sample_map_db sample_lib 3 "\<lambda>_. []" 1] by (auto simp: sample_lib_def)
qed

text \<open>
  C21. A cursor is accepted exchanged for itself: \<open>parse_cursor\<close> reads the text of every identifier
  back, and it rejects exactly the texts that are not an integer from 0 to \<open>MAX_LAND_CURSOR\<close>,
  which the route answers with 400.
\<close>

theorem cursor_contract:
  "(0 \<le> i \<and> i \<le> MAX_LAND_CURSOR \<longrightarrow> parse_cursor (Some (str_of_int i)) = Inr (Some i)) \<and>
   (strip raw = [] \<longrightarrow> parse_cursor (Some raw) = Inr None) \<and>
   (strip raw \<noteq> [] \<longrightarrow>
      (isl (parse_cursor (Some raw)) \<longleftrightarrow> \<not> (\<exists>k. py_int raw = Inr k \<and> 0 \<le> k \<and> k \<le> MAX_LAND_CURSOR)) \<and>
      (isl (parse_cursor (Some raw)) \<longrightarrow>
         (\<exists>detail. get_lands str_of_exn lib limit (Some raw) d = Inl (HTTPException 400 detail))))"
proof -
  have "isl (parse_cursor (Some raw)) \<longleftrightarrow> \<not> (\<exists>k. py_int raw = Inr k \<and> 0 \<le> k \<and> k \<le> MAX_LAND_CURSOR)"
    if "strip raw \<noteq> []"
    using that by (cases "py_int raw") (auto simp: parse_cursor_def)
  moreover have "\<exists>detail. get_lands str_of_exn lib limit (Some raw) d = Inl (HTTPException 400 detail)"
    if "isl (parse_cursor (Some raw))"
    using that by (auto simp: get_lands_def isl_def)
  ultimately show ?thesis
    using parse_cursor_str [of i] by (auto simp: parse_cursor_def)
qed

lemma cursor_contract_witness:
  "parse_cursor (Some (str_of_int 42)) = Inr (Some 42) \<and> isl (parse_cursor (Some (asc ''4x'')))"
proof -
  have "strip (asc ''4x'') \<noteq> []" "isl (py_int (asc ''4x''))" by code_simp+
  then show ?thesis
    using cursor_contract [of 42 "asc ''4x''"] by (auto simp: MAX_LAND_CURSOR_def isl_def)
qed

end
