(* ===== verification/Map_Events.thy ===== *)
theory Map_Events
  imports Database Vworld
begin

text \<open>
  \<open>app/repositories/event_repository.py\<close>, \<open>app/services/map_event_service.py\<close> and the commands of
  \<open>app/services/public_event_commands.py\<close>: the search and click events of the map, their tables and
  the statistics of the dashboard. Tables keep their rows in rowid order; the schema exists.
\<close>

section \<open>Tables\<close>

record map_event =
  me_id :: int
  me_event_type :: pystr
  me_anon_id :: "pystr option"
  me_land_address :: "pystr option"
  me_region_name :: "pystr option"
  me_min_area_value :: "pyfloat option"
  me_min_area_bucket :: "pystr option"
  me_region_source :: pystr
  me_created_at :: pystr

record raw_query =
  rq_id :: int
  rq_created_at :: pystr
  rq_event_type :: pystr
  rq_anon_id :: "pystr option"
  raw_region_query :: "pystr option"
  raw_min_area_input :: "pystr option"
  raw_max_area_input :: "pystr option"
  raw_rent_only_input :: "pystr option"
  raw_land_id_input :: "pystr option"
  raw_land_address_input :: "pystr option"
  raw_click_source_input :: "pystr option"
  raw_payload_json :: pystr

record event_db =
  me_rows :: "map_event list"
  me_seq :: int
  rq_rows :: "raw_query list"
  rq_seq :: int

definition empty_event_db :: event_db where
  "empty_event_db = \<lparr>me_rows = [], me_seq = 0, rq_rows = [], rq_seq = 0\<rparr>"

definition insert_map_event ::
  "pystr \<Rightarrow> pystr \<Rightarrow> pystr option \<Rightarrow> pystr option \<Rightarrow> pystr option \<Rightarrow> pyfloat option \<Rightarrow> pystr option \<Rightarrow> pystr \<Rightarrow>
   event_db conn \<Rightarrow> unit result \<times> event_db conn" where
  "insert_map_event ts event_type anon_id land_address region_name min_area_value min_area_bucket region_source c =
     (case bind_texts [Some event_type, anon_id, land_address, region_name, min_area_bucket, Some region_source] of
        Inl e \<Rightarrow> (Inl e, c)
      | Inr _ \<Rightarrow>
          (Inr (), execute (\<lambda>d. d\<lparr>me_rows := me_rows d @
             [\<lparr>me_id = me_seq d + 1, me_event_type = event_type, me_anon_id = anon_id,
               me_land_address = land_address, me_region_name = region_name,
               me_min_area_value = Option.bind min_area_value sql_real, me_min_area_bucket = min_area_bucket,
               me_region_source = region_source, me_created_at = ts\<rparr>],
             me_seq := me_seq d + 1\<rparr>) c))"

text \<open>The columns of \<open>raw_query_log\<close> but its identifier and time are those of \<open>q\<close>.\<close>

definition insert_raw_query_log :: "pystr \<Rightarrow> raw_query \<Rightarrow> event_db conn \<Rightarrow> unit result \<times> event_db conn" where
  "insert_raw_query_log ts q c =
     (case bind_texts [Some (rq_event_type q), rq_anon_id q, raw_region_query q, raw_min_area_input q,
             raw_max_area_input q, raw_rent_only_input q, raw_land_id_input q, raw_land_address_input q,
             raw_click_source_input q, Some (raw_payload_json q)] of
        Inl e \<Rightarrow> (Inl e, c)
      | Inr _ \<Rightarrow>
          (Inr (), execute (\<lambda>d. d\<lparr>rq_rows := rq_rows d @ [q\<lparr>rq_id := rq_seq d + 1, rq_created_at := ts\<rparr>],
                                  rq_seq := rq_seq d + 1\<rparr>) c))"

section \<open>Commands\<close>

record SearchMapEventCommand =
  sc_anon_id :: json
  sc_min_area :: json
  sc_search_term :: json
  sc_raw_search_term :: json
  sc_raw_min_area_input :: json
  sc_raw_max_area_input :: json
  sc_raw_rent_only :: json

record LandClickMapEventCommand =
  lc_anon_id :: json
  lc_land_address :: json
  lc_land_id :: json
  lc_click_source :: json

datatype MapEventCommand =
    Search SearchMapEventCommand
  | LandClick LandClickMapEventCommand
  | UnknownEvent pystr json

definition EVENT_TYPE_SEARCH :: pystr where
  "EVENT_TYPE_SEARCH = asc ''search''"

definition EVENT_TYPE_LAND_CLICK :: pystr where
  "EVENT_TYPE_LAND_CLICK = asc ''land_click''"

definition build_map_event_command :: "pylib \<Rightarrow> payload \<Rightarrow> MapEventCommand" where
  "build_map_event_command lib payload =
     (let event_type = strip (case map_of payload (asc ''eventType'') of
                                None \<Rightarrow> [] | Some v \<Rightarrow> py_str (lib_str lib) v)
      in if event_type = EVENT_TYPE_SEARCH
         then Search
           \<lparr>sc_anon_id = jget payload ''anonId'', sc_min_area = jget payload ''minArea'',
            sc_search_term = jget payload ''searchTerm'', sc_raw_search_term = jget payload ''rawSearchTerm'',
            sc_raw_min_area_input = jget payload ''rawMinAreaInput'',
            sc_raw_max_area_input = jget payload ''rawMaxAreaInput'',
            sc_raw_rent_only = jget payload ''rawRentOnly''\<rparr>
         else if event_type = EVENT_TYPE_LAND_CLICK
         then LandClick
           \<lparr>lc_anon_id = jget payload ''anonId'', lc_land_address = jget payload ''landAddress'',
            lc_land_id = jget payload ''landId'', lc_click_source = jget payload ''clickSource''\<rparr>
         else UnknownEvent event_type (jget payload ''anonId''))"

section \<open>Normalisation\<close>

definition MIN_AREA_BUCKETS :: "(pyfloat \<times> pyfloat \<times> pystr) list" where
  "MIN_AREA_BUCKETS =
     [(Fin 0, Fin 100, asc ''0-99''), (Fin 100, Fin 200, asc ''100-199''), (Fin 200, Fin 300, asc ''200-299''),
      (Fin 300, Fin 500, asc ''300-499''), (Fin 500, Fin 1000, asc ''500-999'')]"

definition MIN_AREA_BUCKET_OVERFLOW :: pystr where
  "MIN_AREA_BUCKET_OVERFLOW = asc ''1000+''"

definition min_area_bucket_for :: "pyfloat \<Rightarrow> pystr" where
  "min_area_bucket_for min_area =
     (case find (\<lambda>(lo, hi, _). lo \<le> min_area \<and> min_area < hi) MIN_AREA_BUCKETS of
        Some (_, _, label) \<Rightarrow> label | None \<Rightarrow> MIN_AREA_BUCKET_OVERFLOW)"

definition normalize_anon_id :: "pylib \<Rightarrow> json \<Rightarrow> pystr option" where
  "normalize_anon_id lib raw =
     (if raw = JNull then None
      else let value = strip (py_str (lib_str lib) raw) in if value = [] then None else Some (take 128 value))"

definition normalize_land_address :: "pylib \<Rightarrow> json \<Rightarrow> pystr" where
  "normalize_land_address lib raw = (if raw = JNull then [] else take 500 (strip (py_str (lib_str lib) raw)))"

definition parse_min_area :: "json \<Rightarrow> pyfloat result" where
  "parse_min_area raw =
     (if raw = JNull \<or> raw = JStr [] then Inr (Fin 0)
      else case float_of_json raw of
             Inl (ValueErr _) \<Rightarrow> Inl (ValidationError 400 (asc ''minArea must be a number.''))
           | Inl TypeErr \<Rightarrow> Inl (ValidationError 400 (asc ''minArea must be a number.''))
           | Inl e \<Rightarrow> Inl e
           | Inr value \<Rightarrow>
               if value < Fin 0 then Inl (ValidationError 400 (asc ''minArea must be >= 0.'')) else Inr value)"

definition normalize_search_term :: "pylib \<Rightarrow> json \<Rightarrow> pystr" where
  "normalize_search_term lib raw =
     (let text = strip (str_or_empty (lib_str lib) raw)
      in if text = [] then []
         else take 200 (strip (filter (\<lambda>c. \<not> is_decimal_char c) text)))"

definition normalize_raw_text :: "pylib \<Rightarrow> json \<Rightarrow> nat \<Rightarrow> pystr option" where
  "normalize_raw_text lib raw max_length =
     (if raw = JNull then None else Some (take max_length (py_str (lib_str lib) raw)))"

definition serialize_raw_payload :: "pylib \<Rightarrow> payload \<Rightarrow> pystr" where
  "serialize_raw_payload lib payload = take 4000 (lib_dumps_raw lib (JObj payload))"

definition first_given :: "json \<Rightarrow> json \<Rightarrow> json" where
  "first_given a b = (if a \<noteq> JNull then a else b)"

record NormalizedSearchMapEvent =
  ns_anon_id :: "pystr option"
  ns_min_area_value :: pyfloat
  ns_min_area_bucket :: pystr
  ns_region_name :: "pystr option"
  ns_raw :: raw_query

record NormalizedLandClickMapEvent =
  nl_anon_id :: "pystr option"
  nl_land_address :: pystr
  nl_raw :: raw_query

definition build_search_raw_payload_json :: "pylib \<Rightarrow> SearchMapEventCommand \<Rightarrow> pystr" where
  "build_search_raw_payload_json lib c = serialize_raw_payload lib
     [(asc ''eventType'', JStr EVENT_TYPE_SEARCH), (asc ''anonId'', sc_anon_id c), (asc ''minArea'', sc_min_area c),
      (asc ''searchTerm'', sc_search_term c), (asc ''rawSearchTerm'', sc_raw_search_term c),
      (asc ''rawMinAreaInput'', sc_raw_min_area_input c), (asc ''rawMaxAreaInput'', sc_raw_max_area_input c),
      (asc ''rawRentOnly'', sc_raw_rent_only c)]"

definition build_land_click_raw_payload_json :: "pylib \<Rightarrow> LandClickMapEventCommand \<Rightarrow> pystr" where
  "build_land_click_raw_payload_json lib c = serialize_raw_payload lib
     [(asc ''eventType'', JStr EVENT_TYPE_LAND_CLICK), (asc ''anonId'', lc_anon_id c),
      (asc ''landAddress'', lc_land_address c), (asc ''landId'', lc_land_id c),
      (asc ''clickSource'', lc_click_source c)]"

definition normalize_search_map_event :: "pylib \<Rightarrow> SearchMapEventCommand \<Rightarrow> NormalizedSearchMapEvent result" where
  "normalize_search_map_event lib c =
     (let anon_id = normalize_anon_id lib (sc_anon_id c) in
      bindR (parse_min_area (sc_min_area c)) (\<lambda>min_area_value.
        let term = normalize_search_term lib (sc_search_term c) in
        Inr \<lparr>ns_anon_id = anon_id, ns_min_area_value = min_area_value,
             ns_min_area_bucket = min_area_bucket_for min_area_value,
             ns_region_name = (if term = [] then None else Some term),
             ns_raw = \<lparr>rq_id = 0, rq_created_at = [], rq_event_type = EVENT_TYPE_SEARCH, rq_anon_id = anon_id,
               raw_region_query = normalize_raw_text lib (first_given (sc_raw_search_term c) (sc_search_term c)) 1000,
               raw_min_area_input = normalize_raw_text lib (first_given (sc_raw_min_area_input c) (sc_min_area c)) 1000,
               raw_max_area_input = normalize_raw_text lib (sc_raw_max_area_input c) 1000,
               raw_rent_only_input = normalize_raw_text lib (sc_raw_rent_only c) 32,
               raw_land_id_input = None, raw_land_address_input = None, raw_click_source_input = None,
               raw_payload_json = build_search_raw_payload_json lib c\<rparr>\<rparr>))"

definition normalize_land_click_map_event ::
  "pylib \<Rightarrow> LandClickMapEventCommand \<Rightarrow> NormalizedLandClickMapEvent result" where
  "normalize_land_click_map_event lib c =
     (let land_address = normalize_land_address lib (lc_land_address c);
          anon_id = normalize_anon_id lib (lc_anon_id c)
      in if land_address = []
         then Inl (ValidationError 400 (asc ''landAddress is required for land_click.''))
         else Inr \<lparr>nl_anon_id = anon_id, nl_land_address = land_address,
           nl_raw = \<lparr>rq_id = 0, rq_created_at = [], rq_event_type = EVENT_TYPE_LAND_CLICK, rq_anon_id = anon_id,
             raw_region_query = None, raw_min_area_input = None, raw_max_area_input = None,
             raw_rent_only_input = None,
             raw_land_id_input = normalize_raw_text lib (lc_land_id c) 64,
             raw_land_address_input = normalize_raw_text lib (lc_land_address c) 1000,
             raw_click_source_input = normalize_raw_text lib (lc_click_source c) 32,
             raw_payload_json = build_land_click_raw_payload_json lib c\<rparr>\<rparr>)"

section \<open>Recording\<close>

text \<open>Two inserts and a commit on one connection; an exception leaves without the commit.\<close>

definition both_inserts ::
  "(event_db conn \<Rightarrow> unit result \<times> event_db conn) \<Rightarrow> (event_db conn \<Rightarrow> unit result \<times> event_db conn) \<Rightarrow>
   event_db \<Rightarrow> unit result \<times> event_db" where
  "both_inserts first second =
     db_connection (\<lambda>c. case first c of
        (Inl e, c) \<Rightarrow> (Inl e, c)
      | (Inr _, c) \<Rightarrow> (case second c of (Inl e, c) \<Rightarrow> (Inl e, c) | (Inr _, c) \<Rightarrow> (Inr (), commit c)))"

definition persist_search_map_event :: "pystr \<Rightarrow> NormalizedSearchMapEvent \<Rightarrow> event_db \<Rightarrow> unit result \<times> event_db" where
  "persist_search_map_event ts event =
     both_inserts
       (insert_map_event ts EVENT_TYPE_SEARCH (ns_anon_id event) None (ns_region_name event)
          (Some (ns_min_area_value event)) (Some (ns_min_area_bucket event)) (asc ''user_input''))
       (insert_raw_query_log ts (ns_raw event))"

definition persist_land_click_map_event ::
  "pystr \<Rightarrow> NormalizedLandClickMapEvent \<Rightarrow> event_db \<Rightarrow> unit result \<times> event_db" where
  "persist_land_click_map_event ts event =
     both_inserts
       (insert_map_event ts EVENT_TYPE_LAND_CLICK (nl_anon_id event) (Some (nl_land_address event)) None None None
          (asc ''derived_address''))
       (insert_raw_query_log ts (nl_raw event))"

definition record_map_event :: "pylib \<Rightarrow> pystr \<Rightarrow> MapEventCommand \<Rightarrow> event_db \<Rightarrow> unit result \<times> event_db" where
  "record_map_event lib ts command d =
     (case command of
        Search c \<Rightarrow>
          (case normalize_search_map_event lib c of
             Inl e \<Rightarrow> (Inl e, d) | Inr event \<Rightarrow> persist_search_map_event ts event d)
      | LandClick c \<Rightarrow>
          (case normalize_land_click_map_event lib c of
             Inl e \<Rightarrow> (Inl e, d) | Inr event \<Rightarrow> persist_land_click_map_event ts event d)
      | UnknownEvent _ _ \<Rightarrow> (Inl (ValidationError 400 (asc ''Unsupported eventType.'')), d))"

section \<open>Statistics\<close>

definition is_search :: "map_event \<Rightarrow> bool" where
  "is_search r \<longleftrightarrow> me_event_type r = EVENT_TYPE_SEARCH"

definition is_click :: "map_event \<Rightarrow> bool" where
  "is_click r \<longleftrightarrow> me_event_type r = EVENT_TYPE_LAND_CLICK"

definition anon_ids :: "map_event list \<Rightarrow> pystr list" where
  "anon_ids rs = map (the \<circ> me_anon_id) (filter (\<lambda>r. given (me_anon_id r)) rs)"

definition fetch_event_summary :: "event_db \<Rightarrow> int \<times> int \<times> int" where
  "fetch_event_summary d =
     (count_if is_search (me_rows d), count_if is_click (me_rows d), count_distinct (anon_ids (me_rows d)))"

definition fetch_top_regions :: "event_db \<Rightarrow> int \<Rightarrow> (pystr \<times> int) list" where
  "fetch_top_regions d limit =
     top_groups limit (map (the \<circ> me_region_name)
       (filter (\<lambda>r. is_search r \<and> me_region_source r = asc ''user_input'' \<and> given (me_region_name r)) (me_rows d)))"

definition fetch_top_min_area_buckets :: "event_db \<Rightarrow> int \<Rightarrow> (pystr \<times> int) list" where
  "fetch_top_min_area_buckets d limit =
     top_groups limit (map (the \<circ> me_min_area_bucket)
       (filter (\<lambda>r. is_search r \<and> given (me_min_area_bucket r)) (me_rows d)))"

definition fetch_top_clicked_lands :: "event_db \<Rightarrow> int \<Rightarrow> (pystr \<times> int \<times> int) list" where
  "fetch_top_clicked_lands d limit =
     (let rows = filter (\<lambda>r. is_click r \<and> given (me_land_address r)) (me_rows d)
      in map (\<lambda>(a, c). (a, c, count_distinct (anon_ids (filter (\<lambda>r. me_land_address r = Some a) rows))))
           (top_groups limit (map (the \<circ> me_land_address) rows)))"

text \<open>\<open>DATE(created_at)\<close> of a timestamp \<open>YYYY-MM-DD HH:MM:SS\<close>.\<close>

definition sql_date :: "pystr \<Rightarrow> pystr" where
  "sql_date ts = take 10 ts"

definition fetch_daily_event_counts :: "event_db \<Rightarrow> (pystr \<times> int \<times> int) list" where
  "fetch_daily_event_counts d =
     map (\<lambda>day. let rows = filter (\<lambda>r. sql_date (me_created_at r) = day) (me_rows d)
                in (day, count_if is_search rows, count_if is_click rows))
       (sort (remdups (map (\<lambda>r. sql_date (me_created_at r)) (me_rows d))))"

record admin_stats =
  as_summary :: "int \<times> int \<times> int"
  as_top_regions :: "(pystr \<times> int) list"
  as_top_min_area_buckets :: "(pystr \<times> int) list"
  as_top_clicked_lands :: "(pystr \<times> int \<times> int) list"
  as_daily_trend :: "(pystr \<times> int \<times> int) list"

definition get_admin_stats :: "int \<Rightarrow> event_db \<Rightarrow> admin_stats" where
  "get_admin_stats limit d =
     (let clamped_limit = max 1 (min limit 50)
      in \<lparr>as_summary = fetch_event_summary d,
          as_top_regions = fetch_top_regions d clamped_limit,
          as_top_min_area_buckets = fetch_top_min_area_buckets d clamped_limit,
          as_top_clicked_lands = fetch_top_clicked_lands d clamped_limit,
          as_daily_trend = fetch_daily_event_counts d\<rparr>)"

section \<open>What is stored\<close>

text \<open>The two rows one event leaves, within the bounds of their columns.\<close>

definition event_pair_ok :: "map_event \<Rightarrow> raw_query \<Rightarrow> bool" where
  "event_pair_ok e q \<longleftrightarrow>
     me_event_type e = rq_event_type q \<and> me_anon_id e = rq_anon_id q \<and> me_created_at e = rq_created_at q \<and>
     at_most 128 (me_anon_id e) \<and> at_most 1000 (raw_region_query q) \<and> at_most 1000 (raw_min_area_input q) \<and>
     at_most 1000 (raw_max_area_input q) \<and> at_most 32 (raw_rent_only_input q) \<and> at_most 64 (raw_land_id_input q) \<and>
     at_most 1000 (raw_land_address_input q) \<and> at_most 32 (raw_click_source_input q) \<and>
     length (raw_payload_json q) \<le> 4000 \<and>
     (if is_search e
      then me_land_address e = None \<and>
        (case me_region_name e of None \<Rightarrow> True
         | Some s \<Rightarrow> s \<noteq> [] \<and> length s \<le> 200 \<and> list_all (\<lambda>c. \<not> is_decimal_char c) s) \<and>
        (case me_min_area_value e of None \<Rightarrow> me_min_area_bucket e = Some MIN_AREA_BUCKET_OVERFLOW
         | Some x \<Rightarrow> \<not> x < Fin 0 \<and> me_min_area_bucket e = Some (min_area_bucket_for x))
      else is_click e \<and> me_region_name e = None \<and> me_min_area_value e = None \<and>
        (\<exists>a. me_land_address e = Some a \<and> a \<noteq> [] \<and> length a \<le> 500))"

lemma at_most_normalizers [simp]:
  "at_most n None" "at_most 128 (normalize_anon_id lib raw)" "at_most n (normalize_raw_text lib raw n)"
  by (simp_all add: at_most_def normalize_anon_id_def normalize_raw_text_def Let_def)

lemma normalize_search_term_bounds:
  "length (normalize_search_term lib raw) \<le> 200 \<and>
   list_all (\<lambda>c. \<not> is_decimal_char c) (normalize_search_term lib raw)"
proof -
  have "list_all (\<lambda>c. \<not> is_decimal_char c) (take 200 (strip (filter (\<lambda>c. \<not> is_decimal_char c) s)))" for s
    using set_strip [of "filter (\<lambda>c. \<not> is_decimal_char c) s"] by (auto simp: list_all_iff dest!: in_set_takeD)
  then show ?thesis by (simp add: normalize_search_term_def Let_def)
qed

lemma both_inserts_spec:
  "case both_inserts (insert_map_event ts et an la rn mv mb rs) (insert_raw_query_log ts q) d of (r, d') \<Rightarrow>
     (case r of Inl e \<Rightarrow> d' = d \<and> \<not> is_service_error e
      | Inr _ \<Rightarrow>
        d' = \<lparr>me_rows = me_rows d @
                [\<lparr>me_id = me_seq d + 1, me_event_type = et, me_anon_id = an, me_land_address = la, me_region_name = rn,
                  me_min_area_value = Option.bind mv sql_real, me_min_area_bucket = mb, me_region_source = rs,
                  me_created_at = ts\<rparr>],
              me_seq = me_seq d + 1,
              rq_rows = rq_rows d @ [q\<lparr>rq_id := rq_seq d + 1, rq_created_at := ts\<rparr>], rq_seq = rq_seq d + 1\<rparr>)"
proof -
  have err: "\<not> is_service_error e" if "bind_texts xs = Inl e" for xs e
    using bind_texts_Inl [OF that] by simp
  show ?thesis
    by (auto simp: both_inserts_def db_connection_def insert_map_event_def insert_raw_query_log_def
        dest: err split: sum.splits prod.splits)
qed

lemma both_inserts_pair:
  assumes "event_pair_ok
      \<lparr>me_id = me_seq d + 1, me_event_type = et, me_anon_id = an, me_land_address = la, me_region_name = rn,
       me_min_area_value = Option.bind mv sql_real, me_min_area_bucket = mb, me_region_source = rs,
       me_created_at = ts\<rparr> (q\<lparr>rq_id := rq_seq d + 1, rq_created_at := ts\<rparr>)"
  shows "case both_inserts (insert_map_event ts et an la rn mv mb rs) (insert_raw_query_log ts q) d of (r, d') \<Rightarrow>
     (case r of
        Inl _ \<Rightarrow> d' = d
      | Inr _ \<Rightarrow> \<exists>e q. event_pair_ok e q \<and> me_id e = me_seq d + 1 \<and> rq_id q = rq_seq d + 1 \<and> me_created_at e = ts \<and>
          d' = \<lparr>me_rows = me_rows d @ [e], me_seq = me_seq d + 1, rq_rows = rq_rows d @ [q], rq_seq = rq_seq d + 1\<rparr>)"
proof -
  obtain r d' where b: "both_inserts (insert_map_event ts et an la rn mv mb rs) (insert_raw_query_log ts q) d = (r, d')"
    by fastforce
  show ?thesis
  proof (cases r)
    case (Inr u)
    with both_inserts_spec [where ts = ts and et = et and an = an and la = la and rn = rn and mv = mv and mb = mb
        and rs = rs and q = q and d = d] b assms
    show ?thesis
      unfolding b prod.case Inr sum.case
      by (intro exI [of _ "\<lparr>me_id = me_seq d + 1, me_event_type = et, me_anon_id = an, me_land_address = la,
            me_region_name = rn, me_min_area_value = Option.bind mv sql_real, me_min_area_bucket = mb,
            me_region_source = rs, me_created_at = ts\<rparr>"] exI [of _ "q\<lparr>rq_id := rq_seq d + 1, rq_created_at := ts\<rparr>"])
         simp
  next
    case (Inl e)
    with both_inserts_spec [where ts = ts and et = et and an = an and la = la and rn = rn and mv = mv and mb = mb
        and rs = rs and q = q and d = d] b
    show ?thesis by simp
  qed
qed

section \<open>Samples\<close>

definition sample_search :: "pystr \<Rightarrow> pystr \<Rightarrow> map_event" where
  "sample_search ts region =
     \<lparr>me_id = 1, me_event_type = EVENT_TYPE_SEARCH, me_anon_id = Some (asc ''v''), me_land_address = None,
      me_region_name = Some region, me_min_area_value = Some (Fin 0), me_min_area_bucket = Some (asc ''0-99''),
      me_region_source = asc ''user_input'', me_created_at = ts\<rparr>"

definition sample_event_db :: event_db where
  "sample_event_db =
     \<lparr>me_rows =
        [sample_search (asc ''2025-01-01 00:00:00'') (asc ''y''), sample_search (asc ''2025-01-01 00:00:01'') (asc ''x''),
         sample_search (asc ''2025-01-02 00:00:00'') (asc ''y''),
         sample_search (asc ''2025-01-02 00:00:00'') []
           \<lparr>me_event_type := EVENT_TYPE_LAND_CLICK, me_region_name := None, me_land_address := Some (asc ''a'')\<rparr>],
      me_seq = 4, rq_rows = [], rq_seq = 0\<rparr>"

lemma search_pair_ok:
  assumes "normalize_search_map_event lib c = Inr ev"
  shows "event_pair_ok
    \<lparr>me_id = i, me_event_type = EVENT_TYPE_SEARCH, me_anon_id = ns_anon_id ev, me_land_address = None,
     me_region_name = ns_region_name ev, me_min_area_value = Option.bind (Some (ns_min_area_value ev)) sql_real,
     me_min_area_bucket = Some (ns_min_area_bucket ev), me_region_source = rs, me_created_at = ts\<rparr>
    ((ns_raw ev)\<lparr>rq_id := j, rq_created_at := ts\<rparr>)"
proof -
  obtain v where v: "parse_min_area (sc_min_area c) = Inr v"
    and ev: "ns_min_area_value ev = v" "ns_min_area_bucket ev = min_area_bucket_for v"
      "ns_anon_id ev = normalize_anon_id lib (sc_anon_id c)"
      "ns_region_name ev = (let t = normalize_search_term lib (sc_search_term c) in if t = [] then None else Some t)"
    and q: "rq_event_type (ns_raw ev) = EVENT_TYPE_SEARCH" "rq_anon_id (ns_raw ev) = ns_anon_id ev"
      "at_most 1000 (raw_region_query (ns_raw ev))" "at_most 1000 (raw_min_area_input (ns_raw ev))"
      "at_most 1000 (raw_max_area_input (ns_raw ev))" "at_most 32 (raw_rent_only_input (ns_raw ev))"
      "raw_land_id_input (ns_raw ev) = None" "raw_land_address_input (ns_raw ev) = None"
      "raw_click_source_input (ns_raw ev) = None" "length (raw_payload_json (ns_raw ev)) \<le> 4000"
    using assms by (auto simp: normalize_search_map_event_def Let_def bindR_Inr_iff build_search_raw_payload_json_def
        serialize_raw_payload_def)
  have "\<not> v < Fin 0" using v by (auto simp: parse_min_area_def split: if_splits sum.splits exn.splits)
  moreover have "min_area_bucket_for NaN = MIN_AREA_BUCKET_OVERFLOW"
    by (simp add: min_area_bucket_for_def MIN_AREA_BUCKETS_def)
  ultimately show ?thesis
    using ev q normalize_search_term_bounds [of lib "sc_search_term c"]
    by (simp add: event_pair_ok_def is_search_def sql_real_def Let_def)
qed

lemma click_pair_ok:
  assumes "normalize_land_click_map_event lib c = Inr ev"
  shows "event_pair_ok
    \<lparr>me_id = i, me_event_type = EVENT_TYPE_LAND_CLICK, me_anon_id = nl_anon_id ev, me_land_address = Some (nl_land_address ev),
     me_region_name = None, me_min_area_value = Option.bind None sql_real, me_min_area_bucket = None, me_region_source = rs,
     me_created_at = ts\<rparr>
    ((nl_raw ev)\<lparr>rq_id := j, rq_created_at := ts\<rparr>)"
proof -
  have "nl_anon_id ev = normalize_anon_id lib (lc_anon_id c)" "nl_land_address ev \<noteq> []" "length (nl_land_address ev) \<le> 500"
    and "rq_event_type (nl_raw ev) = EVENT_TYPE_LAND_CLICK" "rq_anon_id (nl_raw ev) = nl_anon_id ev"
      "raw_region_query (nl_raw ev) = None" "raw_min_area_input (nl_raw ev) = None"
      "raw_max_area_input (nl_raw ev) = None" "raw_rent_only_input (nl_raw ev) = None"
      "at_most 64 (raw_land_id_input (nl_raw ev))" "at_most 1000 (raw_land_address_input (nl_raw ev))"
      "at_most 32 (raw_click_source_input (nl_raw ev))" "length (raw_payload_json (nl_raw ev)) \<le> 4000"
    using assms by (auto simp: normalize_land_click_map_event_def normalize_land_address_def Let_def
        build_land_click_raw_payload_json_def serialize_raw_payload_def split: if_splits)
  then show ?thesis
    by (simp add: event_pair_ok_def is_search_def is_click_def EVENT_TYPE_SEARCH_def EVENT_TYPE_LAND_CLICK_def)
qed

lemma record_map_event_spec:
  "case record_map_event lib ts command d of (r, d') \<Rightarrow>
     (case r of
        Inl _ \<Rightarrow> d' = d
      | Inr _ \<Rightarrow> \<exists>e q. event_pair_ok e q \<and> me_id e = me_seq d + 1 \<and> rq_id q = rq_seq d + 1 \<and> me_created_at e = ts \<and>
          d' = \<lparr>me_rows = me_rows d @ [e], me_seq = me_seq d + 1, rq_rows = rq_rows d @ [q], rq_seq = rq_seq d + 1\<rparr>)"
proof (cases command)
  case (Search c)
  show ?thesis
  proof (cases "normalize_search_map_event lib c")
    case (Inr ev)
    show ?thesis
      unfolding Search Inr record_map_event_def MapEventCommand.case sum.case persist_search_map_event_def
      by (intro both_inserts_pair search_pair_ok [OF Inr])
  qed (simp add: Search record_map_event_def)
next
  case (LandClick c)
  show ?thesis
  proof (cases "normalize_land_click_map_event lib c")
    case (Inr ev)
    show ?thesis
      unfolding LandClick Inr record_map_event_def MapEventCommand.case sum.case persist_land_click_map_event_def
      by (intro both_inserts_pair click_pair_ok [OF Inr])
  qed (simp add: LandClick record_map_event_def)
qed (simp add: record_map_event_def)

section \<open>Properties\<close>

text \<open>
  C25. Recording an event stores a map event and a raw query log in one transaction, of the same type,
  visitor and time and within the bounds of every column, or it raises and stores neither.
\<close>

theorem event_recorded_whole:
  "case record_map_event lib ts command d of (r, d') \<Rightarrow>
     (case r of
        Inl _ \<Rightarrow> d' = d
      | Inr _ \<Rightarrow> \<exists>e q. event_pair_ok e q \<and> me_id e = me_seq d + 1 \<and> rq_id q = rq_seq d + 1 \<and> me_created_at e = ts \<and>
          d' = \<lparr>me_rows = me_rows d @ [e], me_seq = me_seq d + 1, rq_rows = rq_rows d @ [q], rq_seq = rq_seq d + 1\<rparr>)"
  by (rule record_map_event_spec)

text \<open>
  The buckets cover the areas without overlap: an area's bucket is the one whose limits hold it,
  and only the areas from 1000 on, the infinite and the NaN are in the overflow bucket.
\<close>

theorem min_area_buckets_exact:
  "min_area_bucket_for (Fin x) =
     (if x < 0 then MIN_AREA_BUCKET_OVERFLOW
      else if x < 100 then asc ''0-99'' else if x < 200 then asc ''100-199'' else if x < 300 then asc ''200-299''
      else if x < 500 then asc ''300-499'' else if x < 1000 then asc ''500-999'' else MIN_AREA_BUCKET_OVERFLOW) \<and>
   min_area_bucket_for PosInf = MIN_AREA_BUCKET_OVERFLOW \<and> min_area_bucket_for NaN = MIN_AREA_BUCKET_OVERFLOW"
  by (simp add: min_area_bucket_for_def MIN_AREA_BUCKETS_def)

text \<open>
  What a ranking of at most \<open>n\<close> keys promises of the number \<open>count\<close> that each key has: its keys are texts that occur, each
  once and with its number, in descending order with ties by key; and a key that occurs is left out only if the ranking is full,
  and then it does not come before any that is listed.
\<close>

definition ranking :: "nat \<Rightarrow> (pystr \<Rightarrow> int) \<Rightarrow> (pystr \<times> int) list \<Rightarrow> bool" where
  "ranking n count tops \<longleftrightarrow>
     length tops \<le> n \<and> distinct (map fst tops) \<and> sorted (map (\<lambda>(k, c). (- c, k)) tops) \<and>
     (\<forall>(k, c) \<in> set tops. k \<noteq> [] \<and> 0 < c \<and> c = count k) \<and>
     (\<forall>k'. k' \<noteq> [] \<and> 0 < count k' \<and> k' \<notin> fst ` set tops \<longrightarrow>
        length tops = n \<and> (\<forall>(k, c) \<in> set tops. (- c, k) \<le> (- count k', k')))"

lemma top_groups_ranking:
  assumes "0 \<le> n" "[] \<notin> set keys" "\<And>k. k \<noteq> [] \<Longrightarrow> int (count_list keys k) = count k"
  shows "ranking (nat n) count (top_groups n keys)"
proof -
  let ?top = "top_groups n keys"
  note top = top_groups_spec [OF assms(1), where keys = keys]
  have listed: "k \<noteq> [] \<and> 0 < c \<and> c = count k" if "(k, c) \<in> set ?top" for k c
  proof -
    from top(3) [OF that] have k: "k \<in> set keys" "c = int (count_list keys k)" by simp_all
    then have "k \<noteq> []" using assms(2) by blast
    with k assms(3) [of k] count_list_0_iff [of keys k] show ?thesis by auto
  qed
  have rest: "length ?top = nat n \<and> (\<forall>(k, c) \<in> set ?top. (- c, k) \<le> (- count k', k'))"
    if "k' \<noteq> []" "0 < count k'" "k' \<notin> fst ` set ?top" for k'
  proof
    have k': "k' \<in> set keys" using assms(3) [OF that(1)] that(2) count_list_0_iff [of keys k'] by auto
    show "\<forall>(k, c) \<in> set ?top. (- c, k) \<le> (- count k', k')"
      using top(5) [OF _ k' that(3)] by (auto simp: assms(3) [OF that(1)])
    show "length ?top = nat n"
    proof (rule ccontr)
      assume "length ?top \<noteq> nat n"
      then have "length ?top = card (set keys)" using top(4) by (simp add: length_remdups_card_conv min_def split: if_splits)
      moreover have "card (set (map fst ?top)) = length ?top" using distinct_card [OF top(1)] by simp
      moreover have "set (map fst ?top) \<subseteq> set keys" using top(3) by auto
      ultimately have "set (map fst ?top) = set keys" by (intro card_subset_eq) simp_all
      with k' that(3) show False by simp
    qed
  qed
  show ?thesis
    unfolding ranking_def using top(1,2,4) listed rest by auto
qed

lemma keys_count:
  "k \<noteq> [] \<Longrightarrow> int (count_list (map (the \<circ> f) (filter (\<lambda>r. P r \<and> given (f r)) rows)) k) = count_if (\<lambda>r. P r \<and> f r = Some k) rows"
  by (induction rows) (auto simp: count_if_def given_def)

lemma keys_nonempty: "[] \<notin> set (map (the \<circ> f) (filter (\<lambda>r. P r \<and> given (f r)) rows))"
  by (auto simp: given_def)

lemma keyed_ranking:
  "0 \<le> n \<Longrightarrow> ranking (nat n) (\<lambda>k. count_if (\<lambda>r. P r \<and> f r = Some k) rows)
     (top_groups n (map (the \<circ> f) (filter (\<lambda>r. P r \<and> given (f r)) rows)))"
  by (intro top_groups_ranking keys_nonempty keys_count)

lemma visitors_card: "count_distinct (anon_ids rs) = int (card {v. v \<noteq> [] \<and> (\<exists>r \<in> set rs. me_anon_id r = Some v)})"
proof -
  have "set (anon_ids rs) = {v. v \<noteq> [] \<and> (\<exists>r \<in> set rs. me_anon_id r = Some v)}"
    by (force simp: anon_ids_def given_def split: option.splits)
  then show ?thesis by (simp add: count_distinct_def length_remdups_card_conv)
qed

lemma clicked_lands_ranking:
  assumes "0 \<le> n"
  shows "ranking (nat n) (\<lambda>a. count_if (\<lambda>r. is_click r \<and> me_land_address r = Some a) (me_rows d))
      (map (\<lambda>(a, c, _). (a, c)) (fetch_top_clicked_lands d n))"
    and "\<forall>(a, c, u) \<in> set (fetch_top_clicked_lands d n).
      u = int (card {v. v \<noteq> [] \<and> (\<exists>r \<in> set (me_rows d). is_click r \<and> me_land_address r = Some a \<and> me_anon_id r = Some v)})"
proof -
  let ?rows = "filter (\<lambda>r. is_click r \<and> given (me_land_address r)) (me_rows d)"
  let ?top = "top_groups n (map (the \<circ> me_land_address) ?rows)"
  have "map (\<lambda>(a, c, _). (a, c)) (fetch_top_clicked_lands d n) = ?top"
    by (simp add: fetch_top_clicked_lands_def Let_def comp_def split_beta)
  with keyed_ranking [OF assms, of is_click me_land_address "me_rows d"]
  show "ranking (nat n) (\<lambda>a. count_if (\<lambda>r. is_click r \<and> me_land_address r = Some a) (me_rows d))
      (map (\<lambda>(a, c, _). (a, c)) (fetch_top_clicked_lands d n))" by simp
  have "count_distinct (anon_ids (filter (\<lambda>r. me_land_address r = Some a) ?rows)) =
      int (card {v. v \<noteq> [] \<and> (\<exists>r \<in> set (me_rows d). is_click r \<and> me_land_address r = Some a \<and> me_anon_id r = Some v)})"
    if "(a, c) \<in> set ?top" for a c
  proof -
    have "a \<noteq> []" using keyed_ranking [OF assms, of is_click me_land_address "me_rows d"] that by (auto simp: ranking_def)
    then have "{v. v \<noteq> [] \<and> (\<exists>r \<in> set (filter (\<lambda>r. me_land_address r = Some a) ?rows). me_anon_id r = Some v)} =
        {v. v \<noteq> [] \<and> (\<exists>r \<in> set (me_rows d). is_click r \<and> me_land_address r = Some a \<and> me_anon_id r = Some v)}"
      by (auto simp: given_def)
    then show ?thesis unfolding visitors_card by simp
  qed
  then show "\<forall>(a, c, u) \<in> set (fetch_top_clicked_lands d n).
      u = int (card {v. v \<noteq> [] \<and> (\<exists>r \<in> set (me_rows d). is_click r \<and> me_land_address r = Some a \<and> me_anon_id r = Some v)})"
    by (auto simp: fetch_top_clicked_lands_def Let_def)
qed

text \<open>
  C26. The dashboard's figures are those of the log: the summary counts its searches, its clicks and its visitors; the
  daily trend lists each day once in order, with the searches and clicks of that day, and adds up to the summary; the regions, the area buckets and the clicked parcels are
  the exact rankings, of at most \<open>limit\<close> brought between 1 and 50, of the searches with a region from the user, of the searches with
  a bucket, and of the clicks on a parcel, the last with the number of its visitors.
\<close>

theorem dashboard_consistent:
  "let s = get_admin_stats limit d; (searches, clicks, visitors) = as_summary s; n = nat (max 1 (min limit 50)) in
     searches = count_if (\<lambda>r. me_event_type r = asc ''search'') (me_rows d) \<and>
     clicks = count_if (\<lambda>r. me_event_type r = asc ''land_click'') (me_rows d) \<and>
     visitors = int (card {v. v \<noteq> [] \<and> (\<exists>r \<in> set (me_rows d). me_anon_id r = Some v)}) \<and>
     sum_list (map (\<lambda>(_, n, _). n) (as_daily_trend s)) = searches \<and>
     sum_list (map (\<lambda>(_, _, n). n) (as_daily_trend s)) = clicks \<and>
     sorted_wrt (<) (map fst (as_daily_trend s)) \<and>
     (\<forall>(day, n, c) \<in> set (as_daily_trend s).
        n = count_if (\<lambda>r. me_event_type r = asc ''search'' \<and> take 10 (me_created_at r) = day) (me_rows d) \<and>
        c = count_if (\<lambda>r. me_event_type r = asc ''land_click'' \<and> take 10 (me_created_at r) = day) (me_rows d)) \<and>
     ranking n (\<lambda>k. count_if (\<lambda>r. (me_event_type r = asc ''search'' \<and> me_region_source r = asc ''user_input'') \<and> me_region_name r = Some k)
       (me_rows d)) (as_top_regions s) \<and>
     ranking n (\<lambda>k. count_if (\<lambda>r. me_event_type r = asc ''search'' \<and> me_min_area_bucket r = Some k) (me_rows d))
       (as_top_min_area_buckets s) \<and>
     ranking n (\<lambda>a. count_if (\<lambda>r. me_event_type r = asc ''land_click'' \<and> me_land_address r = Some a) (me_rows d))
       (map (\<lambda>(a, c, _). (a, c)) (as_top_clicked_lands s)) \<and>
     (\<forall>(a, c, u) \<in> set (as_top_clicked_lands s). u = int (card {v. v \<noteq> [] \<and>
        (\<exists>r \<in> set (me_rows d). me_event_type r = asc ''land_click'' \<and> me_land_address r = Some a \<and> me_anon_id r = Some v)}))"
proof -
  let ?n = "max 1 (min limit 50)"
  let ?days = "sort (remdups (map (\<lambda>r. sql_date (me_created_at r)) (me_rows d)))"
  have kinds: "is_search = (\<lambda>r. me_event_type r = asc ''search'')" "is_click = (\<lambda>r. me_event_type r = asc ''land_click'')"
    by (simp_all add: is_search_def is_click_def EVENT_TYPE_SEARCH_def EVENT_TYPE_LAND_CLICK_def fun_eq_iff)
  have days: "sum_list (map (\<lambda>day. count_if P (filter (\<lambda>r. sql_date (me_created_at r) = day) (me_rows d))) ?days) =
      count_if P (me_rows d)" for P
    by (rule count_by_day) auto
  have srt: "sorted_wrt (<) ?days" by (simp add: strict_sorted_iff)
  have n: "0 \<le> ?n" by simp
  have regions: "ranking (nat ?n) (\<lambda>k. count_if (\<lambda>r. (is_search r \<and> me_region_source r = asc ''user_input'') \<and> me_region_name r = Some k)
      (me_rows d)) (fetch_top_regions d ?n)"
    using keyed_ranking [OF n, of "\<lambda>r. is_search r \<and> me_region_source r = asc ''user_input''" me_region_name "me_rows d"]
    by (simp only: fetch_top_regions_def conj_assoc)
  have buckets: "ranking (nat ?n) (\<lambda>k. count_if (\<lambda>r. is_search r \<and> me_min_area_bucket r = Some k) (me_rows d))
      (fetch_top_min_area_buckets d ?n)"
    using keyed_ranking [OF n, of is_search me_min_area_bucket "me_rows d"] by (simp only: fetch_top_min_area_buckets_def)
  note lands = clicked_lands_ranking [OF n, of d]
  have trend: "sum_list (map (\<lambda>(_, n, _). n) (fetch_daily_event_counts d)) = count_if is_search (me_rows d)"
    "sum_list (map (\<lambda>(_, _, n). n) (fetch_daily_event_counts d)) = count_if is_click (me_rows d)"
    "sorted_wrt (<) (map fst (fetch_daily_event_counts d))"
    using days [of is_search] days [of is_click] srt by (simp_all add: fetch_daily_event_counts_def Let_def comp_def)
  have each: "\<forall>(day, n, c) \<in> set (fetch_daily_event_counts d).
      n = count_if (\<lambda>r. is_search r \<and> take 10 (me_created_at r) = day) (me_rows d) \<and>
      c = count_if (\<lambda>r. is_click r \<and> take 10 (me_created_at r) = day) (me_rows d)"
    by (auto simp: fetch_daily_event_counts_def Let_def count_if_def sql_date_def conj_commute)
  show ?thesis
    unfolding get_admin_stats_def fetch_event_summary_def Let_def prod.case admin_stats.simps visitors_card
    by (intro conjI regions [unfolded kinds] buckets [unfolded kinds] lands [unfolded kinds] trend(3) each [unfolded kinds]) (simp_all add: trend kinds)
qed

theorem dashboard_consistent_witness:
  "as_top_regions (get_admin_stats 1 sample_event_db) = [(asc ''y'', 2)] \<and>
   ranking 1 (\<lambda>k. count_if (\<lambda>r. (me_event_type r = asc ''search'' \<and> me_region_source r = asc ''user_input'') \<and> me_region_name r = Some k)
     (me_rows sample_event_db)) [(asc ''y'', 2)] \<and> as_summary (get_admin_stats 1 sample_event_db) = (3, 1, 1)"
proof -
  have top: "as_top_regions (get_admin_stats 1 sample_event_db) = [(asc ''y'', 2)]" by code_simp
  have sm: "as_summary (get_admin_stats 1 sample_event_db) = (3, 1, 1)" by code_simp
  note all = dashboard_consistent [where limit = 1 and d = sample_event_db, unfolded Let_def top sm prod.case]
  have "nat (max 1 (min 1 50)) = 1" by simp
  with all top sm show ?thesis by simp
qed

end
