(* ===== verification/Calendar.thy ===== *)
theory Calendar
  imports Py_Text
begin

text \<open>
  Dates and times as the program uses them: an instant is a number of seconds since the epoch (UTC),
  a date a proleptic Gregorian ordinal, as in the \<open>datetime\<close> module. \<open>fmt_ts\<close> is
  \<open>strftime("%Y-%m-%d %H:%M:%S")\<close>, the text of every time column, and \<open>parse_ts\<close> reads it back. The
  lemmas show the two inverse to each other and, since the statements of the repositories compare
  times as texts, that the order of the texts is the order of the instants.
\<close>

section \<open>Dates\<close>

definition is_leap :: "int \<Rightarrow> bool" where
  "is_leap y \<longleftrightarrow> y mod 4 = 0 \<and> (y mod 100 \<noteq> 0 \<or> y mod 400 = 0)"

definition days_before_year :: "int \<Rightarrow> int" where
  "days_before_year y = (let p = y - 1 in p * 365 + p div 4 - p div 100 + p div 400)"

fun days_in_month :: "bool \<Rightarrow> nat \<Rightarrow> int" where
  "days_in_month leap m =
     (if m = 2 then (if leap then 29 else 28) else if m \<in> {4, 6, 9, 11} then 30 else 31)"

fun days_before_month :: "bool \<Rightarrow> nat \<Rightarrow> int" where
  "days_before_month leap m =
     [0, 0, 31, 59, 90, 120, 151, 181, 212, 243, 273, 304, 334, 365] ! m + (if leap \<and> 2 < m then 1 else 0)"

definition ymd_ord :: "int \<times> nat \<times> int \<Rightarrow> int" where
  "ymd_ord = (\<lambda>(y, m, d). days_before_year y + days_before_month (is_leap y) m + d)"

definition year_of :: "int \<Rightarrow> int" where
  "year_of n = (let y = (n - 1) * 400 div 146097 + 1 in if days_before_year (y + 1) < n then y + 1 else y)"

definition month_of :: "bool \<Rightarrow> int \<Rightarrow> nat" where
  "month_of leap k =
     (case find (\<lambda>m. k \<le> days_before_month leap (Suc m)) [1..<12] of Some m \<Rightarrow> m | None \<Rightarrow> 12)"

definition ord_ymd :: "int \<Rightarrow> int \<times> nat \<times> int" where
  "ord_ymd n =
     (let y = year_of n; k = n - days_before_year y; m = month_of (is_leap y) k
      in (y, m, k - days_before_month (is_leap y) m))"

definition valid_ymd :: "int \<times> nat \<times> int \<Rightarrow> bool" where
  "valid_ymd = (\<lambda>(y, m, d). 1 \<le> m \<and> m \<le> 12 \<and> 1 \<le> d \<and> d \<le> days_in_month (is_leap y) m)"

lemma days_400_aux:
  fixes a b c q x y z :: int
  assumes "4 * a = q - x" "100 * b = q - y" "400 * c = q - z"
  shows "400 * (q * 365 + a - b + c) = 146097 * q - 100 * x + 4 * y - z"
  using assms by simp

lemma days_before_year_400: "400 * days_before_year (q + 1) =
    146097 * q - 100 * (q mod 4) + 4 * (q mod 100) - q mod 400"
proof -
  have "4 * (q div 4) = q - q mod 4" "100 * (q div 100) = q - q mod 100" "400 * (q div 400) = q - q mod 400"
    by (simp_all add: minus_mod_eq_mult_div)
  then show ?thesis unfolding days_before_year_def Let_def add_diff_cancel_right' by (rule days_400_aux)
qed

lemma div_pred:
  fixes y b :: int
  assumes "0 < b"
  shows "y div b = (y - 1) div b + (if y mod b = 0 then 1 else 0)"
proof -
  have y: "y = b * (y div b) + y mod b" by simp
  have m: "0 \<le> y mod b" "y mod b < b" using assms by simp_all
  have "(y - 1) div b = y div b - (if y mod b = 0 then 1 else 0)"
  proof (cases "y mod b = 0")
    case True
    with y have "y - 1 = b * (y div b - 1) + (b - 1)" by (simp add: algebra_simps)
    moreover have "0 \<le> b - 1" "b - 1 < b" using assms by simp_all
    ultimately have "(y - 1) div b = y div b - 1" by (rule int_div_pos_eq)
    then show ?thesis using True by simp
  next
    case False
    with y m have "y - 1 = b * (y div b) + (y mod b - 1)" "0 \<le> y mod b - 1" "y mod b - 1 < b" by simp_all
    then have "(y - 1) div b = y div b" by (rule int_div_pos_eq)
    then show ?thesis using False by simp
  qed
  then show ?thesis by simp
qed

lemma days_before_year_Suc: "days_before_year (y + 1) = days_before_year y + (if is_leap y then 366 else 365)"
proof -
  define a b c where "a = (y - 1) div 4" and "b = (y - 1) div 100" and "c = (y - 1) div 400"
  define p q r where "p = (y mod 4 = 0)" and "q = (y mod 100 = 0)" and "r = (y mod 400 = 0)"
  have mods: "q \<longrightarrow> p" "r \<longrightarrow> q"
    using mod_mod_cancel [of 4 100 y] mod_mod_cancel [of 100 400 y] unfolding p_def q_def r_def by force+
  have this_year: "days_before_year y = (y - 1) * 365 + a - b + c"
    by (simp only: days_before_year_def Let_def a_def b_def c_def)
  have "days_before_year (y + 1) = y * 365 + y div 4 - y div 100 + y div 400"
    by (simp only: days_before_year_def Let_def add_diff_cancel_right')
  also have "y div 4 = a + (if p then 1 else 0)" unfolding a_def p_def by (rule div_pred) simp
  also have "y div 100 = b + (if q then 1 else 0)" unfolding b_def q_def by (rule div_pred) simp
  also have "y div 400 = c + (if r then 1 else 0)" unfolding c_def r_def by (rule div_pred) simp
  finally have next_year: "days_before_year (y + 1) =
      y * 365 + (a + (if p then 1 else 0)) - (b + (if q then 1 else 0)) + (c + (if r then 1 else 0))" .
  have "is_leap y = (p \<and> (\<not> q \<or> r))" by (simp only: is_leap_def p_def q_def r_def)
  then show ?thesis unfolding this_year next_year using mods by (cases p; cases q; cases r; simp)
qed

lemma days_before_year_mono: "y \<le> z \<Longrightarrow> days_before_year y \<le> days_before_year z"
proof (induction z rule: int_ge_induct)
  case (step z)
  then show ?case by (simp add: days_before_year_Suc split: if_splits)
qed simp

lemma year_of_bounds: "days_before_year (year_of n) < n \<and> n \<le> days_before_year (year_of n + 1)"
proof -
  define q where "q = (n - 1) * 400 div 146097"
  have q: "146097 * q \<le> 400 * (n - 1)" "400 * (n - 1) < 146097 * (q + 1)" using minus_mod_eq_mult_div [of "(n - 1) * 400" 146097] pos_mod_bound [of 146097 "(n - 1) * 400"]
      pos_mod_sign [of 146097 "(n - 1) * 400"] by (simp_all add: q_def)
  note m = pos_mod_bound [of 4 q] pos_mod_sign [of 4 q] pos_mod_bound [of 100 q] pos_mod_sign [of 100 q]
    pos_mod_bound [of 400 q] pos_mod_sign [of 400 q]
  have lo: "days_before_year (q + 1) < n"
    using days_before_year_400 [of q] m q by simp
  have hi: "n \<le> days_before_year (q + 3)"
    using days_before_year_400 [of "q + 2"] q
      pos_mod_bound [of 4 "q + 2"] pos_mod_sign [of 100 "q + 2"] pos_mod_bound [of 400 "q + 2"] by (simp add: add.commute)
  have "year_of n = (if days_before_year (q + 2) < n then q + 2 else q + 1)"
    by (simp add: year_of_def q_def Let_def add.commute)
  with lo hi show ?thesis by (auto simp: add.assoc)
qed

lemma year_of_mono: "m \<le> n \<Longrightarrow> year_of m \<le> year_of n"
  using year_of_bounds [of m] year_of_bounds [of n] days_before_year_mono [of "year_of n + 1" "year_of m"]
  by linarith

lemma year_of_eq: "days_before_year y < n \<Longrightarrow> n \<le> days_before_year (y + 1) \<Longrightarrow> year_of n = y"
  using year_of_bounds [of n] days_before_year_mono [of "year_of n + 1" y] days_before_year_mono [of "y + 1" "year_of n"]
  by linarith

lemma months_apart:
  assumes "1 \<le> m" "m < m'" "m' \<le> 12"
  shows "days_before_month leap m + days_in_month leap m \<le> days_before_month leap m'"
proof -
  have "list_all (\<lambda>leap. list_all (\<lambda>m'. list_all (\<lambda>m. days_before_month leap m + days_in_month leap m \<le>
      days_before_month leap m') [1..<m']) [1..<13]) [True, False]"
    by code_simp
  moreover have "leap \<in> set [True, False]" "m' \<in> set [1..<13]" "m \<in> set [1..<m']"
    using assms by (simp, unfold set_upt, simp_all)
  ultimately show ?thesis unfolding list_all_iff by blast
qed

lemma month_of_bounds:
  assumes "1 \<le> k" "k \<le> (if leap then 366 else 365)"
  shows "1 \<le> month_of leap k \<and> month_of leap k \<le> 12 \<and> days_before_month leap (month_of leap k) < k \<and>
    k \<le> days_before_month leap (month_of leap k) + days_in_month leap (month_of leap k)"
  using assms by (cases leap) (auto simp: month_of_def upt_rec)

lemma valid_ymd_bounds:
  assumes "valid_ymd (y, m, d)"
  shows "days_before_year y < ymd_ord (y, m, d) \<and> ymd_ord (y, m, d) \<le> days_before_year (y + 1)"
proof -
  have m: "1 \<le> m" "m \<le> 12" "1 \<le> d" "d \<le> days_in_month (is_leap y) m" using assms by (simp_all add: valid_ymd_def)
  have "0 \<le> days_before_month leap m \<and> days_before_month leap m + days_in_month leap m \<le> (if leap then 366 else 365)" for leap
  proof -
    have "list_all (\<lambda>leap. list_all (\<lambda>m. 0 \<le> days_before_month leap m \<and>
        days_before_month leap m + days_in_month leap m \<le> (if leap then 366 else 365)) [1..<13]) [True, False]"
      by code_simp
    with m show ?thesis by (cases leap) (auto simp: list_all_iff simp del: days_before_month.simps days_in_month.simps)
  qed
  from this [of "is_leap y"] m show ?thesis
    by (auto simp: ymd_ord_def days_before_year_Suc simp del: days_before_month.simps days_in_month.simps)
qed

lemma ord_ymd_valid: "valid_ymd (ord_ymd n)"
  and ymd_ord_ymd: "ymd_ord (ord_ymd n) = n"
proof -
  have "1 \<le> n - days_before_year (year_of n)"
    and "n - days_before_year (year_of n) \<le> (if is_leap (year_of n) then 366 else 365)"
    using year_of_bounds [of n] by (auto simp: days_before_year_Suc split: if_splits)
  from month_of_bounds [OF this] show "valid_ymd (ord_ymd n)" "ymd_ord (ord_ymd n) = n"
    by (simp_all add: valid_ymd_def ord_ymd_def ymd_ord_def Let_def del: days_before_month.simps days_in_month.simps)
qed

lemma ymd_ord_less:
  assumes "valid_ymd a" "valid_ymd b" "a < b"
  shows "ymd_ord a < ymd_ord b"
proof -
  obtain y m d y' m' d' where ab: "a = (y, m, d)" "b = (y', m', d')" by (metis prod_cases3)
  consider "y < y'" | "y = y'" "m < m'" | "y = y'" "m = m'" "d < d'"
    using assms(3) by (auto simp: ab less_prod_def le_less)
  then show ?thesis
  proof cases
    case 1
    have "days_before_year (y + 1) \<le> days_before_year y'" using 1 by (intro days_before_year_mono) simp
    with assms(1,2) valid_ymd_bounds show ?thesis unfolding ab by (meson le_less_trans order_trans)
  next
    case 2
    with assms(1,2) months_apart [of m m' "is_leap y"] show ?thesis
      by (auto simp: ab ymd_ord_def valid_ymd_def simp del: days_before_month.simps days_in_month.simps)
  next
    case 3
    then show ?thesis by (simp add: ab ymd_ord_def)
  qed
qed

lemma ord_ymd_less_iff: "ord_ymd m < ord_ymd n \<longleftrightarrow> m < n"
  by (metis linorder_neqE not_less_iff_gr_or_eq ord_ymd_valid ymd_ord_less ymd_ord_ymd)

lemma ord_ymd_ord: "valid_ymd a \<Longrightarrow> ord_ymd (ymd_ord a) = a"
  by (metis linorder_neqE ord_ymd_valid order_less_irrefl ymd_ord_less ymd_ord_ymd)

section \<open>Times as text\<close>

definition EPOCH_ORD :: int where
  "EPOCH_ORD = 719163"

definition pad2 :: "int \<Rightarrow> pystr" where
  "pad2 n = [48 + nat (n div 10), 48 + nat (n mod 10)]"

text \<open>\<open>%Y\<close> does not pad: a year below 1000 has fewer than four digits.\<close>

definition fmt_date :: "int \<Rightarrow> pystr" where
  "fmt_date n = (case ord_ymd n of (y, m, d) \<Rightarrow> nat_digits (nat y) @ [45] @ pad2 (int m) @ [45] @ pad2 d)"

definition fmt_time :: "int \<Rightarrow> pystr" where
  "fmt_time r = pad2 (r div 3600) @ [58] @ pad2 (r div 60 mod 60) @ [58] @ pad2 (r mod 60)"

definition ts_ord :: "int \<Rightarrow> int" where
  "ts_ord s = s div 86400 + EPOCH_ORD"

definition fmt_ts :: "int \<Rightarrow> pystr" where
  "fmt_ts s = fmt_date (ts_ord s) @ [32] @ fmt_time (s mod 86400)"

definition digits2 :: "nat \<Rightarrow> nat \<Rightarrow> int option" where
  "digits2 a b = (if 48 \<le> a \<and> a \<le> 57 \<and> 48 \<le> b \<and> b \<le> 57 then Some (10 * int (a - 48) + int (b - 48)) else None)"

text \<open>
  The date and time functions of SQLite on the texts the program stores: \<open>YYYY-MM-DD HH:MM:SS\<close>, a day
  up to 31 in any month, \<open>NULL\<close> on anything else. (SQLite also reads other forms; no column holds one.)
\<close>

definition parse_ts :: "pystr \<Rightarrow> int option" where
  "parse_ts t =
     (if length t = 19 \<and> t ! 4 = 45 \<and> t ! 7 = 45 \<and> t ! 10 = 32 \<and> t ! 13 = 58 \<and> t ! 16 = 58
      then Option.bind (digits2 (t ! 0) (t ! 1)) (\<lambda>yh. Option.bind (digits2 (t ! 2) (t ! 3)) (\<lambda>yl.
           Option.bind (digits2 (t ! 5) (t ! 6)) (\<lambda>m. Option.bind (digits2 (t ! 8) (t ! 9)) (\<lambda>d.
           Option.bind (digits2 (t ! 11) (t ! 12)) (\<lambda>h. Option.bind (digits2 (t ! 14) (t ! 15)) (\<lambda>i.
           Option.bind (digits2 (t ! 17) (t ! 18)) (\<lambda>e.
             if 1 \<le> m \<and> m \<le> 12 \<and> 1 \<le> d \<and> d \<le> 31 \<and> h \<le> 24 \<and> i \<le> 59 \<and> e \<le> 59
             then Some ((ymd_ord (100 * yh + yl, nat m, d) - EPOCH_ORD) * 86400 + (h * 3600 + i * 60 + e))
             else None)))))))
      else None)"

text \<open>The instants whose year has four digits.\<close>

definition plain_time :: "int \<Rightarrow> bool" where
  "plain_time s \<longleftrightarrow> 1000 \<le> year_of (ts_ord s) \<and> year_of (ts_ord s) \<le> 9999"

lemma plain_time_between: "plain_time a \<Longrightarrow> plain_time b \<Longrightarrow> a \<le> s \<Longrightarrow> s \<le> b \<Longrightarrow> plain_time s"
  unfolding plain_time_def ts_ord_def
  by (meson add_right_mono order_trans year_of_mono zdiv_mono1 zero_less_numeral)

lemma nat_digits4:
  assumes "1000 \<le> n" "n \<le> 9999"
  shows "nat_digits n = [48 + n div 1000, 48 + n div 100 mod 10, 48 + n div 10 mod 10, 48 + n mod 10]"
proof -
  have d: "n div 10 div 10 = n div 100" "n div 100 div 10 = n div 1000" by (simp_all add: div_mult2_eq [symmetric])
  have "\<not> n < 10" "\<not> n div 10 < 10" "\<not> n div 100 < 10" "n div 1000 < 10" using assms by auto
  then show ?thesis
    by (simp add: nat_digits.simps [of n] nat_digits.simps [of "n div 10"] nat_digits.simps [of "n div 100"]
        nat_digits.simps [of "n div 1000"] d)
qed

lemma digits2_pad2:
  assumes "0 \<le> n" "n < 100"
  shows "digits2 (48 + nat (n div 10)) (48 + nat (n mod 10)) = Some n"
proof -
  have "n div 10 < 10" "0 \<le> n div 10" using assms by simp_all
  moreover have "n mod 10 < 10" "0 \<le> n mod 10" by simp_all
  moreover have "10 * (n div 10) + n mod 10 = n" by simp
  ultimately show ?thesis by (simp add: digits2_def nat_le_iff)
qed

lemma digits2_digits: "a < 10 \<Longrightarrow> b < 10 \<Longrightarrow> digits2 (48 + a) (48 + b) = Some (int (10 * a + b))"
  by (simp add: digits2_def)

lemma digits2_year:
  assumes "n \<le> 9999"
  shows "digits2 (48 + n div 1000) (48 + n div 100 mod 10) = Some (int (n div 100))"
    and "digits2 (48 + n div 10 mod 10) (48 + n mod 10) = Some (int (n mod 100))"
proof -
  have "n div 1000 < 10" using assms by auto
  moreover have "10 * (n div 1000) + n div 100 mod 10 = n div 100"
    using mult_div_mod_eq [of 10 "n div 100"] by (simp only: div_mult2_eq [symmetric]) simp
  ultimately show "digits2 (48 + n div 1000) (48 + n div 100 mod 10) = Some (int (n div 100))"
    using digits2_digits [of "n div 1000" "n div 100 mod 10"] by (simp only: pos_mod_bound mod_less_divisor zero_less_numeral)
  have "10 * (n div 10 mod 10) + n mod 10 = n mod 100"
    using mod_mult2_eq [of n 10 10] by simp
  then show "digits2 (48 + n div 10 mod 10) (48 + n mod 10) = Some (int (n mod 100))"
    using digits2_digits [of "n div 10 mod 10" "n mod 10"] by (simp only: mod_less_divisor zero_less_numeral)
qed

lemma parse_ts_fields:
  assumes "digits2 y1 y2 = Some yh" "digits2 y3 y4 = Some yl" "digits2 m1 m2 = Some m" "digits2 d1 d2 = Some d"
    "digits2 h1 h2 = Some h" "digits2 i1 i2 = Some i" "digits2 e1 e2 = Some e"
    and "1 \<le> m" "m \<le> 12" "1 \<le> d" "d \<le> 31" "h \<le> 24" "i \<le> 59" "e \<le> 59"
  shows "parse_ts [y1, y2, y3, y4, 45, m1, m2, 45, d1, d2, 32, h1, h2, 58, i1, i2, 58, e1, e2] =
    Some ((ymd_ord (100 * yh + yl, nat m, d) - EPOCH_ORD) * 86400 + (h * 3600 + i * 60 + e))"
  using assms by (simp add: parse_ts_def)

lemma ord_ymd_cases:
  obtains y m d where "ord_ymd n = (y, m, d)" "y = year_of n" "1 \<le> m" "m \<le> 12" "1 \<le> d" "d \<le> 31"
proof -
  obtain y m d where e: "ord_ymd n = (y, m, d)" by (metis prod_cases3)
  moreover have "y = year_of n" using e by (simp add: ord_ymd_def Let_def)
  moreover have "1 \<le> m" "m \<le> 12" "1 \<le> d" "d \<le> 31"
    using ord_ymd_valid [of n] by (auto simp: e valid_ymd_def split: if_splits)
  ultimately show ?thesis by (rule that)
qed

lemma time_fields:
  fixes r :: int
  assumes "0 \<le> r" "r < 86400"
  shows "0 \<le> r div 3600" "r div 3600 < 24" "0 \<le> r div 60 mod 60" "r div 60 mod 60 < 60" "0 \<le> r mod 60" "r mod 60 < 60"
    and "r div 3600 * 3600 + r div 60 mod 60 * 60 + r mod 60 = r"
proof -
  show "0 \<le> r div 3600" "r div 3600 < 24" "0 \<le> r div 60 mod 60" "r div 60 mod 60 < 60" "0 \<le> r mod 60" "r mod 60 < 60"
    using assms by simp_all
  have "r div 3600 = r div 60 div 60" by (simp add: zdiv_zmult2_eq [symmetric])
  moreover have "r div 60 div 60 * 60 + r div 60 mod 60 = r div 60" by simp
  moreover have "r div 60 * 60 + r mod 60 = r" by simp
  ultimately show "r div 3600 * 3600 + r div 60 mod 60 * 60 + r mod 60 = r" by linarith
qed

text \<open>The stored text of a time is read back as the time.\<close>

lemma parse_fmt_ts:
  assumes "plain_time s"
  shows "parse_ts (fmt_ts s) = Some s"
proof -
  obtain y m d where o: "ord_ymd (ts_ord s) = (y, m, d)" and y: "y = year_of (ts_ord s)"
    and md: "1 \<le> m" "m \<le> 12" "1 \<le> d" "d \<le> 31" by (rule ord_ymd_cases)
  define n where "n = nat y"
  have n: "1000 \<le> n" "n \<le> 9999" and yn: "y = int n" using assms by (auto simp: plain_time_def y n_def)
  have "int (100 * (n div 100) + n mod 100) = 100 * int (n div 100) + int (n mod 100)"
    by (simp only: of_nat_add of_nat_mult of_nat_numeral)
  then have yy: "100 * int (n div 100) + int (n mod 100) = int n" by (simp only: mult_div_mod_eq)
  define r where "r = s mod 86400"
  have r: "0 \<le> r" "r < 86400" by (simp_all add: r_def)
  note tf = time_fields [OF r]
  have "ymd_ord (int n, m, d) = ts_ord s" using ymd_ord_ymd [of "ts_ord s"] by (simp add: o yn)
  moreover have "(ts_ord s - EPOCH_ORD) * 86400 + r = s" by (simp add: ts_ord_def r_def)
  ultimately have whole: "(ymd_ord (int n, m, d) - EPOCH_ORD) * 86400 + (r div 3600 * 3600 + r div 60 mod 60 * 60 + r mod 60) = s"
    by (simp only: tf(7))
  have month: "0 \<le> int m" "int m < 100" and day: "0 \<le> d" "d < 100" using md by simp_all
  have hour: "r div 3600 < 100" using tf(2) by (rule less_trans) simp
  have minsec: "r div 60 mod 60 < 100" "r mod 60 < 100" by (rule less_trans [OF tf(4)], simp, rule less_trans [OF tf(6)], simp)
  have two: "digits2 (48 + nat (int m div 10)) (48 + nat (int m mod 10)) = Some (int m)"
    "digits2 (48 + nat (d div 10)) (48 + nat (d mod 10)) = Some d"
    "digits2 (48 + nat (r div 3600 div 10)) (48 + nat (r div 3600 mod 10)) = Some (r div 3600)"
    "digits2 (48 + nat (r div 60 mod 60 div 10)) (48 + nat (r div 60 mod 60 mod 10)) = Some (r div 60 mod 60)"
    "digits2 (48 + nat (r mod 60 div 10)) (48 + nat (r mod 60 mod 10)) = Some (r mod 60)"
    by (fact digits2_pad2 [OF month] digits2_pad2 [OF day] digits2_pad2 [OF tf(1) hour] digits2_pad2 [OF tf(3) minsec(1)]
        digits2_pad2 [OF tf(5) minsec(2)])+
  have shape: "fmt_ts s =
      [48 + n div 1000, 48 + n div 100 mod 10, 48 + n div 10 mod 10, 48 + n mod 10, 45,
       48 + nat (int m div 10), 48 + nat (int m mod 10), 45, 48 + nat (d div 10), 48 + nat (d mod 10), 32,
       48 + nat (r div 3600 div 10), 48 + nat (r div 3600 mod 10), 58,
       48 + nat (r div 60 mod 60 div 10), 48 + nat (r div 60 mod 60 mod 10), 58,
       48 + nat (r mod 60 div 10), 48 + nat (r mod 60 mod 10)]"
    unfolding fmt_ts_def fmt_date_def o prod.case n_def [symmetric] nat_digits4 [OF n] r_def [symmetric] fmt_time_def pad2_def
    by (simp only: append_Cons append_Nil)
  have below: "x < 24 \<Longrightarrow> x \<le> 24" "x < 60 \<Longrightarrow> x \<le> 59" for x :: int by simp_all
  have m: "1 \<le> int m" "int m \<le> 12" using md by simp_all
  show ?thesis unfolding shape
    by (rule trans [OF parse_ts_fields [OF digits2_year(1) [OF n(2)] digits2_year(2) [OF n(2)] two m md(3,4) below(1) [OF tf(2)]
          below(2) [OF tf(4)] below(2) [OF tf(6)]]]) (simp only: yy nat_int whole)
qed

section \<open>The order of texts\<close>

lemma append_less:
  fixes a b x y :: pystr
  shows "length a = length b \<Longrightarrow> a @ x < b @ y \<longleftrightarrow> a < b \<or> a = b \<and> x < y"
  by (induction a b rule: list_induct2) auto

lemma less_digit: "(a::nat) < b \<longleftrightarrow> a div 10 < b div 10 \<or> a div 10 = b div 10 \<and> a mod 10 < b mod 10"
proof (cases "a div 10 = b div 10")
  case True
  have "a < b \<longleftrightarrow> 10 * (a div 10) + a mod 10 < 10 * (b div 10) + b mod 10" by simp
  also have "\<dots> \<longleftrightarrow> a mod 10 < b mod 10" unfolding True by (rule add_less_cancel_left)
  finally show ?thesis using True by simp
next
  case False
  then show ?thesis
    using div_le_mono [of a b 10] div_le_mono [of b a 10] by (meson le_neq_implies_less not_less order_less_imp_le)
qed

lemma pad2_less:
  assumes "0 \<le> a" "a < b" "b < 100"
  shows "pad2 a < pad2 b"
proof -
  obtain m n where mn: "a = int m" "b = int n" using assms by (metis less_imp_le nonneg_int_cases order_trans)
  have "nat (int k div 10) = k div 10" "nat (int k mod 10) = k mod 10" for k
    by (simp_all add: nat_div_distrib nat_mod_distrib)
  with assms(2) less_digit [of m n] show ?thesis by (auto simp: pad2_def mn)
qed

lemma length_nat_digits_eq: "10 ^ k \<le> n \<Longrightarrow> n < 10 ^ Suc k \<Longrightarrow> length (nat_digits n) = Suc k"
proof (induction k arbitrary: n)
  case (Suc k)
  have "\<not> n < 10"
  proof -
    have "1 \<le> (10::nat) ^ k" by simp
    moreover have "10 * 10 ^ k \<le> n" using Suc.prems(1) by simp
    ultimately show ?thesis by linarith
  qed
  moreover from Suc.prems have "10 ^ k \<le> n div 10" "n div 10 < 10 ^ Suc k"
    by (auto simp: less_mult_imp_div_less mult.commute)
  ultimately have "10 ^ k \<le> n div 10" "n div 10 < 10 ^ Suc k" "\<not> n < 10" by blast+
  with Suc.IH [of "n div 10"] show ?case by (simp add: nat_digits.simps [of n])
next
  case 0
  then show ?case by (simp add: nat_digits.simps [of n])
qed

text \<open>Numbers of the same length are ordered as their digits.\<close>

lemma nat_digits_less: "length (nat_digits a) = length (nat_digits b) \<Longrightarrow> a < b \<Longrightarrow> nat_digits a < nat_digits b"
proof (induction a arbitrary: b rule: nat_digits.induct)
  case (1 a)
  show ?case
  proof (cases "a < 10")
    case True
    with 1(2) have "b < 10" by (simp add: nat_digits.simps [of a] nat_digits.simps [of b] split: if_splits)
    with True 1(3) show ?thesis by (simp add: nat_digits.simps [of a] nat_digits.simps [of b])
  next
    case False
    with 1(3) have b: "\<not> b < 10" by simp
    with False 1(2) have len: "length (nat_digits (a div 10)) = length (nat_digits (b div 10))"
      by (simp add: nat_digits.simps [of a] nat_digits.simps [of b])
    with 1(1) [OF False] 1(3) less_digit [of a b] False b show ?thesis
      by (auto simp: nat_digits.simps [of a] nat_digits.simps [of b] append_less)
  qed
qed

lemma length_pad2 [simp]: "length (pad2 n) = 2"
  by (simp add: pad2_def)

lemma length_fmt_date: "1000 \<le> year_of n \<Longrightarrow> year_of n \<le> 9999 \<Longrightarrow> length (fmt_date n) = 10"
  by (rule ord_ymd_cases [of n]) (simp add: fmt_date_def nat_digits4 nat_le_iff)

lemma fmt_date_less:
  assumes "1000 \<le> year_of m" "year_of n \<le> 9999" "m < n"
  shows "fmt_date m < fmt_date n"
proof -
  obtain y k d where m: "ord_ymd m = (y, k, d)" "y = year_of m" "1 \<le> k" "k \<le> 12" "1 \<le> d" "d \<le> 31" by (rule ord_ymd_cases)
  obtain y' k' d' where n: "ord_ymd n = (y', k', d')" "y' = year_of n" "1 \<le> k'" "k' \<le> 12" "1 \<le> d'" "d' \<le> 31"
    by (rule ord_ymd_cases)
  have yy: "1000 \<le> y" "y \<le> y'" "y' \<le> 9999" using assms year_of_mono [of m n] m(2) n(2) by simp_all
  then have len: "length (nat_digits (nat y)) = length (nat_digits (nat y'))" by (simp add: nat_digits4 nat_le_iff)
  have "ord_ymd m < ord_ymd n" using assms(3) by (simp add: ord_ymd_less_iff)
  then consider "y < y'" | "y = y'" "k < k'" | "y = y'" "k = k'" "d < d'"
    unfolding m(1) n(1) by (auto simp: less_prod_def le_less)
  then show ?thesis
  proof cases
    case 1
    then have "nat_digits (nat y) < nat_digits (nat y')" using yy by (intro nat_digits_less len) auto
    with len show ?thesis by (simp add: fmt_date_def m(1) n(1) append_less)
  next
    case 2
    then have "pad2 (int k) < pad2 (int k')" using n(4) by (intro pad2_less) auto
    with 2(1) show ?thesis by (simp add: fmt_date_def m(1) n(1) append_less)
  next
    case 3
    then have "pad2 d < pad2 d'" using m(5) n(6) by (intro pad2_less) auto
    with 3(1,2) show ?thesis by (simp add: fmt_date_def m(1) n(1) append_less)
  qed
qed

lemma hms_less:
  fixes x :: int
  assumes less: "x * 3600 + y * 60 + z < x' * 3600 + y' * 60 + z'"
    and "0 \<le> x" "y < 60" "z < 60" "0 \<le> y" "0 \<le> z" "x' < 24" "y' < 60" "z' < 60" "0 \<le> y'" "0 \<le> z'"
  shows "pad2 x @ [58] @ pad2 y @ [58] @ pad2 z < pad2 x' @ [58] @ pad2 y' @ [58] @ pad2 z'"
proof -
  have "\<not> x' + 1 \<le> x" using assms by linarith
  moreover have "\<not> y' + 1 \<le> y" if "x = x'" using assms that by linarith
  moreover have "z < z'" if "x = x'" "y = y'" using less that by linarith
  ultimately consider "x < x'" | "x = x'" "y < y'" | "x = x'" "y = y'" "z < z'" by linarith
  then show ?thesis
  proof cases
    case 1
    then have "pad2 x < pad2 x'" using assms by (intro pad2_less) simp_all
    then show ?thesis by (simp add: append_less)
  next
    case 2
    then have "pad2 y < pad2 y'" using assms by (intro pad2_less) simp_all
    with 2(1) show ?thesis by (simp add: append_less)
  next
    case 3
    then have "pad2 z < pad2 z'" using assms by (intro pad2_less) simp_all
    with 3(1,2) show ?thesis by (simp add: append_less)
  qed
qed

lemma fmt_time_less:
  assumes "0 \<le> r" "r < r'" "r' < 86400"
  shows "fmt_time r < fmt_time r'"
proof -
  have r: "r < 86400" "0 \<le> r'" using assms by simp_all
  note a = time_fields [OF assms(1) r(1)] and b = time_fields [OF r(2) assms(3)]
  show ?thesis unfolding fmt_time_def
    by (rule hms_less [OF _ a(1,4,6,3,5) b(2,4,6,3,5)]) (simp only: a(7) b(7) assms(2))
qed

text \<open>The order of the stored texts is the order of the instants.\<close>

lemma fmt_ts_mono:
  assumes "plain_time s" "plain_time t" "s < t"
  shows "fmt_ts s < fmt_ts t"
proof -
  have len: "length (fmt_date (ts_ord s)) = length (fmt_date (ts_ord t))"
    using assms(1,2) by (simp add: length_fmt_date plain_time_def)
  show ?thesis
  proof (cases "s div 86400 < t div 86400")
    case True
    then have "fmt_date (ts_ord s) < fmt_date (ts_ord t)"
      using assms(1,2) by (intro fmt_date_less) (auto simp: plain_time_def ts_ord_def)
    with len show ?thesis by (simp add: fmt_ts_def append_less)
  next
    case False
    with assms(3) have d: "s div 86400 = t div 86400" by (meson zdiv_mono1 le_less not_less zero_less_numeral)
    have "s mod 86400 < t mod 86400"
      using assms(3) mult_div_mod_eq [of 86400 s] mult_div_mod_eq [of 86400 t] unfolding d by (metis add_less_cancel_left)
    then have "fmt_time (s mod 86400) < fmt_time (t mod 86400)" by (intro fmt_time_less) auto
    with d show ?thesis by (simp add: fmt_ts_def ts_ord_def append_less)
  qed
qed

lemma fmt_ts_less_iff: "plain_time s \<Longrightarrow> plain_time t \<Longrightarrow> fmt_ts s < fmt_ts t \<longleftrightarrow> s < t"
  by (metis fmt_ts_mono less_asym linorder_neqE)

lemma fmt_ts_le_iff: "plain_time s \<Longrightarrow> plain_time t \<Longrightarrow> fmt_ts s \<le> fmt_ts t \<longleftrightarrow> s \<le> t"
  by (metis fmt_ts_less_iff not_less)

lemma fmt_date_less_iff:
  assumes "1000 \<le> year_of m" "year_of m \<le> 9999" "1000 \<le> year_of n" "year_of n \<le> 9999"
  shows "fmt_date m < fmt_date n \<longleftrightarrow> m < n"
  using fmt_date_less [of m n] fmt_date_less [of n m] assms by (metis less_asym linorder_neqE)

section \<open>Numbers kept as ordered texts\<close>

text \<open>
  The statements compare numbers by their texts. The interface is the one law that makes this right;
  it holds of the times of four-digit years and of the numbers with ten digits.
\<close>

locale text_order =
  fixes shown :: "int \<Rightarrow> pystr"
    and ok :: "int \<Rightarrow> bool"
  assumes shown_mono: "ok a \<Longrightarrow> ok b \<Longrightarrow> a < b \<Longrightarrow> shown a < shown b"
begin

lemma shown_less_iff: "ok a \<Longrightarrow> ok b \<Longrightarrow> shown a < shown b \<longleftrightarrow> a < b"
  by (metis shown_mono less_asym linorder_neqE)

lemma shown_le_iff: "ok a \<Longrightarrow> ok b \<Longrightarrow> shown a \<le> shown b \<longleftrightarrow> a \<le> b"
  by (metis shown_less_iff not_less)

lemma shown_eq_iff: "ok a \<Longrightarrow> ok b \<Longrightarrow> shown a = shown b \<longleftrightarrow> a = b"
  by (metis shown_mono less_irrefl linorder_neqE)

lemma foldl_max: "ok a \<Longrightarrow> list_all ok xs \<Longrightarrow> foldl max (shown a) (map shown xs) = shown (Max (set (a # xs)))"
proof (induction xs arbitrary: a)
  case (Cons x xs)
  then have "max (shown a) (shown x) = shown (max a x)" using shown_le_iff by (auto simp: max_def)
  with Cons show ?case by (cases xs) (auto simp: max_def)
qed simp

lemma foldl_min: "ok a \<Longrightarrow> list_all ok xs \<Longrightarrow> foldl min (shown a) (map shown xs) = shown (Min (set (a # xs)))"
proof (induction xs arbitrary: a)
  case (Cons x xs)
  then have "min (shown a) (shown x) = shown (min a x)" using shown_le_iff by (auto simp: min_def)
  with Cons show ?case by (cases xs) (auto simp: min_def)
qed simp

end

interpretation times: text_order fmt_ts plain_time
  by unfold_locales (rule fmt_ts_mono)

interpretation dates: text_order fmt_date "\<lambda>n. 1000 \<le> year_of n \<and> year_of n \<le> 9999"
  by unfold_locales (simp add: fmt_date_less)

definition ten_digits :: "int \<Rightarrow> bool" where
  "ten_digits s \<longleftrightarrow> 1000000000 \<le> s \<and> s < 10000000000"

lemma length_ten_digits: "ten_digits s \<Longrightarrow> length (nat_digits (nat s)) = Suc 9"
  by (rule length_nat_digits_eq) (auto simp: ten_digits_def le_nat_iff nat_less_iff)

interpretation epochs: text_order str_of_int ten_digits
proof unfold_locales
  fix a b :: int
  assume ab: "ten_digits a" "ten_digits b" "a < b"
  then have "nat_digits (nat a) < nat_digits (nat b)"
    by (intro nat_digits_less) (simp_all only: length_ten_digits, simp add: ten_digits_def)
  with ab show "str_of_int a < str_of_int b" by (simp add: str_of_int_def ten_digits_def)
qed

lemma ten_digits_plain: "ten_digits s \<Longrightarrow> plain_time s \<and> plain_time (s + 32400)"
proof -
  assume s: "ten_digits s"
  have ends: "plain_time 1000000000" "plain_time 10000032400"
    by (simp_all add: plain_time_def ts_ord_def EPOCH_ORD_def year_of_def days_before_year_def)
  have "1000000000 \<le> s" "s \<le> 10000032400" "1000000000 \<le> s + 32400" "s + 32400 \<le> 10000032400"
    using s by (simp_all add: ten_digits_def)
  then show "plain_time s \<and> plain_time (s + 32400)" using plain_time_between [OF ends] by blast
qed

end
