(* ===== verification/Url.thy ===== *)
theory Url
  imports Ip_Address
begin

text \<open>
  What the program uses of \<open>urllib.parse\<close>: \<open>urlparse\<close> with the checks of the network location
  (brackets, and characters that normalise to a delimiter) and the \<open>hostname\<close> of its result. The
  lemma at the end is what the web statistics rely on: with the scheme \<open>http\<close> or \<open>https\<close> the path
  of a parsed text holds no query, no fragment and no delimiter of the location.
\<close>

record parsed_url =
  u_scheme :: pystr
  u_netloc :: pystr
  u_path :: pystr

definition scheme_char :: "nat \<Rightarrow> bool" where
  "scheme_char c \<longleftrightarrow> (97 \<le> c \<and> c \<le> 122) \<or> (65 \<le> c \<and> c \<le> 90) \<or> (48 \<le> c \<and> c \<le> 57) \<or> c \<in> {43, 45, 46}"

definition ascii_alpha :: "nat \<Rightarrow> bool" where
  "ascii_alpha c \<longleftrightarrow> (97 \<le> c \<and> c \<le> 122) \<or> (65 \<le> c \<and> c \<le> 90)"

definition uses_params :: "pystr list" where
  "uses_params =
     map asc ['''', ''ftp'', ''hdl'', ''prospero'', ''http'', ''imap'', ''https'', ''shttp'', ''rtsp'', ''rtsps'',
       ''rtspu'', ''sip'', ''sips'', ''mms'', ''sftp'', ''tel'']"

text \<open>The code points whose NFKC form has one of \<open>/ ? # @ :\<close>.\<close>

definition nfkc_delimiters :: "nat list" where
  "nfkc_delimiters =
     [8263, 8264, 8265, 8448, 8449, 8453, 8454, 10868, 65043, 65046, 65109, 65110, 65119, 65131, 65283, 65295,
      65306, 65311, 65312]"

text \<open>\<open>s.partition(c)\<close> without the separator, and \<open>s.rpartition(c)[2]\<close>.\<close>

definition before :: "nat \<Rightarrow> pystr \<Rightarrow> pystr" where
  "before c s = takeWhile (\<lambda>x. x \<noteq> c) s"

definition after :: "nat \<Rightarrow> pystr \<Rightarrow> pystr" where
  "after c s = tl (dropWhile (\<lambda>x. x \<noteq> c) s)"

definition after_last :: "nat \<Rightarrow> pystr \<Rightarrow> pystr" where
  "after_last c s = rev (before c (rev s))"

definition bracketed_host_ok :: "pystr \<Rightarrow> bool" where
  "bracketed_host_ok h =
     (if startswith h [118]
      then let hex = takeWhile (\<lambda>c. hex_value c \<noteq> None) (tl h); rest = drop (length hex) (tl h)
           in hex \<noteq> [] \<and> startswith rest [46] \<and> 2 \<le> length rest
      else case ip_address h of Inr (V6 _) \<Rightarrow> True | _ \<Rightarrow> False)"

definition bracketed_netloc_ok :: "pystr \<Rightarrow> bool" where
  "bracketed_netloc_ok netloc =
     (let host_and_port = after_last 64 netloc
      in if 91 \<in> set host_and_port
         then let bracketed = after 91 host_and_port; port = after 93 bracketed
              in before 91 host_and_port = [] \<and> (port = [] \<or> startswith port [58]) \<and> bracketed_host_ok (before 93 bracketed)
         else bracketed_host_ok (before 58 host_and_port))"

definition netloc_ok :: "pystr \<Rightarrow> bool" where
  "netloc_ok netloc \<longleftrightarrow>
     (91 \<in> set netloc \<longleftrightarrow> 93 \<in> set netloc) \<and> (91 \<in> set netloc \<longrightarrow> bracketed_netloc_ok netloc) \<and>
     \<not> list_ex (\<lambda>c. c \<in> set nfkc_delimiters) netloc"

definition split_params :: "pystr \<Rightarrow> pystr" where
  "split_params url = (let last_part = after_last 47 url
     in take (length url - length last_part) url @ before 59 last_part)"

definition split_scheme :: "pystr \<Rightarrow> pystr \<times> pystr" where
  "split_scheme url =
     (let prefix = before 58 url
      in if 58 \<in> set url \<and> prefix \<noteq> [] \<and> ascii_alpha (hd prefix) \<and> list_all scheme_char prefix
         then (lower prefix, after 58 url) else ([], url))"

definition split_netloc :: "pystr \<Rightarrow> pystr \<times> pystr" where
  "split_netloc url =
     (if startswith url [47, 47]
      then let rest = drop 2 url; loc = takeWhile (\<lambda>c. c \<notin> {47, 63, 35}) rest in (loc, drop (length loc) rest)
      else ([], url))"

definition urlparse :: "pystr \<Rightarrow> parsed_url result" where
  "urlparse text =
     (let url = filter (\<lambda>c. c \<notin> {9, 10, 13}) (lstrip_chars [0..<33] text);
          (scheme, url) = split_scheme url;
          (netloc, url) = split_netloc url;
          path = before 63 (before 35 url)
      in if \<not> netloc_ok netloc then Inl (ValueErr None)
         else Inr \<lparr>u_scheme = scheme, u_netloc = netloc,
                   u_path = (if scheme \<in> set uses_params \<and> 59 \<in> set path then split_params path else path)\<rparr>)"

definition hostname :: "parsed_url \<Rightarrow> pystr option" where
  "hostname u =
     (let hostinfo = after_last 64 (u_netloc u);
          host = (if 91 \<in> set hostinfo then before 93 (after 91 hostinfo) else before 58 hostinfo);
          name = before 37 host
      in if host = [] then None else Some (lower name @ drop (length name) host))"

section \<open>Laws\<close>

lemma set_before: "set (before c s) \<subseteq> set s" "c \<notin> set (before c s)"
  by (auto simp: before_def dest: set_takeWhileD)

lemma set_split_params: "set (split_params s) \<subseteq> set s"
  by (auto simp: split_params_def after_last_def Let_def dest!: in_set_takeD subsetD [OF set_before(1)])

text \<open>The length of a host: lowering a character makes at most two.\<close>

lemma length_lower: "length (lower s) \<le> 2 * length s"
  by (induction s) (auto simp: lower_def lower_char_def split: option.split)

lemma length_before: "length (before c s) \<le> length s"
  by (simp add: before_def length_takeWhile_le)

lemma length_after: "length (after c s) \<le> length s"
  using length_dropWhile_le [of "\<lambda>x. x \<noteq> c" s] by (simp add: after_def)

lemma length_after_last: "length (after_last c s) \<le> length s"
  using length_before [of c "rev s"] by (simp add: after_last_def)

lemma hostname_length:
  assumes "hostname u = Some h"
  shows "length h \<le> 2 * length (u_netloc u)"
proof -
  let ?hostinfo = "after_last 64 (u_netloc u)"
  let ?host = "if 91 \<in> set ?hostinfo then before 93 (after 91 ?hostinfo) else before 58 ?hostinfo"
  have "length ?host \<le> length ?hostinfo"
    using length_before [of 93 "after 91 ?hostinfo"] length_after [of 91 ?hostinfo] length_before [of 58 ?hostinfo] by auto
  moreover have "h = lower (before 37 ?host) @ drop (length (before 37 ?host)) ?host"
    using assms by (simp add: hostname_def Let_def split: if_splits)
  ultimately show ?thesis
    using length_lower [of "before 37 ?host"] length_before [of 37 ?host] length_after_last [of 64 "u_netloc u"] by simp
qed

lemma split_lengths: "length (snd (split_scheme s)) \<le> length s" "length (fst (split_netloc s)) \<le> length s"
proof -
  show "length (snd (split_scheme s)) \<le> length s" using length_after [of 58 s] by (simp add: split_scheme_def Let_def)
  have "length (takeWhile (\<lambda>c. c \<notin> {47, 63, 35}) (drop 2 s)) \<le> length s"
    using length_takeWhile_le [of "\<lambda>c. c \<notin> {47, 63, 35}" "drop 2 s"] by simp
  then show "length (fst (split_netloc s)) \<le> length s" by (simp add: split_netloc_def Let_def)
qed

lemma netloc_length:
  assumes "urlparse t = Inr u"
  shows "length (u_netloc u) \<le> length t"
proof -
  define url where "url = filter (\<lambda>c. c \<notin> {9, 10, 13}) (lstrip_chars [0..<33] t)"
  obtain scheme w netloc v where s: "split_scheme url = (scheme, w)" and n: "split_netloc w = (netloc, v)" by fastforce
  have "u_netloc u = netloc"
    using assms unfolding urlparse_def Let_def url_def [symmetric] by (simp add: s n split: if_splits) auto
  moreover have "length url \<le> length t"
    unfolding url_def lstrip_chars_def by (rule order_trans [OF length_filter_le length_dropWhile_le])
  ultimately show ?thesis using split_lengths(1) [of url] split_lengths(2) [of w] by (simp add: s n)
qed

lemma urlparse_path:
  assumes "urlparse t = Inr u"
  shows "35 \<notin> set (u_path u)" "63 \<notin> set (u_path u)" "set (u_netloc u) \<inter> {47, 63, 35} = {}"
proof -
  obtain scheme w netloc v where s: "split_scheme (filter (\<lambda>c. c \<notin> {9, 10, 13}) (lstrip_chars [0..<33] t)) = (scheme, w)"
    and n: "split_netloc w = (netloc, v)" by fastforce
  let ?path = "before 63 (before 35 v)"
  have clean: "35 \<notin> set ?path" "63 \<notin> set ?path" using set_before by blast+
  have "set netloc \<inter> {47, 63, 35} = {}"
    using n by (auto simp: split_netloc_def Let_def dest: set_takeWhileD split: if_splits)
  moreover have "u_path u = (if scheme \<in> set uses_params \<and> 59 \<in> set ?path then split_params ?path else ?path)"
    and "u_netloc u = netloc"
    using assms unfolding urlparse_def Let_def s n prod.case by (auto split: if_splits)
  ultimately show "35 \<notin> set (u_path u)" "63 \<notin> set (u_path u)" "set (u_netloc u) \<inter> {47, 63, 35} = {}"
    using clean set_split_params [of ?path] by auto
qed

end
