(* ===== verification/Web_Events.thy ===== *)
theory Web_Events
  imports Sql Calendar Url Vworld
begin

text \<open>
  \<open>app/services/web_stats_normalizers.py\<close>, \<open>web_stats_ingest.py\<close>, \<open>web_stats_constants.py\<close> and
  \<open>app/repositories/web_visit_write_repository.py\<close>: one visit event of a browser, from the command of
  the route to the row of the table. The clock reading is in microseconds since the epoch. The
  property says that an event is stored whole and within its bounds, or not at all.
\<close>

section \<open>Constants and records\<close>

definition WEB_EVENT_TYPES :: "pystr list" where
  "WEB_EVENT_TYPES = [asc ''visit_start'', asc ''heartbeat'', asc ''visit_end'']"

definition WEB_TRACKING_PAGE_PATH :: pystr where
  "WEB_TRACKING_PAGE_PATH = asc ''/''"

definition BOT_UA_PATTERNS :: "pystr list" where
  "BOT_UA_PATTERNS =
     map asc [''bot'', ''spider'', ''crawler'', ''curl'', ''wget'', ''python-requests'', ''httpclient'']"

record WebVisitContext =
  context_user_agent :: "pystr option"
  allowed_web_track_paths :: "pystr list"

record WebVisitEventCommand =
  wc_context :: WebVisitContext
  wc_event_type :: json
  wc_anon_id :: json
  wc_session_id :: json
  wc_page_path :: json
  wc_page_query :: json
  wc_client_ts :: json
  wc_client_tz :: json
  wc_client_lang :: json
  wc_platform :: json
  wc_referrer_url :: json
  wc_referrer_domain :: json
  wc_utm_source :: json
  wc_utm_medium :: json
  wc_utm_campaign :: json
  wc_utm_term :: json
  wc_utm_content :: json
  wc_screen_width :: json
  wc_screen_height :: json
  wc_viewport_width :: json
  wc_viewport_height :: json

definition build_web_visit_event_command :: "payload \<Rightarrow> WebVisitContext \<Rightarrow> WebVisitEventCommand" where
  "build_web_visit_event_command payload ctx =
     \<lparr>wc_context = ctx, wc_event_type = jget payload ''eventType'', wc_anon_id = jget payload ''anonId'',
      wc_session_id = jget payload ''sessionId'', wc_page_path = jget payload ''pagePath'',
      wc_page_query = jget payload ''pageQuery'', wc_client_ts = jget payload ''clientTs'',
      wc_client_tz = jget payload ''clientTz'', wc_client_lang = jget payload ''clientLang'',
      wc_platform = jget payload ''platform'', wc_referrer_url = jget payload ''referrerUrl'',
      wc_referrer_domain = jget payload ''referrerDomain'', wc_utm_source = jget payload ''utmSource'',
      wc_utm_medium = jget payload ''utmMedium'', wc_utm_campaign = jget payload ''utmCampaign'',
      wc_utm_term = jget payload ''utmTerm'', wc_utm_content = jget payload ''utmContent'',
      wc_screen_width = jget payload ''screenWidth'', wc_screen_height = jget payload ''screenHeight'',
      wc_viewport_width = jget payload ''viewportWidth'', wc_viewport_height = jget payload ''viewportHeight''\<rparr>"

section \<open>Normalisers\<close>

definition normalize_event_type :: "pylib \<Rightarrow> json \<Rightarrow> pystr result" where
  "normalize_event_type lib raw =
     (let event_type = strip (str_or_empty (lib_str lib) raw)
      in if event_type \<notin> set WEB_EVENT_TYPES then Inl (ValidationError 400 (asc ''Unsupported eventType.''))
         else Inr event_type)"

definition normalize_required_token :: "pylib \<Rightarrow> json \<Rightarrow> string \<Rightarrow> pystr result" where
  "normalize_required_token lib raw field_name =
     (let value = strip (str_or_empty (lib_str lib) raw)
      in if value = [] then Inl (ValidationError 400 (asc field_name @ asc '' is required.''))
         else Inr (take 128 value))"

definition normalize_optional_string :: "pylib \<Rightarrow> json \<Rightarrow> nat \<Rightarrow> pystr option" where
  "normalize_optional_string lib raw max_length =
     (if raw = JNull then None
      else let value = strip (py_str (lib_str lib) raw)
           in if value = [] then None else Some (take max_length value))"

definition normalize_optional_int :: "json \<Rightarrow> int \<Rightarrow> int \<Rightarrow> int option result" where
  "normalize_optional_int raw min_value max_value =
     (if raw = JNull \<or> raw = JStr [] then Inr None
      else case int_of_json raw of
             Inl TypeErr \<Rightarrow> Inl (ValidationError 400 (asc ''numeric client context fields must be integer.''))
           | Inl (ValueErr _) \<Rightarrow> Inl (ValidationError 400 (asc ''numeric client context fields must be integer.''))
           | Inl e \<Rightarrow> Inl e
           | Inr value \<Rightarrow> if value < min_value \<or> max_value < value then Inr None else Inr (Some value))"

definition normalize_page_path :: "pylib \<Rightarrow> json \<Rightarrow> pystr list \<Rightarrow> pystr result" where
  "normalize_page_path lib raw allowed_paths =
     (let value = strip (str_or_empty (lib_str lib) raw);
          value = (if value = [] then WEB_TRACKING_PAGE_PATH else value)
      in if \<not> startswith value (asc ''/'') then Inl (ValidationError 400 (asc ''pagePath must start with '' @ [39, 47, 39, 46]))
         else if 256 < length value then Inl (ValidationError 400 (asc ''pagePath is too long.''))
         else if value \<notin> set allowed_paths then Inl (ValidationError 400 (asc ''Unsupported pagePath.''))
         else Inr value)"

definition normalize_query_string :: "pylib \<Rightarrow> json \<Rightarrow> nat \<Rightarrow> pystr option" where
  "normalize_query_string lib raw max_length =
     (if raw = JNull then None
      else let value = strip (py_str (lib_str lib) raw)
           in if value = [] then None
              else let value = (if startswith value (asc ''?'') then tl value else value)
                   in Some (take max_length value))"

definition normalize_referrer_url :: "pylib \<Rightarrow> json \<Rightarrow> pystr option" where
  "normalize_referrer_url lib raw =
     (case normalize_optional_string lib raw 2048 of
        None \<Rightarrow> None
      | Some text \<Rightarrow>
          (case urlparse text of
             Inl _ \<Rightarrow> None
           | Inr parsed \<Rightarrow>
               if u_scheme parsed \<notin> {asc ''http'', asc ''https''} \<or> u_netloc parsed = [] then None
               else let path = (if u_path parsed = [] then asc ''/'' else u_path parsed)
                    in Some (take 1024 (u_scheme parsed @ asc ''://'' @ u_netloc parsed @ path))))"

definition normalize_referrer_domain :: "pylib \<Rightarrow> json \<Rightarrow> pystr option \<Rightarrow> pystr option" where
  "normalize_referrer_domain lib raw_domain referrer_url =
     (case normalize_optional_string lib raw_domain 255 of
        Some domain \<Rightarrow> Some (lower domain)
      | None \<Rightarrow>
          (case referrer_url of
             None \<Rightarrow> None
           | Some url \<Rightarrow>
               if url = [] then None
               else case urlparse url of
                      Inl _ \<Rightarrow> None
                    | Inr parsed \<Rightarrow>
                        let host = lower (strip (case hostname parsed of Some h \<Rightarrow> h | None \<Rightarrow> []))
                        in if host = [] then None else Some host))"

text \<open>
  \<open>datetime.fromtimestamp\<close> in UTC: the fraction is scaled to microseconds as a double and rounded half
  to even; an instant outside the years 1 to 9999 raises.
\<close>

definition fromtimestamp :: "pyfloat \<Rightarrow> int result" where
  "fromtimestamp ts =
     (case ts of
        Fin q \<Rightarrow>
          (let whole = trunc q;
               us = whole * 1000000 + (case dbl ((q - of_int whole) * 1000000) of Fin f \<Rightarrow> round_half_even f | _ \<Rightarrow> 0)
           in if - 62135596800 * 1000000 \<le> us \<and> us < 253402300800 * 1000000 then Inr us else Inl (ValueErr None))
      | NaN \<Rightarrow> Inl (ValueErr None)
      | _ \<Rightarrow> Inl OverflowErr)"

definition strftime_us :: "int \<Rightarrow> pystr" where
  "strftime_us us = fmt_ts (us div 1000000)"

abbreviation "FIVE_MINUTES \<equiv> 300 * 1000000 :: int"
abbreviation "SEVEN_DAYS \<equiv> 7 * 86400 * 1000000 :: int"

definition clamp_event_time :: "int \<Rightarrow> int \<Rightarrow> int" where
  "clamp_event_time now event_dt =
     (let event_dt = (if now + FIVE_MINUTES < event_dt then now else event_dt)
      in if event_dt < now - SEVEN_DAYS then now - SEVEN_DAYS else event_dt)"

definition parse_client_ts :: "int \<Rightarrow> json \<Rightarrow> pystr result" where
  "parse_client_ts now raw =
     (if raw = JNull \<or> raw = JStr [] then Inr (strftime_us now)
      else case float_of_json raw of
             Inl TypeErr \<Rightarrow> Inl (ValidationError 400 (asc ''clientTs must be unix timestamp seconds.''))
           | Inl (ValueErr _) \<Rightarrow> Inl (ValidationError 400 (asc ''clientTs must be unix timestamp seconds.''))
           | Inl e \<Rightarrow> Inl e
           | Inr ts \<Rightarrow>
               (case fromtimestamp ts of
                  Inl _ \<Rightarrow> Inl (ValidationError 400 (asc ''clientTs must be unix timestamp seconds.''))
                | Inr event_dt \<Rightarrow> Inr (strftime_us (clamp_event_time now event_dt))))"

definition is_bot_user_agent :: "pystr \<Rightarrow> bool" where
  "is_bot_user_agent user_agent =
     (let normalized = lower user_agent in list_ex (\<lambda>pattern. contains_str pattern normalized) BOT_UA_PATTERNS)"

definition classify_browser_family :: "pystr \<Rightarrow> pystr" where
  "classify_browser_family user_agent =
     (let ua = lower user_agent; has = (\<lambda>s. contains_str (asc s) ua)
      in if has ''edg/'' \<or> has ''edge/'' then asc ''edge''
         else if has ''opr/'' \<or> has ''opera'' then asc ''other''
         else if has ''chrome/'' \<and> \<not> has ''chromium'' \<and> \<not> has ''edg/'' then asc ''chrome''
         else if has ''safari/'' \<and> \<not> has ''chrome/'' \<and> \<not> has ''chromium'' then asc ''safari''
         else if has ''firefox/'' then asc ''firefox''
         else if has ''trident/'' \<or> has ''msie'' then asc ''ie''
         else asc ''other'')"

definition classify_device_type :: "pystr \<Rightarrow> bool \<Rightarrow> pystr" where
  "classify_device_type user_agent is_bot =
     (if is_bot then asc ''bot''
      else let ua = lower user_agent; has = (\<lambda>s. contains_str (asc s) ua)
           in if has ''tablet'' \<or> has ''ipad'' then asc ''tablet''
              else if has ''mobile'' \<or> has ''iphone'' \<or> has ''android'' then asc ''mobile''
              else if ua = [] then asc ''unknown''
              else asc ''desktop'')"

definition classify_os_family :: "pystr \<Rightarrow> pystr" where
  "classify_os_family user_agent =
     (let ua = lower user_agent; has = (\<lambda>s. contains_str (asc s) ua)
      in if has ''windows'' then asc ''windows''
         else if has ''mac os'' \<or> has ''macintosh'' then asc ''macos''
         else if has ''iphone'' \<or> has ''ipad'' \<or> has ''ios'' then asc ''ios''
         else if has ''android'' then asc ''android''
         else if has ''linux'' then asc ''linux''
         else asc ''other'')"

section \<open>Normalised events\<close>

record UserAgentContext =
  ua_user_agent :: "pystr option"
  ua_is_bot :: bool
  ua_browser_family :: pystr
  ua_device_type :: pystr
  ua_os_family :: pystr

record NormalizedWebVisitCore =
  vc_anon_id :: pystr
  vc_session_id :: pystr
  vc_event_type :: pystr
  vc_page_path :: pystr
  vc_page_query :: "pystr option"
  vc_occurred_at :: pystr

record ClientContext =
  cc_client_tz :: "pystr option"
  cc_client_lang :: "pystr option"
  cc_platform :: "pystr option"
  cc_screen_width :: "int option"
  cc_screen_height :: "int option"
  cc_viewport_width :: "int option"
  cc_viewport_height :: "int option"

record MarketingContext =
  mc_referrer_url :: "pystr option"
  mc_referrer_domain :: "pystr option"
  mc_utm_source :: "pystr option"
  mc_utm_medium :: "pystr option"
  mc_utm_campaign :: "pystr option"
  mc_utm_term :: "pystr option"
  mc_utm_content :: "pystr option"

text \<open>The fields of the event, in the groups it is assembled from.\<close>

record NormalizedWebVisitEvent =
  ne_core :: NormalizedWebVisitCore
  ne_client :: ClientContext
  ne_marketing :: MarketingContext
  ne_user_agent :: UserAgentContext

definition normalize_web_visit_core ::
  "int \<Rightarrow> pylib \<Rightarrow> WebVisitEventCommand \<Rightarrow> WebVisitContext \<Rightarrow> NormalizedWebVisitCore result" where
  "normalize_web_visit_core now lib c ctx =
     bindR (normalize_required_token lib (wc_anon_id c) ''anonId'') (\<lambda>anon_id.
     bindR (normalize_required_token lib (wc_session_id c) ''sessionId'') (\<lambda>session_id.
     bindR (normalize_event_type lib (wc_event_type c)) (\<lambda>event_type.
     bindR (normalize_page_path lib (wc_page_path c) (allowed_web_track_paths ctx)) (\<lambda>page_path.
     let page_query = normalize_query_string lib (wc_page_query c) 1024 in
     bindR (parse_client_ts now (wc_client_ts c)) (\<lambda>occurred_at.
       Inr \<lparr>vc_anon_id = anon_id, vc_session_id = session_id, vc_event_type = event_type, vc_page_path = page_path,
            vc_page_query = page_query, vc_occurred_at = occurred_at\<rparr>)))))"

definition normalize_client_context :: "pylib \<Rightarrow> WebVisitEventCommand \<Rightarrow> ClientContext result" where
  "normalize_client_context lib c =
     bindR (normalize_optional_int (wc_screen_width c) 0 20000) (\<lambda>sw.
     bindR (normalize_optional_int (wc_screen_height c) 0 20000) (\<lambda>sh.
     bindR (normalize_optional_int (wc_viewport_width c) 0 20000) (\<lambda>vw.
     bindR (normalize_optional_int (wc_viewport_height c) 0 20000) (\<lambda>vh.
       Inr \<lparr>cc_client_tz = normalize_optional_string lib (wc_client_tz c) 64,
            cc_client_lang = normalize_optional_string lib (wc_client_lang c) 64,
            cc_platform = normalize_optional_string lib (wc_platform c) 64,
            cc_screen_width = sw, cc_screen_height = sh, cc_viewport_width = vw, cc_viewport_height = vh\<rparr>))))"

definition normalize_marketing_context :: "pylib \<Rightarrow> WebVisitEventCommand \<Rightarrow> MarketingContext" where
  "normalize_marketing_context lib c =
     (let referrer_url = normalize_referrer_url lib (wc_referrer_url c)
      in \<lparr>mc_referrer_url = referrer_url,
          mc_referrer_domain = normalize_referrer_domain lib (wc_referrer_domain c) referrer_url,
          mc_utm_source = normalize_optional_string lib (wc_utm_source c) 256,
          mc_utm_medium = normalize_optional_string lib (wc_utm_medium c) 256,
          mc_utm_campaign = normalize_optional_string lib (wc_utm_campaign c) 256,
          mc_utm_term = normalize_optional_string lib (wc_utm_term c) 256,
          mc_utm_content = normalize_optional_string lib (wc_utm_content c) 256\<rparr>)"

definition derive_user_agent_context :: "WebVisitContext \<Rightarrow> UserAgentContext" where
  "derive_user_agent_context ctx =
     (let text = take 500 (case context_user_agent ctx of Some s \<Rightarrow> s | None \<Rightarrow> []);
          user_agent = (if text = [] then None else Some text);
          is_bot = is_bot_user_agent text
      in \<lparr>ua_user_agent = user_agent, ua_is_bot = is_bot, ua_browser_family = classify_browser_family text,
          ua_device_type = classify_device_type text is_bot, ua_os_family = classify_os_family text\<rparr>)"

definition assemble_normalized_web_visit_event ::
  "NormalizedWebVisitCore \<Rightarrow> ClientContext \<Rightarrow> MarketingContext \<Rightarrow> UserAgentContext \<Rightarrow> NormalizedWebVisitEvent" where
  "assemble_normalized_web_visit_event core client_context marketing_context user_agent_context =
     \<lparr>ne_core = core, ne_client = client_context, ne_marketing = marketing_context, ne_user_agent = user_agent_context\<rparr>"

definition normalize_web_visit_event ::
  "int \<Rightarrow> pylib \<Rightarrow> WebVisitEventCommand \<Rightarrow> NormalizedWebVisitEvent result" where
  "normalize_web_visit_event now lib c =
     (let ctx = wc_context c in
      bindR (normalize_web_visit_core now lib c ctx) (\<lambda>core.
      bindR (normalize_client_context lib c) (\<lambda>client_context.
        Inr (assemble_normalized_web_visit_event core client_context (normalize_marketing_context lib c)
               (derive_user_agent_context ctx)))))"

section \<open>The table\<close>

record web_visit =
  wv_id :: int
  wv_anon_id :: pystr
  wv_session_id :: pystr
  wv_event_type :: pystr
  wv_page_path :: pystr
  wv_page_query :: "pystr option"
  wv_occurred_at :: pystr
  wv_client_tz :: "pystr option"
  wv_client_lang :: "pystr option"
  wv_platform :: "pystr option"
  wv_user_agent :: "pystr option"
  wv_is_bot :: bool
  wv_referrer_url :: "pystr option"
  wv_referrer_domain :: "pystr option"
  wv_utm_source :: "pystr option"
  wv_utm_medium :: "pystr option"
  wv_utm_campaign :: "pystr option"
  wv_utm_term :: "pystr option"
  wv_utm_content :: "pystr option"
  wv_screen_width :: "int option"
  wv_screen_height :: "int option"
  wv_viewport_width :: "int option"
  wv_viewport_height :: "int option"
  wv_browser_family :: "pystr option"
  wv_device_type :: "pystr option"
  wv_os_family :: "pystr option"

record web_db =
  wv_rows :: "web_visit list"
  wv_seq :: int

text \<open>The columns but the identifier are those of \<open>v\<close>.\<close>

definition insert_web_visit_event :: "web_visit \<Rightarrow> web_db conn \<Rightarrow> unit result \<times> web_db conn" where
  "insert_web_visit_event v c =
     (case bind_texts [Some (wv_anon_id v), Some (wv_session_id v), Some (wv_event_type v), Some (wv_page_path v),
             wv_page_query v, Some (wv_occurred_at v), wv_client_tz v, wv_client_lang v, wv_platform v, wv_user_agent v,
             wv_referrer_url v, wv_referrer_domain v, wv_utm_source v, wv_utm_medium v, wv_utm_campaign v,
             wv_utm_term v, wv_utm_content v, wv_browser_family v, wv_device_type v, wv_os_family v] of
        Inl e \<Rightarrow> (Inl e, c)
      | Inr _ \<Rightarrow>
          (Inr (), execute (\<lambda>d. d\<lparr>wv_rows := wv_rows d @ [v\<lparr>wv_id := wv_seq d + 1\<rparr>], wv_seq := wv_seq d + 1\<rparr>) c))"

definition event_row :: "NormalizedWebVisitEvent \<Rightarrow> web_visit" where
  "event_row e =
     (let core = ne_core e; cl = ne_client e; mk = ne_marketing e; ua = ne_user_agent e
      in \<lparr>wv_id = 0, wv_anon_id = vc_anon_id core, wv_session_id = vc_session_id core,
          wv_event_type = vc_event_type core, wv_page_path = vc_page_path core, wv_page_query = vc_page_query core,
          wv_occurred_at = vc_occurred_at core, wv_client_tz = cc_client_tz cl, wv_client_lang = cc_client_lang cl,
          wv_platform = cc_platform cl, wv_user_agent = ua_user_agent ua, wv_is_bot = ua_is_bot ua,
          wv_referrer_url = mc_referrer_url mk, wv_referrer_domain = mc_referrer_domain mk,
          wv_utm_source = mc_utm_source mk, wv_utm_medium = mc_utm_medium mk, wv_utm_campaign = mc_utm_campaign mk,
          wv_utm_term = mc_utm_term mk, wv_utm_content = mc_utm_content mk, wv_screen_width = cc_screen_width cl,
          wv_screen_height = cc_screen_height cl, wv_viewport_width = cc_viewport_width cl,
          wv_viewport_height = cc_viewport_height cl, wv_browser_family = Some (ua_browser_family ua),
          wv_device_type = Some (ua_device_type ua), wv_os_family = Some (ua_os_family ua)\<rparr>)"

definition persist_web_visit_event :: "NormalizedWebVisitEvent \<Rightarrow> web_db \<Rightarrow> unit result \<times> web_db" where
  "persist_web_visit_event event =
     db_connection (\<lambda>c. case insert_web_visit_event (event_row event) c of
        (Inl e, c) \<Rightarrow> (Inl e, c) | (Inr _, c) \<Rightarrow> (Inr (), commit c))"

definition record_web_visit_event ::
  "int \<Rightarrow> pylib \<Rightarrow> WebVisitEventCommand \<Rightarrow> web_db \<Rightarrow> unit result \<times> web_db" where
  "record_web_visit_event now lib c d =
     (case normalize_web_visit_event now lib c of
        Inl e \<Rightarrow> (Inl e, d) | Inr event \<Rightarrow> persist_web_visit_event event d)"

section \<open>What is stored\<close>

definition dimension_ok :: "int option \<Rightarrow> bool" where
  "dimension_ok x \<longleftrightarrow> (case x of None \<Rightarrow> True | Some n \<Rightarrow> 0 \<le> n \<and> n \<le> 20000)"

definition referrer_ok :: "pystr option \<Rightarrow> bool" where
  "referrer_ok r \<longleftrightarrow> (case r of None \<Rightarrow> True | Some s \<Rightarrow> length s \<le> 1024 \<and> startswith s (asc ''http'') \<and> set s \<inter> {35, 63} = {})"

text \<open>
  The domain of a referrer: at most 255 characters that the client sent, in lower case, or the host of the stored
  address. The lower case of a character may be two.
\<close>

definition domain_ok :: "pystr option \<Rightarrow> pystr option \<Rightarrow> bool" where
  "domain_ok referrer domain \<longleftrightarrow>
     (case domain of
        None \<Rightarrow> True
      | Some s \<Rightarrow>
          s \<noteq> [] \<and> length s \<le> 4096 \<and>
          ((\<exists>t. length t \<le> 255 \<and> s = lower t) \<or>
           (\<exists>url parsed host. referrer = Some url \<and> urlparse url = Inr parsed \<and> hostname parsed = Some host \<and>
              s = lower (strip host))))"

definition among :: "string list \<Rightarrow> pystr option \<Rightarrow> bool" where
  "among names x \<longleftrightarrow> (\<exists>name \<in> set names. x = Some (asc name))"

text \<open>The time of a row is a text of an instant of the last seven days, at most five minutes ahead.\<close>

definition time_ok :: "int \<Rightarrow> pystr \<Rightarrow> bool" where
  "time_ok now t \<longleftrightarrow> (\<exists>us. now - SEVEN_DAYS \<le> us \<and> us \<le> now + FIVE_MINUTES \<and> t = strftime_us us)"

definition token_ok :: "pystr \<Rightarrow> bool" where
  "token_ok t \<longleftrightarrow> t \<noteq> [] \<and> length t \<le> 128"

definition visit_ok :: "int \<Rightarrow> pystr list \<Rightarrow> web_visit \<Rightarrow> bool" where
  "visit_ok now allowed v \<longleftrightarrow>
     token_ok (wv_anon_id v) \<and> token_ok (wv_session_id v) \<and> wv_event_type v \<in> set WEB_EVENT_TYPES \<and>
     wv_page_path v \<in> set allowed \<and> startswith (wv_page_path v) (asc ''/'') \<and> length (wv_page_path v) \<le> 256 \<and>
     at_most 1024 (wv_page_query v) \<and> time_ok now (wv_occurred_at v) \<and>
     at_most 64 (wv_client_tz v) \<and> at_most 64 (wv_client_lang v) \<and> at_most 64 (wv_platform v) \<and>
     at_most 500 (wv_user_agent v) \<and> (wv_is_bot v \<longleftrightarrow> wv_device_type v = Some (asc ''bot'')) \<and>
     among [''bot'', ''tablet'', ''mobile'', ''unknown'', ''desktop''] (wv_device_type v) \<and>
     among [''edge'', ''chrome'', ''safari'', ''firefox'', ''ie'', ''other''] (wv_browser_family v) \<and>
     among [''windows'', ''macos'', ''ios'', ''android'', ''linux'', ''other''] (wv_os_family v) \<and>
     domain_ok (wv_referrer_url v) (wv_referrer_domain v) \<and> referrer_ok (wv_referrer_url v) \<and> at_most 256 (wv_utm_source v) \<and> at_most 256 (wv_utm_medium v) \<and>
     at_most 256 (wv_utm_campaign v) \<and> at_most 256 (wv_utm_term v) \<and> at_most 256 (wv_utm_content v) \<and>
     dimension_ok (wv_screen_width v) \<and> dimension_ok (wv_screen_height v) \<and>
     dimension_ok (wv_viewport_width v) \<and> dimension_ok (wv_viewport_height v)"

lemma at_most_optional [simp]: "at_most n (normalize_optional_string lib raw n)"
  by (simp add: normalize_optional_string_def at_most_def Let_def)

lemma at_most_query [simp]: "at_most n (normalize_query_string lib raw n)"
  by (simp add: normalize_query_string_def at_most_def Let_def)

lemma dimension_normalized: "normalize_optional_int raw 0 20000 = Inr v \<Longrightarrow> dimension_ok v"
  by (auto simp: normalize_optional_int_def dimension_ok_def split: if_splits sum.splits exn.splits)

lemma token_normalized: "normalize_required_token lib raw f = Inr v \<Longrightarrow> token_ok v"
  by (auto simp: normalize_required_token_def token_ok_def Let_def split: if_splits)

lemma event_type_normalized: "normalize_event_type lib raw = Inr v \<Longrightarrow> v \<in> set WEB_EVENT_TYPES"
  by (auto simp: normalize_event_type_def Let_def split: if_splits)

lemma page_path_normalized:
  "normalize_page_path lib raw allowed = Inr v \<Longrightarrow> v \<in> set allowed \<and> startswith v (asc ''/'') \<and> length v \<le> 256"
  unfolding normalize_page_path_def Let_def
  by (auto split: if_splits)

lemma device_bot: "classify_device_type ua b = asc ''bot'' \<longleftrightarrow> b"
  by (simp add: classify_device_type_def Let_def)

lemma clamp_event_time_bounds: "now - SEVEN_DAYS \<le> clamp_event_time now e \<and> clamp_event_time now e \<le> now + FIVE_MINUTES"
  by (simp add: clamp_event_time_def Let_def)

lemma client_ts_normalized: "parse_client_ts now raw = Inr t \<Longrightarrow> time_ok now t"
proof -
  have "time_ok now (strftime_us now)" unfolding time_ok_def by (intro exI [of _ now]) simp
  moreover have "time_ok now (strftime_us (clamp_event_time now e))" for e
    unfolding time_ok_def using clamp_event_time_bounds by blast
  ultimately show "parse_client_ts now raw = Inr t \<Longrightarrow> time_ok now t"
    by (auto simp: parse_client_ts_def split: if_splits sum.splits exn.splits)
qed

lemma referrer_normalized [simp]: "referrer_ok (normalize_referrer_url lib raw)"
proof (cases "normalize_optional_string lib raw 2048")
  case (Some txt0)
  show ?thesis
  proof (cases "urlparse txt0")
    case (Inr u)
    note p = urlparse_path [OF Inr]
    have "referrer_ok (Some (take 1024 (s @ asc ''://'' @ u_netloc u @ q)))"
      if "s \<in> {asc ''http'', asc ''https''}" "q = asc ''/'' \<or> q = u_path u" for s q
    proof -
      let ?url = "s @ asc ''://'' @ u_netloc u @ q"
      have "set s \<inter> {35, 63} = {}" and "startswith s (asc ''http'')" using that(1) by (auto simp: py_simps startswith_def)
      moreover have "set (asc ''://'') \<inter> {35, 63} = {}" and "set (asc ''/'') \<inter> {35, 63} = {}" by (simp_all add: py_simps)
      ultimately have clean: "set ?url \<inter> {35, 63} = {}" using p that(2) by auto
      then have "set (take 1024 ?url) \<inter> {35, 63} = {}" by (auto dest: in_set_takeD)
      moreover have "startswith (take 1024 ?url) (asc ''http'')"
        using \<open>startswith s (asc ''http'')\<close> by (auto simp: startswith_iff)
      ultimately show ?thesis by (simp add: referrer_ok_def)
    qed
    then show ?thesis by (auto simp: normalize_referrer_url_def Some Inr Let_def referrer_ok_def [of None])
  qed (simp add: normalize_referrer_url_def Some referrer_ok_def)
qed (simp add: normalize_referrer_url_def referrer_ok_def)

lemma lower_empty: "lower s = [] \<longleftrightarrow> s = []"
  by (cases s) (auto simp: lower_def lower_char_def split: option.split)

lemma domain_normalized [simp]: "domain_ok (normalize_referrer_url lib raw_url) (normalize_referrer_domain lib raw (normalize_referrer_url lib raw_url))"
proof (cases "normalize_optional_string lib raw 255")
  case (Some t)
  then have "t \<noteq> []" "length t \<le> 255" by (auto simp: normalize_optional_string_def Let_def split: if_splits)
  with Some length_lower [of t] show ?thesis by (auto simp: normalize_referrer_domain_def domain_ok_def lower_empty)
next
  case None
  show ?thesis
  proof (cases "normalize_referrer_url lib raw_url")
    case url: (Some url)
    show ?thesis
    proof (cases "urlparse url")
      case (Inr parsed)
      have "length url \<le> 1024" using referrer_normalized [of lib raw_url] by (simp add: url referrer_ok_def)
      then have len: "length (lower (strip h)) \<le> 4096" if "hostname parsed = Some h" for h
        using length_lower [of "strip h"] length_strip [of h] hostname_length [OF that] netloc_length [OF Inr] by linarith
      have "domain_ok (Some url) (if host = [] then None else Some host)"
        if "host = lower (strip (case hostname parsed of Some h \<Rightarrow> h | None \<Rightarrow> []))" for host
        using len that Inr by (cases "hostname parsed") (auto simp: domain_ok_def strip_def lower_def)
      then show ?thesis by (simp add: normalize_referrer_domain_def None url Inr Let_def domain_ok_def [of _ None])
    qed (simp add: normalize_referrer_domain_def None url domain_ok_def)
  qed (simp add: normalize_referrer_domain_def None domain_ok_def)
qed

lemma families [simp]:
  "among [''edge'', ''chrome'', ''safari'', ''firefox'', ''ie'', ''other''] (Some (classify_browser_family ua))"
  "among [''windows'', ''macos'', ''ios'', ''android'', ''linux'', ''other''] (Some (classify_os_family ua))"
  "among [''bot'', ''tablet'', ''mobile'', ''unknown'', ''desktop''] (Some (classify_device_type ua b))"
  by (simp_all add: classify_browser_family_def classify_os_family_def classify_device_type_def among_def Let_def)

text \<open>The errors of an event: a refusal, or what the number and text conversions raise.\<close>

definition visit_error :: "exn \<Rightarrow> bool" where
  "visit_error e \<longleftrightarrow> (\<exists>m. e = ValidationError 400 m) \<or> e = OverflowErr \<or> e = ValueErr None"

lemma visit_error_simps [simp]:
  "visit_error (ValidationError 400 m)" "visit_error OverflowErr" "visit_error (ValueErr None)"
  by (simp_all add: visit_error_def)

lemma int_of_json_error: "int_of_json j = Inl e \<Longrightarrow> e = TypeErr \<or> e = OverflowErr \<or> e = ValueErr None"
  by (cases j rule: int_of_json.cases) (auto simp: py_int_def split: prod.splits if_splits)

lemma float_of_json_error: "float_of_json j = Inl e \<Longrightarrow> e = TypeErr \<or> e = OverflowErr \<or> e = ValueErr None"
  by (cases j)
     (auto simp: py_float_def float_of_int_def Let_def split: prod.splits if_splits option.splits pyfloat.splits)

lemma normalizer_errors:
  "normalize_event_type lib raw = Inl e \<Longrightarrow> visit_error e"
  "normalize_required_token lib raw f = Inl e \<Longrightarrow> visit_error e"
  "normalize_page_path lib raw allowed = Inl e \<Longrightarrow> visit_error e"
  "normalize_optional_int raw lo hi = Inl e \<Longrightarrow> visit_error e"
  "parse_client_ts now raw = Inl e \<Longrightarrow> visit_error e"
proof -
  show "normalize_event_type lib raw = Inl e \<Longrightarrow> visit_error e"
    "normalize_required_token lib raw f = Inl e \<Longrightarrow> visit_error e"
    "normalize_page_path lib raw allowed = Inl e \<Longrightarrow> visit_error e"
    by (auto simp: normalize_event_type_def normalize_required_token_def normalize_page_path_def Let_def split: if_splits)
  show "normalize_optional_int raw lo hi = Inl e \<Longrightarrow> visit_error e"
    using int_of_json_error [of raw]
    by (cases "int_of_json raw") (auto simp: normalize_optional_int_def split: if_splits)
  show "parse_client_ts now raw = Inl e \<Longrightarrow> visit_error e"
    using float_of_json_error [of raw]
    by (cases "float_of_json raw") (auto simp: parse_client_ts_def split: if_splits sum.splits)
qed

lemma normalize_web_visit_event_spec:
  "case normalize_web_visit_event now lib c of
     Inl e \<Rightarrow> visit_error e
   | Inr ev \<Rightarrow> visit_ok now (allowed_web_track_paths (wc_context c)) (event_row ev\<lparr>wv_id := i\<rparr>)"
proof (cases "normalize_web_visit_event now lib c")
  case (Inl e)
  then show ?thesis
    by (auto simp: normalize_web_visit_event_def normalize_web_visit_core_def normalize_client_context_def Let_def
        bindR_Inl_iff dest: normalizer_errors)
next
  case (Inr ev)
  then obtain core cl where core: "normalize_web_visit_core now lib c (wc_context c) = Inr core"
    and cl: "normalize_client_context lib c = Inr cl"
    and ev: "ev = assemble_normalized_web_visit_event core cl (normalize_marketing_context lib c)
        (derive_user_agent_context (wc_context c))"
    by (auto simp: normalize_web_visit_event_def Let_def bindR_Inr_iff)
  have "token_ok (vc_anon_id core) \<and> token_ok (vc_session_id core) \<and> vc_event_type core \<in> set WEB_EVENT_TYPES \<and>
      vc_page_path core \<in> set (allowed_web_track_paths (wc_context c)) \<and> startswith (vc_page_path core) (asc ''/'') \<and>
      length (vc_page_path core) \<le> 256 \<and> at_most 1024 (vc_page_query core) \<and> time_ok now (vc_occurred_at core)"
    using core by (auto simp: normalize_web_visit_core_def Let_def bindR_Inr_iff
        dest: token_normalized event_type_normalized page_path_normalized client_ts_normalized)
  moreover have "dimension_ok (cc_screen_width cl) \<and> dimension_ok (cc_screen_height cl) \<and>
      dimension_ok (cc_viewport_width cl) \<and> dimension_ok (cc_viewport_height cl) \<and>
      at_most 64 (cc_client_tz cl) \<and> at_most 64 (cc_client_lang cl) \<and> at_most 64 (cc_platform cl)"
    using cl by (auto simp: normalize_client_context_def bindR_Inr_iff dest: dimension_normalized)
  ultimately show ?thesis
    by (simp add: Inr ev visit_ok_def event_row_def assemble_normalized_web_visit_event_def normalize_marketing_context_def
        derive_user_agent_context_def device_bot Let_def at_most_def [of 500])
qed

lemma record_web_visit_event_spec:
  "case record_web_visit_event now lib c d of (r, d') \<Rightarrow>
     (case r of
        Inl e \<Rightarrow> d' = d \<and> visit_error e
      | Inr _ \<Rightarrow> \<exists>v. visit_ok now (allowed_web_track_paths (wc_context c)) v \<and> wv_id v = wv_seq d + 1 \<and>
          d' = \<lparr>wv_rows = wv_rows d @ [v], wv_seq = wv_seq d + 1\<rparr>)"
proof (cases "normalize_web_visit_event now lib c")
  case (Inl e)
  then show ?thesis using normalize_web_visit_event_spec [where now = now and lib = lib and c = c] by (simp add: record_web_visit_event_def)
next
  case (Inr ev)
  let ?v = "event_row ev\<lparr>wv_id := wv_seq d + 1\<rparr>"
  have ok: "visit_ok now (allowed_web_track_paths (wc_context c)) ?v"
    using normalize_web_visit_event_spec [where now = now and lib = lib and c = c and i = "wv_seq d + 1"] Inr by simp
  obtain r c' where ins: "insert_web_visit_event (event_row ev) \<lparr>work = d, disk = d\<rparr> = (r, c')" by fastforce
  have run: "record_web_visit_event now lib c d = (case r of Inl e \<Rightarrow> (Inl e, disk c') | Inr _ \<Rightarrow> (Inr (), work c'))"
    by (simp add: record_web_visit_event_def Inr persist_web_visit_event_def db_connection_def ins split: sum.split)
  show ?thesis
  proof (cases r)
    case (Inl e)
    then have "disk c' = d" "visit_error e"
      using ins bind_texts_Inl by (auto simp: insert_web_visit_event_def visit_error_def split: sum.splits)
    then show ?thesis by (simp add: run Inl)
  next
    case (Inr u)
    then have "work c' = \<lparr>wv_rows = wv_rows d @ [?v], wv_seq = wv_seq d + 1\<rparr>"
      using ins by (auto simp: insert_web_visit_event_def split: sum.splits)
    then show ?thesis using ok by (auto simp: run Inr intro!: exI [of _ ?v])
  qed
qed

lemma fromtimestamp_int:
  "fromtimestamp (Fin (of_int n)) =
     (if - 62135596800 \<le> n \<and> n < 253402300800 then Inr (n * 1000000) else Inl (ValueErr None))"
  using round_half_even_of_int [of 0] by (auto simp: fromtimestamp_def trunc_def Let_def)

text \<open>
  Two surprises: the user agent of an iPhone names Mac OS X, and an allowed root page allows no other page.
\<close>

lemma iphone_is_macos:
  "classify_os_family (asc ''Mozilla/5.0 (iPhone; CPU iPhone OS 17_0 like Mac OS X)'') = asc ''macos''"
  by code_simp

lemma map_path:
  "strip (asc ''/map'') = asc ''/map''" "startswith (asc ''/map'') (asc ''/'')" "length (asc ''/map'') = 4"
  "asc ''/map'' \<noteq> asc ''/''" "asc ''/map'' \<noteq> []"
  by code_simp+

lemma root_path_is_exact:
  "normalize_page_path lib (JStr (asc ''/map'')) [asc ''/''] = Inl (ValidationError 400 (asc ''Unsupported pagePath.''))"
  by (simp add: normalize_page_path_def str_or_empty_def Let_def map_path)

section \<open>Properties\<close>


text \<open>
  A client time in whole seconds is kept if it lies in the last seven days or at most five minutes
  ahead; a later one becomes the time of the server, an earlier one the start of the seven days, and a
  number that is no date of the years 1 to 9999 is refused.
\<close>

theorem client_ts_clamped:
  assumes "\<bar>n\<bar> < 2 ^ 53"
  shows "parse_client_ts now (JInt n) =
    (if n < - 62135596800 \<or> 253402300800 \<le> n
     then Inl (ValidationError 400 (asc ''clientTs must be unix timestamp seconds.''))
     else Inr (if now + 300 * 1000000 < n * 1000000 then strftime_us now
               else if n * 1000000 < now - 7 * 86400 * 1000000 then strftime_us (now - 7 * 86400 * 1000000)
               else fmt_ts n))"
  using dbl_of_int [OF assms]
  by (simp add: parse_client_ts_def float_of_int_def fromtimestamp_int clamp_event_time_def strftime_us_def)

theorem client_ts_clamped_witness:
  "parse_client_ts (1700000000 * 1000000) (JInt 1699999999) = Inr (asc ''2023-11-14 22:13:19'')"
proof -
  have "fmt_ts 1699999999 = asc ''2023-11-14 22:13:19''" by code_simp
  then show ?thesis using client_ts_clamped [of 1699999999 "1700000000 * 1000000"] by simp
qed

end
