(* ===== verification/Web_Stats.thy ===== *)
theory Web_Stats
  imports Web_Events
begin

text \<open>
  \<open>app/repositories/web_visit_query_repository.py\<close>, \<open>app/services/web_stats_queries.py\<close>,
  \<open>web_stats_presenter.py\<close> and \<open>web_stats_service.py\<close>: the statements on the table of visits and the
  page of statistics made of them. Times are compared as texts; the lemmas of \<open>Calendar\<close> show that
  this is the order of the instants, which is what the properties rest on.
\<close>

section \<open>Statements\<close>

text \<open>\<open>page_path IN (...)\<close> with an empty list of pages raises before the statement runs.\<close>

definition page_filter :: "pystr list \<Rightarrow> (web_visit \<Rightarrow> bool) result" where
  "page_filter page_paths =
     (if page_paths = [] then Inl (ValueErr (Some (asc ''values must not be empty'')))
      else Inr (\<lambda>r. wv_page_path r \<in> set page_paths))"

definition fetch_web_total_visitors :: "pystr list \<Rightarrow> web_db \<Rightarrow> int result" where
  "fetch_web_total_visitors page_paths d =
     bindR (page_filter page_paths) (\<lambda>on_page.
       Inr (count_distinct (map wv_anon_id (filter (\<lambda>r. on_page r \<and> \<not> wv_is_bot r) (wv_rows d)))))"

definition fetch_web_daily_visitors :: "pystr list \<Rightarrow> pystr \<Rightarrow> pystr \<Rightarrow> web_db \<Rightarrow> int result" where
  "fetch_web_daily_visitors page_paths since_utc until_utc d =
     bindR (page_filter page_paths) (\<lambda>on_page.
       Inr (count_distinct (map wv_anon_id
         (filter (\<lambda>r. on_page r \<and> \<not> wv_is_bot r \<and> since_utc \<le> wv_occurred_at r \<and> wv_occurred_at r < until_utc)
            (wv_rows d)))))"

text \<open>\<open>strftime('%s', t)\<close> is a text; a difference reads it as a number. \<open>NULL\<close> on what is no time.\<close>

definition epoch_text :: "pystr \<Rightarrow> pystr option" where
  "epoch_text t = map_option str_of_int (parse_ts t)"

definition text_number :: "pystr \<Rightarrow> int" where
  "text_number s = (let (sg, ds) = split_sign s in sg * digits_value 0 ds)"

definition max_text :: "pystr list \<Rightarrow> pystr option" where
  "max_text ts = (if ts = [] then None else Some (foldl max (hd ts) (tl ts)))"

definition min_text :: "pystr list \<Rightarrow> pystr option" where
  "min_text ts = (if ts = [] then None else Some (foldl min (hd ts) (tl ts)))"

text \<open>\<open>DATE(datetime(t, '+9 hours'))\<close>\<close>

definition kst_date :: "pystr \<Rightarrow> pystr option" where
  "kst_date t = map_option (\<lambda>s. fmt_date (ts_ord (s + 32400))) (parse_ts t)"

definition session_duration :: "web_visit list \<Rightarrow> int option" where
  "session_duration rs =
     (let es = List.map_filter (\<lambda>r. epoch_text (wv_occurred_at r)) rs
      in case (max_text es, min_text es) of
           (Some hi, Some lo) \<Rightarrow> Some (text_number hi - text_number lo) | _ \<Rightarrow> None)"

record session_row =
  sr_session_id :: pystr
  sr_duration_seconds :: "int option"
  sr_kst_date :: "pystr option"

text \<open>\<open>NULL\<close> sorts first.\<close>

definition null_first :: "pystr option \<Rightarrow> nat \<times> pystr" where
  "null_first t = (case t of None \<Rightarrow> (0, []) | Some s \<Rightarrow> (1, s))"

definition session_row_of :: "web_visit list \<Rightarrow> pystr \<Rightarrow> session_row" where
  "session_row_of rows sid =
     (let rs = filter (\<lambda>r. wv_session_id r = sid) rows
      in \<lparr>sr_session_id = sid, sr_duration_seconds = session_duration rs,
          sr_kst_date = Option.bind (max_text (map wv_occurred_at rs)) kst_date\<rparr>)"

definition fetch_web_session_durations_seconds :: "pystr list \<Rightarrow> pystr \<Rightarrow> web_db \<Rightarrow> session_row list result" where
  "fetch_web_session_durations_seconds page_paths since_utc d =
     bindR (page_filter page_paths) (\<lambda>on_page.
       let rows = filter (\<lambda>r. on_page r \<and> \<not> wv_is_bot r \<and> since_utc \<le> wv_occurred_at r) (wv_rows d)
       in Inr (sort_key (null_first \<circ> sr_kst_date)
            (map (session_row_of rows) (sort (remdups (map wv_session_id rows))))))"

definition fetch_web_daily_unique_visitors_trend ::
  "pystr list \<Rightarrow> pystr \<Rightarrow> web_db \<Rightarrow> (pystr option \<times> int) list result" where
  "fetch_web_daily_unique_visitors_trend page_paths since_utc d =
     bindR (page_filter page_paths) (\<lambda>on_page.
       let rows = filter (\<lambda>r. on_page r \<and> \<not> wv_is_bot r \<and> since_utc \<le> wv_occurred_at r) (wv_rows d);
           date = (\<lambda>r. kst_date (wv_occurred_at r))
       in Inr (map (\<lambda>day. (day, count_distinct (map wv_anon_id (filter (\<lambda>r. date r = day) rows))))
            (sort_key null_first (remdups (map date rows)))))"

text \<open>The rows of people, not bots, since a time.\<close>

definition visits_since :: "pystr \<Rightarrow> web_db \<Rightarrow> web_visit list" where
  "visits_since since_utc d = filter (\<lambda>r. \<not> wv_is_bot r \<and> since_utc \<le> wv_occurred_at r) (wv_rows d)"

definition fetch_grouped_breakdown ::
  "(web_visit \<Rightarrow> pystr option) \<Rightarrow> pystr \<Rightarrow> int option \<Rightarrow> web_db \<Rightarrow> (pystr \<times> int) list" where
  "fetch_grouped_breakdown key_column since_utc limit d =
     top_groups (case limit of Some n \<Rightarrow> n | None \<Rightarrow> - 1)
       (map (the \<circ> key_column) (filter (\<lambda>r. given (key_column r)) (visits_since since_utc d)))"

definition fetch_top_referrer_domains :: "pystr \<Rightarrow> int \<Rightarrow> web_db \<Rightarrow> (pystr \<times> int) list" where
  "fetch_top_referrer_domains since_utc limit = fetch_grouped_breakdown wv_referrer_domain since_utc (Some limit)"

definition fetch_top_utm_sources :: "pystr \<Rightarrow> int \<Rightarrow> web_db \<Rightarrow> (pystr \<times> int) list" where
  "fetch_top_utm_sources since_utc limit = fetch_grouped_breakdown wv_utm_source since_utc (Some limit)"

definition fetch_top_utm_campaigns :: "pystr \<Rightarrow> int \<Rightarrow> web_db \<Rightarrow> (pystr \<times> int) list" where
  "fetch_top_utm_campaigns since_utc limit = fetch_grouped_breakdown wv_utm_campaign since_utc (Some limit)"

definition fetch_device_breakdown :: "pystr \<Rightarrow> web_db \<Rightarrow> (pystr \<times> int) list" where
  "fetch_device_breakdown since_utc = fetch_grouped_breakdown wv_device_type since_utc None"

definition fetch_browser_breakdown :: "pystr \<Rightarrow> web_db \<Rightarrow> (pystr \<times> int) list" where
  "fetch_browser_breakdown since_utc = fetch_grouped_breakdown wv_browser_family since_utc None"

definition fetch_top_page_paths :: "pystr \<Rightarrow> int \<Rightarrow> web_db \<Rightarrow> (pystr \<times> int) list" where
  "fetch_top_page_paths since_utc limit d = top_groups limit (map wv_page_path (visits_since since_utc d))"

text \<open>\<open>lower(x) LIKE '%w%'\<close>: both fold ASCII letters only.\<close>

definition sql_like :: "pystr \<Rightarrow> string \<Rightarrow> bool" where
  "sql_like x w \<longleftrightarrow> contains_str (asc w) (ascii_lower x)"

definition channel_case :: "web_visit \<Rightarrow> pystr" where
  "channel_case r =
     (if given (wv_utm_medium r)
      then let like = sql_like (the (wv_utm_medium r))
           in if like ''email'' \<or> like ''newsletter'' then asc ''email''
              else if like ''social'' then asc ''social''
              else if like ''affiliate'' then asc ''affiliate''
              else if like ''display'' \<or> like ''cpc'' \<or> like ''ppc'' \<or> like ''paid'' \<or> like ''ads'' then asc ''paid''
              else asc ''campaign''
      else if \<not> given (wv_referrer_domain r) then asc ''direct''
      else let like = sql_like (the (wv_referrer_domain r))
           in if like ''google.'' \<or> like ''bing.'' \<or> like ''naver.'' \<or> like ''daum.'' \<or> like ''yahoo.''
              then asc ''organic_search'' else asc ''referral'')"

definition fetch_channel_breakdown :: "pystr \<Rightarrow> web_db \<Rightarrow> (pystr \<times> int) list" where
  "fetch_channel_breakdown since_utc d = top_groups (- 1) (map channel_case (visits_since since_utc d))"

section \<open>The window\<close>

definition WEB_STATS_TOP_LIMIT :: int where
  "WEB_STATS_TOP_LIMIT = 10"

text \<open>Nine hours, in microseconds.\<close>

definition SEOUL_OFFSET :: int where
  "SEOUL_OFFSET = 9 * 3600 * 1000000"

record WebStatsWindow =
  since_utc :: pystr
  today_utc_start :: pystr
  today_utc_end :: pystr

definition build_web_stats_window :: "int \<Rightarrow> int \<Rightarrow> WebStatsWindow" where
  "build_web_stats_window now_utc days =
     (let clamped_days = max 1 (min days 365);
          day = 86400 * 1000000;
          now_kst = now_utc + SEOUL_OFFSET;
          today_kst_start = now_kst div day * day;
          today_kst_end = today_kst_start + day
      in \<lparr>since_utc = strftime_us (now_utc - clamped_days * day),
          today_utc_start = strftime_us (today_kst_start - SEOUL_OFFSET),
          today_utc_end = strftime_us (today_kst_end - SEOUL_OFFSET)\<rparr>)"

record WebStatsQueryResult =
  total_visitors :: int
  daily_visitors :: int
  session_rows :: "session_row list"
  visitor_trend_rows :: "(pystr option \<times> int) list"
  top_referrers :: "(pystr \<times> int) list"
  top_utm_sources :: "(pystr \<times> int) list"
  top_utm_campaigns :: "(pystr \<times> int) list"
  device_breakdown :: "(pystr \<times> int) list"
  browser_breakdown :: "(pystr \<times> int) list"
  top_page_paths :: "(pystr \<times> int) list"
  channel_breakdown :: "(pystr \<times> int) list"

definition fetch_web_stats_query_result :: "WebStatsWindow \<Rightarrow> pystr list \<Rightarrow> web_db \<Rightarrow> WebStatsQueryResult result" where
  "fetch_web_stats_query_result w allowed_paths d =
     bindR (fetch_web_total_visitors allowed_paths d) (\<lambda>total.
     bindR (fetch_web_daily_visitors allowed_paths (today_utc_start w) (today_utc_end w) d) (\<lambda>daily.
     bindR (fetch_web_session_durations_seconds allowed_paths (since_utc w) d) (\<lambda>sessions.
     bindR (fetch_web_daily_unique_visitors_trend allowed_paths (since_utc w) d) (\<lambda>trend.
       Inr \<lparr>total_visitors = total, daily_visitors = daily, session_rows = sessions, visitor_trend_rows = trend,
            top_referrers = fetch_top_referrer_domains (since_utc w) WEB_STATS_TOP_LIMIT d,
            top_utm_sources = fetch_top_utm_sources (since_utc w) WEB_STATS_TOP_LIMIT d,
            top_utm_campaigns = fetch_top_utm_campaigns (since_utc w) WEB_STATS_TOP_LIMIT d,
            device_breakdown = fetch_device_breakdown (since_utc w) d,
            browser_breakdown = fetch_browser_breakdown (since_utc w) d,
            top_page_paths = fetch_top_page_paths (since_utc w) WEB_STATS_TOP_LIMIT d,
            channel_breakdown = fetch_channel_breakdown (since_utc w) d\<rparr>))))"

section \<open>The page of statistics\<close>

record SessionSummary =
  session_count :: int
  avg_dwell_minutes :: pyfloat
  sessions_by_date :: "(pystr \<times> int) list"
  durations_by_date :: "(pystr \<times> int list) list"

text \<open>\<open>round(a / n / 60, 2)\<close> of integers, and \<open>str\<close> of a text that may be \<open>NULL\<close>.\<close>

definition mean_minutes :: "int \<Rightarrow> int \<Rightarrow> pyfloat" where
  "mean_minutes a n = round2 (case dbl (of_int a / of_int n) of Fin q \<Rightarrow> dbl (q / 60) | f \<Rightarrow> f)"

definition str_opt :: "pystr option \<Rightarrow> pystr" where
  "str_opt t = (case t of Some s \<Rightarrow> s | None \<Rightarrow> asc ''None'')"

type_synonym tally = "int \<times> int \<times> (pystr \<times> int list) list \<times> (pystr \<times> int) list"

definition add_session :: "tally \<Rightarrow> session_row \<Rightarrow> tally" where
  "add_session = (\<lambda>(count, total, durations, sessions) row.
     let capped = min (case sr_duration_seconds row of Some s \<Rightarrow> s | None \<Rightarrow> 0) (8 * 60 * 60);
         date_key = str_opt (sr_kst_date row)
     in (count + 1, total + capped,
         AList.update date_key ((case map_of durations date_key of Some ds \<Rightarrow> ds | None \<Rightarrow> []) @ [capped]) durations,
         AList.update date_key ((case map_of sessions date_key of Some n \<Rightarrow> n | None \<Rightarrow> 0) + 1) sessions))"

definition summarize_sessions :: "session_row list \<Rightarrow> SessionSummary" where
  "summarize_sessions rows =
     (let (count, total, durations, sessions) = foldl add_session (0, 0, [], []) rows
      in \<lparr>session_count = count,
          avg_dwell_minutes = (if 0 < count then mean_minutes total count else Fin 0),
          sessions_by_date = sessions, durations_by_date = durations\<rparr>)"

record daily_trend_row =
  dt_date :: pystr
  dt_visitors :: int
  dt_sessions :: int
  dt_avg_dwell_minutes :: pyfloat

definition build_daily_trend ::
  "(pystr option \<times> int) list \<Rightarrow> (pystr \<times> int) list \<Rightarrow> (pystr \<times> int list) list \<Rightarrow> daily_trend_row list" where
  "build_daily_trend trend sessions durations =
     (let visitors_by_date = map_of (rev (map (\<lambda>(d, n). (str_opt d, n)) trend));
          all_dates = sort (remdups (map (str_opt \<circ> fst) trend @ map fst sessions @ map fst durations))
      in map (\<lambda>date.
           let per_day = (case map_of durations date of Some ds \<Rightarrow> ds | None \<Rightarrow> [])
           in \<lparr>dt_date = date,
               dt_visitors = (case visitors_by_date date of Some n \<Rightarrow> n | None \<Rightarrow> 0),
               dt_sessions = (case map_of sessions date of Some n \<Rightarrow> n | None \<Rightarrow> 0),
               dt_avg_dwell_minutes =
                 (if per_day = [] then Fin 0 else mean_minutes (sum_list per_day) (int (length per_day)))\<rparr>) all_dates)"

record web_stats_response =
  ws_daily_visitors :: int
  ws_total_visitors :: int
  ws_avg_dwell_minutes :: pyfloat
  ws_session_count :: int
  ws_daily_trend :: "daily_trend_row list"
  ws_top_referrers :: "(pystr \<times> int) list"
  ws_top_utm_sources :: "(pystr \<times> int) list"
  ws_top_utm_campaigns :: "(pystr \<times> int) list"
  ws_device_breakdown :: "(pystr \<times> int) list"
  ws_browser_breakdown :: "(pystr \<times> int) list"
  ws_top_page_paths :: "(pystr \<times> int) list"
  ws_channel_breakdown :: "(pystr \<times> int) list"

definition build_web_stats_response :: "WebStatsQueryResult \<Rightarrow> SessionSummary \<Rightarrow> web_stats_response" where
  "build_web_stats_response q s =
     \<lparr>ws_daily_visitors = daily_visitors q, ws_total_visitors = total_visitors q,
      ws_avg_dwell_minutes = avg_dwell_minutes s, ws_session_count = session_count s,
      ws_daily_trend = build_daily_trend (visitor_trend_rows q) (sessions_by_date s) (durations_by_date s),
      ws_top_referrers = top_referrers q, ws_top_utm_sources = top_utm_sources q,
      ws_top_utm_campaigns = top_utm_campaigns q, ws_device_breakdown = device_breakdown q,
      ws_browser_breakdown = browser_breakdown q, ws_top_page_paths = top_page_paths q,
      ws_channel_breakdown = channel_breakdown q\<rparr>"

definition get_web_stats :: "int \<Rightarrow> int \<Rightarrow> pystr list \<Rightarrow> web_db \<Rightarrow> web_stats_response result" where
  "get_web_stats now_utc days allowed_paths d =
     bindR (fetch_web_stats_query_result (build_web_stats_window now_utc days) allowed_paths d) (\<lambda>q.
       Inr (build_web_stats_response q (summarize_sessions (session_rows q))))"

section \<open>Times of the rows\<close>

text \<open>The time of a row is the text of an instant (between 2001 and 2286) that can be compared as a text.\<close>

definition stored_time :: "pystr \<Rightarrow> bool" where
  "stored_time t \<longleftrightarrow> (\<exists>s. ten_digits s \<and> t = fmt_ts s)"

definition instant :: "web_visit \<Rightarrow> int" where
  "instant r = (case parse_ts (wv_occurred_at r) of Some s \<Rightarrow> s | None \<Rightarrow> 0)"

definition times_ok :: "web_db \<Rightarrow> bool" where
  "times_ok d \<longleftrightarrow> list_all (\<lambda>r. stored_time (wv_occurred_at r)) (wv_rows d)"

lemma stored_time_instant:
  assumes "stored_time (wv_occurred_at r)"
  shows "ten_digits (instant r)" "wv_occurred_at r = fmt_ts (instant r)"
    "parse_ts (wv_occurred_at r) = Some (instant r)" "epoch_text (wv_occurred_at r) = Some (str_of_int (instant r))"
    "kst_date (wv_occurred_at r) = Some (fmt_date (ts_ord (instant r + 32400)))"
  using assms ten_digits_plain by (auto simp: stored_time_def instant_def parse_fmt_ts epoch_text_def kst_date_def)

text \<open>A clock between September 2001 and 2286 only lets such times in.\<close>

definition server_clock_ok :: "int \<Rightarrow> bool" where
  "server_clock_ok now \<longleftrightarrow> 1001000000 * 1000000 \<le> now \<and> now < 9999000000 * 1000000"

lemma time_ok_stored: "server_clock_ok now \<Longrightarrow> time_ok now t \<Longrightarrow> stored_time t"
proof -
  assume c: "server_clock_ok now" and "time_ok now t"
  then obtain us where us: "now - SEVEN_DAYS \<le> us" "us \<le> now + FIVE_MINUTES" and t: "t = fmt_ts (us div 1000000)"
    by (auto simp: time_ok_def strftime_us_def)
  from c us have "1000000000 * 1000000 \<le> us" "us \<le> 9999999999999999" by (simp_all add: server_clock_ok_def)
  from this [THEN zdiv_mono1, of 1000000] have "1000000000 \<le> us div 1000000" "us div 1000000 < 10000000000" by simp_all
  with t show "stored_time t" by (auto simp: stored_time_def ten_digits_def)
qed

text \<open>So the table of a program whose clock is right keeps comparable times.\<close>

definition record_step ::
  "int \<times> pylib \<times> WebVisitEventCommand \<Rightarrow> web_db \<Rightarrow> unit result \<times> web_db" where
  "record_step = (\<lambda>(now, lib, c). record_web_visit_event now lib c)"

interpretation recorded: invariant_machine record_step "\<lambda>_ (now, _). server_clock_ok now" times_ok
proof unfold_locales
  fix d :: web_db and i :: "int \<times> pylib \<times> WebVisitEventCommand"
  obtain now lib c where i: "i = (now, lib, c)" by (metis prod_cases3)
  assume d: "times_ok d" and "(\<lambda>_ (now, _). server_clock_ok now) d i"
  then have now: "server_clock_ok now" by (simp add: i)
  obtain r d' where run: "record_web_visit_event now lib c d = (r, d')" by fastforce
  have "times_ok d'"
  proof (cases r)
    case (Inr u)
    with run record_web_visit_event_spec [where now = now and lib = lib and c = c and d = d] obtain v where
      "visit_ok now (allowed_web_track_paths (wc_context c)) v" "wv_rows d' = wv_rows d @ [v]" by auto
    with d time_ok_stored [OF now] show ?thesis by (simp add: times_ok_def visit_ok_def)
  qed (use run record_web_visit_event_spec [where now = now and lib = lib and c = c and d = d] d in auto)
  then show "times_ok (snd (record_step i d))" by (simp add: record_step_def i run)
qed

section \<open>Tallies\<close>

text \<open>Looking up the keys of a dictionary, and others, adds up to its values.\<close>

lemma sum_lookup:
  fixes f :: "'v \<Rightarrow> int"
  assumes "distinct ks" "dict_ok kv" "fst ` set kv \<subseteq> set ks"
  shows "(\<Sum>k\<leftarrow>ks. case map_of kv k of Some v \<Rightarrow> f v | None \<Rightarrow> 0) = sum_list (map (f \<circ> snd) kv)"
  using assms
proof (induction kv)
  case (Cons kv0 kv)
  obtain k v where kv0: "kv0 = (k, v)" by fastforce
  from Cons.prems have k: "k \<in> set ks" "k \<notin> fst ` set kv" "dict_ok kv" "fst ` set kv \<subseteq> set ks" by (auto simp: dict_ok_def kv0)
  have none: "map_of kv k = None" using k(2) by (simp add: map_of_eq_None_iff)
  have split: "(\<Sum>j\<leftarrow>js. case map_of (kv0 # kv) j of Some v \<Rightarrow> f v | None \<Rightarrow> 0) =
      (\<Sum>j\<leftarrow>js. case map_of kv j of Some v \<Rightarrow> f v | None \<Rightarrow> 0) + f v * int (count_list js k)" for js
    using none by (induction js) (auto simp: kv0 algebra_simps)
  have "count_list js k = 1" if "distinct js" "k \<in> set js" for js
    using that by (induction js) (auto simp: count_notin)
  then have "count_list ks k = 1" using Cons.prems(1) k(1) by blast
  with split [of ks] Cons.IH [OF Cons.prems(1) k(3,4)] show ?case by (simp add: kv0)
qed (simp add: dict_ok_def)

lemma sum_sort_key: "sum_list (map g (sort_key f xs)) = (sum_list (map g xs) :: int)"
proof -
  have "sum_list (map g (insort_key f x ys)) = g x + sum_list (map g ys)" for x ys
    by (induction ys) auto
  then show ?thesis by (induction xs) auto
qed

lemma sum_top_groups: "sum_list (map snd (top_groups (- 1) keys)) = int (length keys)"
proof -
  have "sum_list (map snd (top_groups (- 1) keys)) = sum_list (map (\<lambda>k. int (count_list keys k)) (remdups keys))"
    by (simp add: top_groups_def sql_limit_def sum_sort_key o_def)
  also have "\<dots> = (\<Sum>k\<in>set keys. int (count_list keys k))"
    by (simp add: sum_list_distinct_conv_sum_set)
  also have "\<dots> = int (length keys)"
    using sum_count_set [of keys "set keys"] by (simp flip: of_nat_sum)
  finally show ?thesis .
qed

section \<open>The day in Seoul\<close>

definition kst_day :: "int \<Rightarrow> int" where
  "kst_day s = (s + 32400) div 86400"

lemma window_today:
  "today_utc_start (build_web_stats_window now days) = fmt_ts (kst_day (now div 1000000) * 86400 - 32400)"
  "today_utc_end (build_web_stats_window now days) = fmt_ts ((kst_day (now div 1000000) + 1) * 86400 - 32400)"
proof -
  have "(now + 32400 * 1000000) div 1000000 = now div 1000000 + 32400" by simp
  then have day: "(now + 32400 * 1000000) div (1000000 * 86400) = kst_day (now div 1000000)"
    by (simp only: kst_day_def zdiv_zmult2_eq zero_le_numeral)
  have "((k * 86400 - 32400) * 1000000) div 1000000 = k * 86400 - 32400" for k :: int by simp
  then have us: "(k * (86400 * 1000000) - 32400 * 1000000) div 1000000 = k * 86400 - 32400" for k :: int
    by (simp only: left_diff_distrib mult.assoc)
  have next_day: "k * (86400 * 1000000) + 86400 * 1000000 = (k + 1) * (86400 * 1000000)" for k :: int
    by (simp only: distrib_right mult_1)
  have off: "SEOUL_OFFSET = 32400 * 1000000" "86400 * 1000000 = (1000000 * 86400 :: int)" by (simp_all add: SEOUL_OFFSET_def)
  show "today_utc_start (build_web_stats_window now days) = fmt_ts (kst_day (now div 1000000) * 86400 - 32400)"
    unfolding build_web_stats_window_def Let_def WebStatsWindow.simps strftime_us_def off(1) off(2) day
    unfolding off(2) [symmetric] us ..
  show "today_utc_end (build_web_stats_window now days) = fmt_ts ((kst_day (now div 1000000) + 1) * 86400 - 32400)"
    unfolding build_web_stats_window_def Let_def WebStatsWindow.simps strftime_us_def off(1) off(2) day
    unfolding off(2) [symmetric] next_day us ..
qed

lemma kst_day_iff: "kst_day s = k \<longleftrightarrow> k * 86400 - 32400 \<le> s \<and> s < (k + 1) * 86400 - 32400"
proof -
  have b: "86400 * kst_day s \<le> s + 32400" "s + 32400 < 86400 * (kst_day s + 1)"
    using mult_div_mod_eq [of 86400 "s + 32400"] pos_mod_bound [of 86400 "s + 32400"] pos_mod_sign [of 86400 "s + 32400"]
    unfolding kst_day_def by (simp_all only: distrib_left)
  show ?thesis
  proof
    show "kst_day s = k \<Longrightarrow> k * 86400 - 32400 \<le> s \<and> s < (k + 1) * 86400 - 32400" using b by simp
    assume "k * 86400 - 32400 \<le> s \<and> s < (k + 1) * 86400 - 32400"
    with b have "86400 * kst_day s < 86400 * (k + 1)" "86400 * k < 86400 * (kst_day s + 1)" by simp_all
    then show "kst_day s = k" by simp
  qed
qed

lemma kst_date_day:
  assumes "ten_digits s" "ten_digits t"
  shows "fmt_date (ts_ord (s + 32400)) = fmt_date (ts_ord (t + 32400)) \<longleftrightarrow> kst_day s = kst_day t"
  using dates.shown_eq_iff [of "ts_ord (s + 32400)" "ts_ord (t + 32400)"] ten_digits_plain assms
  by (simp add: plain_time_def ts_ord_def kst_day_def)

lemma in_today:
  fixes r :: web_visit
  assumes "server_clock_ok now" "stored_time (wv_occurred_at r)"
  shows "today_utc_start (build_web_stats_window now days) \<le> wv_occurred_at r \<and>
      wv_occurred_at r < today_utc_end (build_web_stats_window now days) \<longleftrightarrow>
    kst_date (wv_occurred_at r) = Some (fmt_date (ts_ord (now div 1000000 + 32400)))"
proof -
  note r = stored_time_instant [OF assms(2)]
  let ?n = "now div 1000000"
  have "1001000000 * 1000000 \<le> now" "now \<le> 9999000000 * 1000000" using assms(1) by (simp_all add: server_clock_ok_def)
  from this [THEN zdiv_mono1, of 1000000] have n: "1001000000 \<le> ?n" "?n \<le> 9999000000" by simp_all
  have "ten_digits ?n" using n by (simp add: ten_digits_def)
  have b: "kst_day ?n * 86400 - 32400 \<le> ?n" "?n < (kst_day ?n + 1) * 86400 - 32400"
    using kst_day_iff [of ?n "kst_day ?n"] by blast+
  then have "ten_digits (kst_day ?n * 86400 - 32400)" "ten_digits ((kst_day ?n + 1) * 86400 - 32400)"
    using n by (simp_all add: ten_digits_def)
  then show ?thesis
    using r(1) \<open>ten_digits ?n\<close> kst_day_iff [of "instant r" "kst_day ?n"] kst_date_day [of "instant r" ?n]
      ten_digits_plain times.shown_le_iff times.shown_less_iff
    by (simp only: window_today r(2,5)) (simp add: r(5) [unfolded r(2)])
qed

section \<open>Sessions\<close>

lemma text_number_str_of_int: "0 \<le> i \<Longrightarrow> text_number (str_of_int i) = i"
proof -
  assume i: "0 \<le> i"
  have "split_sign (nat_digits n) = (1, nat_digits n)" for n
  proof (cases "nat_digits n")
    case (Cons c cs)
    then have "c \<noteq> 45" "c \<noteq> 43" using nat_digits_ascii [of c n] by auto
    with Cons show ?thesis by simp
  qed simp
  with i show ?thesis by (simp add: text_number_def str_of_int_def digits_value_nat_digits)
qed

lemma session_row_exact:
  assumes "list_all (\<lambda>r. stored_time (wv_occurred_at r)) rows" "sid \<in> wv_session_id ` set rows"
  defines "S \<equiv> instant ` {r \<in> set rows. wv_session_id r = sid}"
  shows "session_row_of rows sid =
    \<lparr>sr_session_id = sid, sr_duration_seconds = Some (Max S - Min S),
     sr_kst_date = Some (fmt_date (ts_ord (Max S + 32400)))\<rparr>"
proof -
  define rs where "rs = filter (\<lambda>r. wv_session_id r = sid) rows"
  have st: "stored_time (wv_occurred_at r)" if "r \<in> set rs" for r using that assms(1) by (auto simp: rs_def list_all_iff)
  have S: "S = instant ` set rs" by (auto simp: S_def rs_def)
  obtain r0 rs' where cons: "rs = r0 # rs'" using assms(2) by (cases rs) (auto simp: rs_def filter_empty_conv)
  have ten: "ten_digits (instant r0)" "list_all ten_digits (map instant rs')"
    using st stored_time_instant(1) by (auto simp: cons list_all_iff)
  have plain: "plain_time (instant r0)" "list_all plain_time (map instant rs')"
    using ten ten_digits_plain by (auto simp: list_all_iff)
  have es: "List.map_filter (\<lambda>r. epoch_text (wv_occurred_at r)) rs = map (str_of_int \<circ> instant) rs"
    using st stored_time_instant(4) by (induction rs) (auto simp: map_filter_simps)
  have ts: "map wv_occurred_at rs = map (fmt_ts \<circ> instant) rs"
    using st stored_time_instant(2) by auto
  have fin: "finite S" "S \<noteq> {}" by (simp_all add: S cons)
  have max: "max_text (map (str_of_int \<circ> instant) rs) = Some (str_of_int (Max S))"
    and min: "min_text (map (str_of_int \<circ> instant) rs) = Some (str_of_int (Min S))"
    using epochs.foldl_max [OF ten] epochs.foldl_min [OF ten] by (simp_all add: max_text_def min_text_def cons S)
  have "max_text (map (fmt_ts \<circ> instant) rs) = Some (fmt_ts (Max S))"
    using times.foldl_max [OF plain] by (simp add: max_text_def cons S)
  moreover have "ten_digits (Max S)" "ten_digits (Min S)"
    using Max_in [OF fin] Min_in [OF fin] ten by (auto simp: S cons list_all_iff)
  ultimately show ?thesis
    using max min ten_digits_plain [of "Max S"]
    unfolding session_row_of_def Let_def rs_def [symmetric] session_duration_def es ts
    by (simp add: text_number_str_of_int ten_digits_def kst_date_def parse_fmt_ts)
qed

lemma sum_update:
  fixes f :: "'v \<Rightarrow> int"
  shows "sum_list (map (f \<circ> snd) (AList.update k v kv)) =
    sum_list (map (f \<circ> snd) kv) - (case map_of kv k of Some u \<Rightarrow> f u | None \<Rightarrow> 0) + f v"
  by (induction kv) auto

lemma sum_update_int:
  fixes kv :: "('k \<times> int) list"
  shows "sum_list (map snd (AList.update k v kv)) =
    sum_list (map snd kv) - (case map_of kv k of Some u \<Rightarrow> u | None \<Rightarrow> 0) + v"
  by (induction kv) auto

definition tally_ok :: "tally \<Rightarrow> bool" where
  "tally_ok = (\<lambda>(count, total, durations, sessions).
     dict_ok durations \<and> dict_ok sessions \<and> fst ` set durations = fst ` set sessions \<and>
     sum_list (map snd sessions) = count \<and> sum_list (map (sum_list \<circ> snd) durations) = total \<and> 0 \<le> count)"

lemma tally_ok_add: "tally_ok s \<Longrightarrow> tally_ok (add_session s row) \<and> fst (add_session s row) = fst s + 1"
proof -
  obtain count total durations sessions where s: "s = (count, total, durations, sessions)" by (metis prod_cases4)
  have keys: "fst ` set (AList.update k v kv) = insert k (fst ` set kv)" for k and v :: 'v and kv
    using dom_update [of k v kv] by (simp add: dom_map_of_conv_image_fst)
  show "tally_ok s \<Longrightarrow> tally_ok (add_session s row) \<and> fst (add_session s row) = fst s + 1"
    by (auto simp: s tally_ok_def add_session_def Let_def dict_ok_update keys sum_update sum_update_int split: option.splits)
qed

lemma tally_ok_foldl: "tally_ok s \<Longrightarrow> tally_ok (foldl add_session s rows) \<and> fst (foldl add_session s rows) = fst s + int (length rows)"
  by (induction rows arbitrary: s) (auto simp: tally_ok_add)

lemma summarize_sessions_ok:
  "tally_ok (session_count (summarize_sessions rows), sum_list (map (sum_list \<circ> snd) (durations_by_date (summarize_sessions rows))),
      durations_by_date (summarize_sessions rows), sessions_by_date (summarize_sessions rows)) \<and>
   session_count (summarize_sessions rows) = int (length rows)"
proof -
  obtain count total durations sessions where f: "foldl add_session (0, 0, [], []) rows = (count, total, durations, sessions)"
    by (metis prod_cases4)
  have "tally_ok (0, 0, [], [])" by (simp add: tally_ok_def dict_ok_def)
  from tally_ok_foldl [OF this, of rows] show ?thesis
    by (auto simp: summarize_sessions_def f tally_ok_def)
qed

lemma daily_trend_sessions:
  assumes "dict_ok sessions"
  shows "sum_list (map dt_sessions (build_daily_trend trend sessions durations)) = sum_list (map snd sessions)"
    and "sorted_wrt (<) (map dt_date (build_daily_trend trend sessions durations))"
proof -
  let ?dates = "sort (remdups (map (str_opt \<circ> fst) trend @ map fst sessions @ map fst durations))"
  have "(\<Sum>k\<leftarrow>?dates. case map_of sessions k of Some v \<Rightarrow> v | None \<Rightarrow> 0) =
      sum_list (map ((\<lambda>v. v) \<circ> snd) sessions)"
    by (rule sum_lookup) (use assms in auto)
  then show "sum_list (map dt_sessions (build_daily_trend trend sessions durations)) = sum_list (map snd sessions)"
    by (simp add: build_daily_trend_def Let_def o_def)
  show "sorted_wrt (<) (map dt_date (build_daily_trend trend sessions durations))"
    by (simp add: build_daily_trend_def Let_def o_def strict_sorted_iff)
qed

text \<open>Every row the program writes has a device and a channel.\<close>

lemma device_total:
  assumes "list_all (\<lambda>r. given (wv_device_type r)) (wv_rows d)"
  shows "sum_list (map snd (fetch_device_breakdown since d)) = int (length (visits_since since d))"
proof -
  have "filter (\<lambda>r. given (wv_device_type r)) (visits_since since d) = visits_since since d"
    using assms by (auto simp: visits_since_def list_all_iff intro!: filter_cong)
  then show ?thesis by (simp add: fetch_device_breakdown_def fetch_grouped_breakdown_def sum_top_groups)
qed

section \<open>Samples\<close>

definition sample_visit :: "pystr \<Rightarrow> pystr \<Rightarrow> int \<Rightarrow> web_visit" where
  "sample_visit visitor session_id s =
     \<lparr>wv_id = 1, wv_anon_id = visitor, wv_session_id = session_id, wv_event_type = asc ''heartbeat'', wv_page_path = asc ''/'',
      wv_page_query = None, wv_occurred_at = fmt_ts s, wv_client_tz = None, wv_client_lang = None, wv_platform = None,
      wv_user_agent = None, wv_is_bot = False, wv_referrer_url = None, wv_referrer_domain = None, wv_utm_source = None,
      wv_utm_medium = None, wv_utm_campaign = None, wv_utm_term = None, wv_utm_content = None, wv_screen_width = None,
      wv_screen_height = None, wv_viewport_width = None, wv_viewport_height = None,
      wv_browser_family = Some (asc ''other''), wv_device_type = Some (asc ''desktop''), wv_os_family = Some (asc ''other'')\<rparr>"

lemma sample_visit_simps [simp]:
  "wv_anon_id (sample_visit a s t) = a" "wv_session_id (sample_visit a s t) = s" "wv_page_path (sample_visit a s t) = asc ''/''"
  "\<not> wv_is_bot (sample_visit a s t)" "wv_occurred_at (sample_visit a s t) = fmt_ts t"
  by (simp_all add: sample_visit_def)

lemma setcompr_filter: "{f r |r. r \<in> set xs \<and> P r} = f ` set (filter P xs)"
  by auto

definition sample_web_db :: web_db where
  "sample_web_db =
     \<lparr>wv_rows = [sample_visit (asc ''a'') (asc ''s'') 1700000000, sample_visit (asc ''b'') (asc ''t'') 1700000100,
        sample_visit (asc ''a'') (asc ''s'') 1700000200, sample_visit (asc ''c'') (asc ''u'') 1699900000], wv_seq = 4\<rparr>"

lemma sample_web_db_times: "times_ok sample_web_db"
proof -
  have "stored_time (fmt_ts s)" if "ten_digits s" for s using that by (auto simp: stored_time_def)
  then show ?thesis by (simp add: times_ok_def sample_web_db_def ten_digits_def)
qed

section \<open>Properties\<close>

text \<open>
  C28. The number of visitors of today counts each visitor once, over the rows whose date in Seoul is
  today's: the window of texts the statement compares with is that day, from midnight to midnight.
\<close>

theorem daily_visitors_exact:
  assumes "pages \<noteq> []" "server_clock_ok now" "times_ok d"
  shows "let w = build_web_stats_window now days; today = fmt_date (ts_ord (now div 1000000 + 32400))
    in fetch_web_daily_visitors pages (today_utc_start w) (today_utc_end w) d =
      Inr (int (card {wv_anon_id r |r. r \<in> set (wv_rows d) \<and> wv_page_path r \<in> set pages \<and> \<not> wv_is_bot r \<and>
        kst_date (wv_occurred_at r) = Some today}))"
proof -
  let ?w = "build_web_stats_window now days"
  let ?rows = "filter (\<lambda>r. wv_page_path r \<in> set pages \<and> \<not> wv_is_bot r \<and> today_utc_start ?w \<le> wv_occurred_at r \<and>
    wv_occurred_at r < today_utc_end ?w) (wv_rows d)"
  have "set (map wv_anon_id ?rows) = {wv_anon_id r |r. r \<in> set (wv_rows d) \<and> wv_page_path r \<in> set pages \<and> \<not> wv_is_bot r \<and>
      kst_date (wv_occurred_at r) = Some (fmt_date (ts_ord (now div 1000000 + 32400)))}"
    using in_today [OF assms(2)] assms(3) by (auto simp: times_ok_def list_all_iff)
  then show ?thesis
    using assms(1) by (simp add: fetch_web_daily_visitors_def page_filter_def count_distinct_def length_remdups_card_conv)
qed

theorem daily_visitors_exact_witness:
  "fetch_web_daily_visitors [asc ''/''] (today_utc_start (build_web_stats_window (1700000300 * 1000000) 30))
     (today_utc_end (build_web_stats_window (1700000300 * 1000000) 30)) sample_web_db = Inr 2"
proof -
  have day: "kst_date (fmt_ts s) = Some (fmt_date (ts_ord (1700000300 + 32400))) \<longleftrightarrow> kst_day s = kst_day 1700000300"
    if "ten_digits s" for s
    using that kst_date_day [of s 1700000300] ten_digits_plain [of s]
    by (simp add: kst_date_def parse_fmt_ts ten_digits_def)
  let ?today = "fmt_date (ts_ord (1700000300 * 1000000 div 1000000 + 32400))"
  have "{wv_anon_id r |r. r \<in> set (wv_rows sample_web_db) \<and> wv_page_path r \<in> set [asc ''/''] \<and> \<not> wv_is_bot r \<and>
      kst_date (wv_occurred_at r) = Some ?today} = {asc ''a'', asc ''b''}"
    unfolding setcompr_filter using day by (auto simp: sample_web_db_def ten_digits_def kst_day_def)
  then show ?thesis
    using daily_visitors_exact [where pages = "[asc ''/'']" and now = "1700000300 * 1000000" and days = 30,
        OF _ _ sample_web_db_times]
    by (simp only: Let_def) (simp add: server_clock_ok_def)
qed

text \<open>
  C29. A session of the statistics lasts from the first to the last of its visits in the period and
  belongs to the day, in Seoul, of its last one; every session with a visit in the period is listed once.
\<close>

theorem sessions_exact:
  assumes "pages \<noteq> []" "times_ok d"
  shows "\<exists>ss. fetch_web_session_durations_seconds pages since d = Inr ss \<and> distinct (map sr_session_id ss) \<and>
    (\<forall>sid. let S = {instant r |r. r \<in> set (wv_rows d) \<and> wv_page_path r \<in> set pages \<and> \<not> wv_is_bot r \<and>
             since \<le> wv_occurred_at r \<and> wv_session_id r = sid}
      in if S = {} then sid \<notin> sr_session_id ` set ss
         else \<lparr>sr_session_id = sid, sr_duration_seconds = Some (Max S - Min S),
                sr_kst_date = Some (fmt_date (ts_ord (Max S + 32400)))\<rparr> \<in> set ss)"
proof -
  define rows where "rows = filter (\<lambda>r. wv_page_path r \<in> set pages \<and> \<not> wv_is_bot r \<and> since \<le> wv_occurred_at r) (wv_rows d)"
  have st: "list_all (\<lambda>r. stored_time (wv_occurred_at r)) rows" using assms(2) by (auto simp: times_ok_def rows_def list_all_iff)
  define ss where "ss = sort_key (null_first \<circ> sr_kst_date)
      (map (session_row_of rows) (sort (remdups (map wv_session_id rows))))"
  have run: "fetch_web_session_durations_seconds pages since d = Inr ss"
    using assms(1) by (simp add: fetch_web_session_durations_seconds_def page_filter_def ss_def rows_def Let_def)
  have ids: "sr_session_id (session_row_of rows sid) = sid" for sid by (simp add: session_row_of_def Let_def)
  then have "inj_on (session_row_of rows) X" for X by (metis inj_onI)
  then have "distinct ss" by (simp add: ss_def distinct_map)
  moreover have set_ss: "set ss = session_row_of rows ` wv_session_id ` set rows" by (simp add: ss_def)
  then have "inj_on sr_session_id (set ss)" using ids by (auto intro!: inj_onI)
  ultimately have dist: "distinct (map sr_session_id ss)" by (simp add: distinct_map)
  have S: "{instant r |r. r \<in> set (wv_rows d) \<and> wv_page_path r \<in> set pages \<and> \<not> wv_is_bot r \<and>
      since \<le> wv_occurred_at r \<and> wv_session_id r = sid} = instant ` {r \<in> set rows. wv_session_id r = sid}" for sid
    by (auto simp: rows_def)
  have "if instant ` {r \<in> set rows. wv_session_id r = sid} = {} then sid \<notin> sr_session_id ` set ss
      else \<lparr>sr_session_id = sid,
             sr_duration_seconds = Some (Max (instant ` {r \<in> set rows. wv_session_id r = sid}) -
               Min (instant ` {r \<in> set rows. wv_session_id r = sid})),
             sr_kst_date = Some (fmt_date (ts_ord (Max (instant ` {r \<in> set rows. wv_session_id r = sid}) + 32400)))\<rparr> \<in> set ss"
    for sid
  proof (cases "sid \<in> wv_session_id ` set rows")
    case True
    then have "session_row_of rows sid \<in> set ss" by (auto simp: set_ss)
    with True show ?thesis using session_row_exact [OF st True] by auto
  next
    case False
    then have "instant ` {r \<in> set rows. wv_session_id r = sid} = {}" by auto
    with False show ?thesis using ids by (auto simp: set_ss)
  qed
  then show ?thesis using run dist unfolding S Let_def by blast
qed

theorem sessions_exact_witness:
  "\<exists>ss. fetch_web_session_durations_seconds [asc ''/''] [] sample_web_db = Inr ss \<and>
     \<lparr>sr_session_id = asc ''s'', sr_duration_seconds = Some 200,
      sr_kst_date = Some (fmt_date (ts_ord (1700000200 + 32400)))\<rparr> \<in> set ss"
proof -
  have inst: "instant (sample_visit a s t) = t" if "ten_digits t" for a s t
    using that ten_digits_plain by (simp add: instant_def parse_fmt_ts)
  have S: "{instant r |r. r \<in> set (wv_rows sample_web_db) \<and> wv_page_path r \<in> set [asc ''/''] \<and> \<not> wv_is_bot r \<and>
      [] \<le> wv_occurred_at r \<and> wv_session_id r = asc ''s''} = {1700000000, 1700000200}"
    unfolding setcompr_filter by (simp add: sample_web_db_def inst ten_digits_def)
  obtain ss where "fetch_web_session_durations_seconds [asc ''/''] [] sample_web_db = Inr ss"
    and "let S = {1700000000, 1700000200} in if S = {} then asc ''s'' \<notin> sr_session_id ` set ss
      else \<lparr>sr_session_id = asc ''s'', sr_duration_seconds = Some (Max S - Min S),
        sr_kst_date = Some (fmt_date (ts_ord (Max S + 32400)))\<rparr> \<in> set ss"
    using sessions_exact [where pages = "[asc ''/'']" and since = "[]", OF _ sample_web_db_times]
    by (fold S) (auto elim: allE [of _ "asc ''s''"])
  then show ?thesis by (auto simp: Let_def)
qed

text \<open>
  C30. The page of statistics is consistent with itself and with the table: the days are listed once,
  in order, and their sessions add up to the number of sessions; the devices and the channels each add
  up to the visits of the period. It raises only when no page is tracked.
\<close>

theorem web_stats_consistent:
  assumes "list_all (\<lambda>r. given (wv_device_type r)) (wv_rows d)"
  shows "case get_web_stats now days pages d of
      Inl e \<Rightarrow> pages = [] \<and> e = ValueErr (Some (asc ''values must not be empty''))
    | Inr ws \<Rightarrow>
        let visits = visits_since (since_utc (build_web_stats_window now days)) d
        in pages \<noteq> [] \<and> sorted_wrt (<) (map dt_date (ws_daily_trend ws)) \<and>
           sum_list (map dt_sessions (ws_daily_trend ws)) = ws_session_count ws \<and>
           ws_session_count ws = int (card (wv_session_id ` {r \<in> set visits. wv_page_path r \<in> set pages})) \<and>
           sum_list (map snd (ws_device_breakdown ws)) = int (length visits) \<and>
           sum_list (map snd (ws_channel_breakdown ws)) = int (length visits)"
proof (cases "pages = []")
  case True
  then show ?thesis
    by (simp add: get_web_stats_def fetch_web_stats_query_result_def fetch_web_total_visitors_def page_filter_def)
next
  case False
  let ?w = "build_web_stats_window now days"
  let ?visits = "visits_since (since_utc ?w) d"
  let ?rows = "filter (\<lambda>r. wv_page_path r \<in> set pages \<and> \<not> wv_is_bot r \<and> since_utc ?w \<le> wv_occurred_at r) (wv_rows d)"
  let ?ss = "sort_key (null_first \<circ> sr_kst_date) (map (session_row_of ?rows) (sort (remdups (map wv_session_id ?rows))))"
  obtain q where q: "fetch_web_stats_query_result ?w pages d = Inr q" and ss: "session_rows q = ?ss"
    and "device_breakdown q = fetch_device_breakdown (since_utc ?w) d"
    and "channel_breakdown q = fetch_channel_breakdown (since_utc ?w) d"
    using False
    by (simp add: fetch_web_stats_query_result_def fetch_web_total_visitors_def fetch_web_daily_visitors_def
        fetch_web_session_durations_seconds_def fetch_web_daily_unique_visitors_trend_def page_filter_def Let_def)
  define ws where "ws = build_web_stats_response q (summarize_sessions ?ss)"
  have ws: "get_web_stats now days pages d = Inr ws" by (simp only: get_web_stats_def q bindR_simps ss ws_def)
  have device: "ws_device_breakdown ws = fetch_device_breakdown (since_utc ?w) d"
    and channel: "ws_channel_breakdown ws = fetch_channel_breakdown (since_utc ?w) d"
    and count: "ws_session_count ws = session_count (summarize_sessions ?ss)"
    and trend: "ws_daily_trend ws = build_daily_trend (visitor_trend_rows q)
      (sessions_by_date (summarize_sessions ?ss)) (durations_by_date (summarize_sessions ?ss))"
    by (simp_all add: ws_def build_web_stats_response_def \<open>device_breakdown q = _\<close> \<open>channel_breakdown q = _\<close>)
  note ok = summarize_sessions_ok [of ?ss]
  have "set ?rows = {r \<in> set ?visits. wv_page_path r \<in> set pages}" by (auto simp: visits_since_def)
  then have "int (length ?ss) = int (card (wv_session_id ` {r \<in> set ?visits. wv_page_path r \<in> set pages}))"
    by (simp add: length_remdups_card_conv)
  moreover have "sum_list (map snd (ws_device_breakdown ws)) = int (length ?visits)"
    unfolding device by (rule device_total [OF assms])
  moreover have "sum_list (map snd (ws_channel_breakdown ws)) = int (length ?visits)"
    unfolding channel by (simp add: fetch_channel_breakdown_def sum_top_groups)
  moreover have "sorted_wrt (<) (map dt_date (ws_daily_trend ws))"
    and "sum_list (map dt_sessions (ws_daily_trend ws)) = ws_session_count ws"
    unfolding trend count using ok daily_trend_sessions by (auto simp: tally_ok_def)
  ultimately show ?thesis unfolding ws sum.case Let_def using False ok count by simp
qed

theorem web_stats_consistent_witness:
  "\<exists>ws. get_web_stats (1700000300 * 1000000) 30 [asc ''/''] sample_web_db = Inr ws \<and>
     sum_list (map dt_sessions (ws_daily_trend ws)) = ws_session_count ws"
proof -
  have "list_all (\<lambda>r. given (wv_device_type r)) (wv_rows sample_web_db)"
    by (simp add: sample_web_db_def sample_visit_def given_def)
  from web_stats_consistent [OF this, where now = "1700000300 * 1000000" and days = 30 and pages = "[asc ''/'']"]
  show ?thesis by (cases "get_web_stats (1700000300 * 1000000) 30 [asc ''/''] sample_web_db") (auto simp: Let_def)
qed

end
