(* ===== verification/Files.thy ===== *)
theory Files
  imports Vworld
begin

text \<open>
  Files as the program uses them: a store maps the text of a path to the bytes of the file, a text file
  holds UTF-8. Failures of the operating system are not modelled. \<open>decode_utf8\<close> is the strict
  decoder of \<open>read_text\<close>; the lemma at the end says that it reads back what \<open>write_text\<close> wrote.
\<close>

type_synonym file_store = "pystr \<rightharpoonup> nat list"

text \<open>\<open>Path(d) / name\<close>: an absolute name stands for itself.\<close>

definition path_join :: "pystr \<Rightarrow> pystr \<Rightarrow> pystr" where
  "path_join d name = (if startswith name [47] then name else d @ [47] @ name)"

text \<open>\<open>Path(s).name\<close> and \<open>Path(s).suffix\<close>\<close>

definition path_name :: "pystr \<Rightarrow> pystr" where
  "path_name s = (let ps = filter (\<lambda>p. p \<noteq> [] \<and> p \<noteq> [46]) (split_on 47 s) in if ps = [] then [] else last ps)"

definition path_suffix :: "pystr \<Rightarrow> pystr" where
  "path_suffix s =
     (let name = path_name s; ext = rev (takeWhile (\<lambda>c. c \<noteq> 46) (rev name));
          stem = take (length name - Suc (length ext)) name
      in if 46 \<in> set name \<and> stem \<noteq> [] \<and> ext \<noteq> [] then 46 # ext else [])"

section \<open>UTF-8\<close>

text \<open>The number of continuation bytes after a lead byte, its own bits and the least code point.\<close>

definition utf8_lead :: "nat \<Rightarrow> (nat \<times> nat \<times> nat) option" where
  "utf8_lead b =
     (if b < 128 then Some (0, b, 0)
      else if 194 \<le> b \<and> b < 224 then Some (1, b - 192, 128)
      else if 224 \<le> b \<and> b < 240 then Some (2, b - 224, 2048)
      else if 240 \<le> b \<and> b < 245 then Some (3, b - 240, 65536)
      else None)"

fun decode_utf8 :: "nat list \<Rightarrow> pystr result" where
  "decode_utf8 [] = Inr []"
| "decode_utf8 (b # bs) =
     (case utf8_lead b of
        None \<Rightarrow> Inl (ValueErr None)
      | Some (n, v0, least) \<Rightarrow>
          (let cs = take n bs; v = foldl (\<lambda>v c. 64 * v + (c - 128)) v0 cs
           in if length cs = n \<and> list_all (\<lambda>c. 128 \<le> c \<and> c < 192) cs \<and> least \<le> v \<and> \<not> (55296 \<le> v \<and> v < 57344) \<and> v < 1114112
              then bindR (decode_utf8 (drop n bs)) (\<lambda>s. Inr (v # s))
              else Inl (ValueErr None)))"

lemma decode_utf8_step:
  assumes "utf8_lead b = Some (length cs, v0, least)" "foldl (\<lambda>v c. 64 * v + (c - 128)) v0 cs = c"
    and "list_all (\<lambda>c. 128 \<le> c \<and> c < 192) cs" "least \<le> c" "\<not> (55296 \<le> c \<and> c < 57344)" "c < 1114112"
  shows "decode_utf8 ((b # cs) @ rest) = bindR (decode_utf8 rest) (\<lambda>s. Inr (c # s))"
  using assms by (simp add: Let_def)

lemma utf8_leads:
  "k < 128 \<Longrightarrow> utf8_lead k = Some (0, k, 0)"
  "2 \<le> k \<Longrightarrow> k < 32 \<Longrightarrow> utf8_lead (192 + k) = Some (1, k, 128)"
  "k < 16 \<Longrightarrow> utf8_lead (224 + k) = Some (2, k, 2048)"
  "k < 5 \<Longrightarrow> utf8_lead (240 + k) = Some (3, k, 65536)"
  by (simp_all add: utf8_lead_def)

lemma decode_utf8_char:
  assumes "utf8_char c = Inr bs" "c < 1114112"
  shows "decode_utf8 (bs @ rest) = bindR (decode_utf8 rest) (\<lambda>s. Inr (c # s))"
proof -
  have two: "64 * (c div 64) + c mod 64 = c" by simp
  have four: "c div 4096 = c div 64 div 64" "c div 262144 = c div 4096 div 64" by (simp_all add: div_mult2_eq [symmetric])
  have three: "64 * (64 * (c div 4096) + c div 64 mod 64) + c mod 64 = c"
    using two mult_div_mod_eq [of 64 "c div 64"] by (simp only: four(1))
  have whole: "64 * (64 * (64 * (c div 262144) + c div 4096 mod 64) + c div 64 mod 64) + c mod 64 = c"
    using three mult_div_mod_eq [of 64 "c div 4096"] by (simp only: four(2))
  have small: "c div 64 mod 64 < 64" "c mod 64 < 64" "c div 4096 mod 64 < 64" by simp_all
  consider "c < 128" | "128 \<le> c" "c < 2048" | "2048 \<le> c" "c < 65536" "\<not> (55296 \<le> c \<and> c < 57344)" | "65536 \<le> c"
    using assms(1) by (fastforce simp: utf8_char_def split: if_splits)
  then show ?thesis
  proof cases
    case 1
    moreover have bs: "bs = [c]" using assms(1) 1 by (simp add: utf8_char_def)
    ultimately show ?thesis using decode_utf8_step [of c "[]" c 0 c rest] by (simp add: utf8_leads del: decode_utf8.simps)
  next
    case 2
    then have "2 \<le> c div 64" "c div 64 < 32" by auto
    then have lead: "utf8_lead (192 + c div 64) = Some (length [128 + c mod 64], c div 64, 128)" by (simp add: utf8_leads)
    have bs: "bs = [192 + c div 64, 128 + c mod 64]" using assms(1) 2 by (simp add: utf8_char_def)
    show ?thesis unfolding bs by (rule decode_utf8_step [OF lead]) (use 2 small two in simp_all)
  next
    case 3
    then have "c div 4096 < 16" by auto
    then have lead: "utf8_lead (224 + c div 4096) = Some (length [128 + c div 64 mod 64, 128 + c mod 64], c div 4096, 2048)"
      by (simp add: utf8_leads)
    have bs: "bs = [224 + c div 4096, 128 + c div 64 mod 64, 128 + c mod 64]"
      using assms(1) 3 by (auto simp: utf8_char_def)
    show ?thesis unfolding bs by (rule decode_utf8_step [OF lead]) (use 3 small three in simp_all)
  next
    case 4
    then have "c div 262144 < 5" using assms(2) by auto
    then have lead: "utf8_lead (240 + c div 262144) =
        Some (length [128 + c div 4096 mod 64, 128 + c div 64 mod 64, 128 + c mod 64], c div 262144, 65536)"
      by (simp add: utf8_leads)
    have bs: "bs = [240 + c div 262144, 128 + c div 4096 mod 64, 128 + c div 64 mod 64, 128 + c mod 64]"
      using assms(1) 4 by (simp add: utf8_char_def)
    show ?thesis unfolding bs by (rule decode_utf8_step [OF lead]) (use 4 small whole assms(2) in simp_all)
  qed
qed

text \<open>A text is a text of Unicode code points.\<close>

definition unicode :: "pystr \<Rightarrow> bool" where
  "unicode s \<longleftrightarrow> list_all (\<lambda>c. c < 1114112) s"

lemma decode_encode_utf8:
  assumes "encode_utf8 s = Inr bs" "unicode s"
  shows "decode_utf8 bs = Inr s"
proof -
  obtain bss where m: "mapR utf8_char s = Inr bss" and bs: "bs = concat bss"
    using assms(1) by (auto simp: encode_utf8_def bindR_Inr_iff)
  have "mapR utf8_char s = Inr bss \<Longrightarrow> unicode s \<Longrightarrow> decode_utf8 (concat bss) = Inr s"
  proof (induction s arbitrary: bss)
    case (Cons c s)
    then obtain b bss' where b: "utf8_char c = Inr b" "mapR utf8_char s = Inr bss'" "bss = b # bss'"
      by (auto simp: bindR_Inr_iff)
    with Cons have "decode_utf8 (concat bss') = Inr s" by (simp add: unicode_def)
    with decode_utf8_char [OF b(1)] Cons.prems(2) show ?case by (simp add: b(3) unicode_def)
  qed simp
  with m assms(2) bs show ?thesis by simp
qed

section \<open>Texts in files\<close>

text \<open>\<open>write_text\<close> truncates the file before it encodes the text.\<close>

definition write_text :: "pystr \<Rightarrow> pystr \<Rightarrow> file_store \<Rightarrow> unit result \<times> file_store" where
  "write_text path text fs =
     (case encode_utf8 text of
        Inl e \<Rightarrow> (Inl e, fs(path \<mapsto> [])) | Inr bs \<Rightarrow> (Inr (), fs(path \<mapsto> bs)))"

definition read_text :: "pystr \<Rightarrow> file_store \<Rightarrow> pystr option result" where
  "read_text path fs =
     (case fs path of None \<Rightarrow> Inr None | Some bs \<Rightarrow> bindR (decode_utf8 bs) (\<lambda>s. Inr (Some s)))"

end
