(* ===== verification/Public_Download.thy ===== *)
theory Public_Download
  imports Files Upload Auth
begin

text \<open>
  \<open>app/services/public_download_service.py\<close>: the one file the administrator offers to the public, its
  metadata file and its download. The digest of \<open>hashlib\<close> and the indented text of \<open>json.dumps\<close> are
  parameters, the clock's \<open>isoformat\<close> an argument. The temporary file is gone after its \<open>replace\<close>, so a
  call only changes the stored file and the metadata.
\<close>

record PublicDownloadConfig =
  dl_base_dir :: pystr
  dl_public_download_dir :: pystr
  dl_allowed_exts :: "pystr list"
  dl_max_size_mb :: int

record PublicDownloadUploadResult =
  du_success :: bool
  du_message :: pystr
  du_filename :: pystr
  du_uploaded_at :: pystr
  du_size_bytes :: int

record PublicDownloadFileResult =
  df_path :: pystr
  df_media_type :: pystr
  df_download_filename :: pystr

text \<open>The libraries: \<open>hexdigest\<close> of SHA-256, and \<open>json.dumps(_, ensure_ascii=False, indent=2)\<close>.\<close>

record download_lib =
  lib_sha256 :: "bytes \<Rightarrow> pystr"
  lib_dumps_indent :: "json \<Rightarrow> pystr"

definition target_dir :: "PublicDownloadConfig \<Rightarrow> pystr" where
  "target_dir config = path_join (dl_base_dir config) (dl_public_download_dir config)"

definition meta_path :: "pystr \<Rightarrow> pystr" where
  "meta_path dir = path_join dir (asc ''current.json'')"

definition file_extension :: "pystr \<Rightarrow> pystr result" where
  "file_extension filename =
     (let suffix = lstrip_chars [46] (lower (path_suffix filename))
      in if suffix = [] then Inl (ValidationError 400 msg_ext_required) else Inr suffix)"

definition allowed_exts :: "PublicDownloadConfig \<Rightarrow> pystr list" where
  "allowed_exts config = map (\<lambda>e. lstrip_chars [46] (lower e)) (dl_allowed_exts config)"

text \<open>The loop that copies the upload in chunks: what it wrote and what it hashed.\<close>

definition CHUNK :: nat where
  "CHUNK = 1024 * 1024"

lemma CHUNK_pos: "0 < CHUNK"
  by (simp add: CHUNK_def)

function copy_chunks :: "bytes \<Rightarrow> bytes \<Rightarrow> bytes" where
  "copy_chunks content written =
     (let chunk = take CHUNK content
      in if chunk = [] then written else copy_chunks (drop CHUNK content) (written @ chunk))"
  by auto
termination by (relation "measure (\<lambda>(content, _). length content)") (auto simp: CHUNK_pos)

declare copy_chunks.simps [simp del]

definition upload_meta :: "download_lib \<Rightarrow> pystr \<Rightarrow> pystr \<Rightarrow> pystr \<Rightarrow> UploadedFileInput \<Rightarrow> bytes \<Rightarrow> json" where
  "upload_meta dlib now original_name stored_name f copied =
     JObj [(asc ''original_filename'', JStr original_name),
           (asc ''stored_filename'', JStr stored_name),
           (asc ''content_type'', JStr (strip (file_content_type f))),
           (asc ''uploaded_at'', JStr now),
           (asc ''size_bytes'', JInt (int (length (file_bytes f)))),
           (asc ''sha256'', JStr (lib_sha256 dlib copied))]"

definition check_download :: "PublicDownloadConfig \<Rightarrow> RequestContext \<Rightarrow> UploadedFileInput \<Rightarrow> (pystr \<times> pystr) result" where
  "check_download config ctx f =
     (if \<not> csrf_valid ctx then Inl (AuthError 403 msg_csrf_failed)
      else let original_name = strip (file_name f)
           in if original_name = [] then Inl (ValidationError 400 msg_name_empty)
              else bindR (file_extension original_name) (\<lambda>ext.
                let exts = allowed_exts config
                in if ext \<notin> set exts
                   then Inl (ValidationError 400 (msg_ext_denied @ join (asc '', '') (sort (remdups (map ((#) 46) exts)))))
                   else if dl_max_size_mb config * 1024 * 1024 < int (length (file_bytes f))
                   then Inl (ValidationError 400 (msg_size_limit_1 @ str_of_int (dl_max_size_mb config) @ msg_size_limit_2))
                   else Inr (original_name, ext)))"

definition handle_public_download_upload ::
  "download_lib \<Rightarrow> pystr \<Rightarrow> PublicDownloadConfig \<Rightarrow> RequestContext \<Rightarrow> UploadedFileInput \<Rightarrow> file_store \<Rightarrow>
   PublicDownloadUploadResult result \<times> file_store" where
  "handle_public_download_upload dlib now config ctx f fs =
     (case check_download config ctx f of
        Inl e \<Rightarrow> (Inl e, fs)
      | Inr (original_name, ext) \<Rightarrow>
          let dir = target_dir config;
              stored_name = asc ''current.'' @ ext;
              copied = copy_chunks (file_bytes f) [];
              fs = fs(path_join dir stored_name \<mapsto> copied);
              meta = upload_meta dlib now original_name stored_name f copied
          in case write_text (meta_path dir) (lib_dumps_indent dlib meta @ [10]) fs of
               (Inl e, fs) \<Rightarrow> (Inl e, fs)
             | (Inr _, fs) \<Rightarrow>
                 (Inr \<lparr>du_success = True, du_message = msg_download_updated, du_filename = original_name,
                       du_uploaded_at = now, du_size_bytes = int (length (file_bytes f))\<rparr>, fs))"

text \<open>\<open>json.loads(meta_file.read_text(...))\<close>\<close>

definition load_meta :: "pylib \<Rightarrow> nat list \<Rightarrow> json result" where
  "load_meta lib bs = bindR (decode_utf8 bs) (lib_loads lib)"

definition get_public_download_file :: "pylib \<Rightarrow> PublicDownloadConfig \<Rightarrow> file_store \<Rightarrow> PublicDownloadFileResult result" where
  "get_public_download_file lib config fs =
     (let dir = target_dir config
      in case fs (meta_path dir) of
           None \<Rightarrow> Inl (NotFoundError 404 msg_no_download)
         | Some bs \<Rightarrow>
             (case load_meta lib bs of
                Inl _ \<Rightarrow> Inl (ValidationError 500 msg_meta_damaged)
              | Inr meta \<Rightarrow>
                  bindR (json_get meta ''stored_filename'' (JStr [])) (\<lambda>stored.
                  bindR (json_get meta ''original_filename'' (JStr [])) (\<lambda>original.
                  bindR (json_get meta ''content_type'' (JStr [])) (\<lambda>ctype.
                    let stored_name = strip (py_str (lib_str lib) stored);
                        original_name = strip (py_str (lib_str lib) original);
                        original_name = (if original_name = [] then stored_name else original_name);
                        content_type = strip (py_str (lib_str lib) ctype);
                        file_path = path_join dir stored_name
                    in if stored_name = [] then Inl (NotFoundError 404 msg_no_download)
                       else if fs file_path = None then Inl (NotFoundError 404 msg_file_missing)
                       else Inr \<lparr>df_path = file_path,
                                 df_media_type = (if content_type = [] then asc ''application/octet-stream'' else content_type),
                                 df_download_filename = original_name\<rparr>)))))"

definition get_public_download_meta :: "pylib \<Rightarrow> PublicDownloadConfig \<Rightarrow> file_store \<Rightarrow> payload result" where
  "get_public_download_meta lib config fs =
     (case fs (meta_path (target_dir config)) of
        None \<Rightarrow> Inr [(asc ''exists'', JBool False)]
      | Some bs \<Rightarrow>
          (case load_meta lib bs of
             Inl _ \<Rightarrow> Inr [(asc ''exists'', JBool False)]
           | Inr (JObj kvs) \<Rightarrow> Inr (AList.update (asc ''exists'') (JBool True) kvs)
           | Inr _ \<Rightarrow> Inl TypeErr))"

section \<open>Lemmas\<close>

lemma copy_chunks_all: "copy_chunks content written = written @ content"
proof (induction content written rule: copy_chunks.induct)
  case (1 content written)
  show ?case
  proof (cases "content = []")
    case False
    then have "take CHUNK content \<noteq> []" using CHUNK_pos by simp
    with 1 [OF refl] show ?thesis by (subst copy_chunks.simps) (simp add: Let_def)
  qed (subst copy_chunks.simps, simp)
qed

lemma check_download_error: "check_download config ctx f = Inl e \<Longrightarrow> is_service_error e"
  by (auto simp: check_download_def file_extension_def Let_def bindR_Inl_iff split: if_splits)

lemma json_keys:
  "json_get (JObj kvs) k d = Inr (case map_of kvs (asc k) of Some x \<Rightarrow> x | None \<Rightarrow> d)"
  by (simp add: json_get_def)

lemma path_join_same_dir: "path_join d a = path_join d b \<longleftrightarrow> a = b" if "\<not> startswith a [47]" "\<not> startswith b [47]"
  using that by (simp add: path_join_def)

lemma stored_path:
  "path_join d (asc ''current.'' @ ext) = meta_path d \<longleftrightarrow> ext = asc ''json''"
proof -
  have "asc ''current.json'' = asc ''current.'' @ asc ''json''" by (simp flip: asc_append)
  then show ?thesis by (simp add: meta_path_def path_join_def startswith_def py_simps)
qed

lemma strip_spaceless: "list_all (\<lambda>c. \<not> is_space c) s \<Longrightarrow> strip s = s"
  by (rule strip_id) (use hd_in_set [of s] last_in_set [of s] in \<open>auto simp: list_all_iff\<close>)

text \<open>What a call leaves: nothing if it is refused, otherwise the copy, then the metadata.\<close>

definition stored_path_of :: "PublicDownloadConfig \<Rightarrow> pystr \<Rightarrow> pystr" where
  "stored_path_of config ext = path_join (target_dir config) (asc ''current.'' @ ext)"

lemma handle_upload_spec:
  "handle_public_download_upload dlib now config ctx f fs =
     (case check_download config ctx f of
        Inl e \<Rightarrow> (Inl e, fs)
      | Inr (original_name, ext) \<Rightarrow>
          let fs = fs(stored_path_of config ext \<mapsto> file_bytes f);
              meta = upload_meta dlib now original_name (asc ''current.'' @ ext) f (file_bytes f)
          in case encode_utf8 (lib_dumps_indent dlib meta @ [10]) of
               Inl e \<Rightarrow> (Inl e, fs(meta_path (target_dir config) \<mapsto> []))
             | Inr bs \<Rightarrow>
                 (Inr \<lparr>du_success = True, du_message = msg_download_updated, du_filename = original_name,
                       du_uploaded_at = now, du_size_bytes = int (length (file_bytes f))\<rparr>,
                  fs(meta_path (target_dir config) \<mapsto> bs)))"
  by (simp add: handle_public_download_upload_def copy_chunks_all write_text_def stored_path_of_def Let_def
      split: sum.splits prod.splits)

lemma check_download_Inr:
  assumes "check_download config ctx f = Inr (name, ext)"
  shows "csrf_valid ctx" "name = strip (file_name f)" "name \<noteq> []" "file_extension name = Inr ext" "ext \<in> set (allowed_exts config)"
    "int (length (file_bytes f)) \<le> dl_max_size_mb config * 1024 * 1024"
  using assms by (auto simp: check_download_def Let_def bindR_Inr_iff split: if_splits)

text \<open>An upload with the extension of the metadata is overwritten by the metadata.\<close>

lemma json_upload_overwritten:
  assumes "handle_public_download_upload dlib now config ctx f fs = (Inr res, fs')"
    and "file_extension (strip (file_name f)) = Inr (asc ''json'')"
  shows "\<exists>bs. encode_utf8 (lib_dumps_indent dlib (upload_meta dlib now (strip (file_name f)) (asc ''current.json'') f
      (file_bytes f)) @ [10]) = Inr bs \<and> fs' (stored_path_of config (asc ''json'')) = Some bs"
proof -
  obtain name ext where c: "check_download config ctx f = Inr (name, ext)"
    using assms(1) by (cases "check_download config ctx f") (auto simp: handle_upload_spec)
  with check_download_Inr [OF c] assms(2) have e: "ext = asc ''json''" "name = strip (file_name f)" by auto
  have "asc ''current.'' @ asc ''json'' = asc ''current.json''" by (simp flip: asc_append)
  with assms(1) c e show ?thesis
    using stored_path [of "target_dir config" "asc ''json''"]
    by (auto simp: handle_upload_spec stored_path_of_def Let_def split: sum.splits)
qed

section \<open>Properties\<close>

text \<open>
  C31. What the administrator uploads is what the public downloads: after an upload that succeeds the
  download finds the file, with the uploaded bytes under the uploaded name and with its media type, if
  the libraries read back the metadata they wrote and the extension is not that of the metadata.
\<close>

theorem download_roundtrip:
  assumes up: "handle_public_download_upload dlib now config ctx f fs = (Inr res, fs')"
    and no_json: "file_extension (strip (file_name f)) \<noteq> Inr (asc ''json'')"
    and exts: "list_all (list_all (\<lambda>c. \<not> is_space c)) (allowed_exts config)"
    and law: "\<And>ext. file_extension (strip (file_name f)) = Inr ext \<Longrightarrow>
      let m = upload_meta dlib now (strip (file_name f)) (asc ''current.'' @ ext) f (file_bytes f)
      in lib_loads lib (lib_dumps_indent dlib m @ [10]) = Inr m \<and> unicode (lib_dumps_indent dlib m)"
  shows "\<exists>r. get_public_download_file lib config fs' = Inr r \<and> fs' (df_path r) = Some (file_bytes f) \<and>
    df_download_filename r = strip (file_name f) \<and> du_filename res = strip (file_name f) \<and>
    df_media_type r = (if strip (file_content_type f) = [] then asc ''application/octet-stream'' else strip (file_content_type f))"
proof -
  obtain name ext where c: "check_download config ctx f = Inr (name, ext)"
    using up by (cases "check_download config ctx f") (auto simp: handle_upload_spec)
  note chk = check_download_Inr [OF c]
  let ?dir = "target_dir config"
  define meta where "meta = upload_meta dlib now name (asc ''current.'' @ ext) f (file_bytes f)"
  obtain bs where enc: "encode_utf8 (lib_dumps_indent dlib meta @ [10]) = Inr bs"
    and fs': "fs' = fs(stored_path_of config ext \<mapsto> file_bytes f, meta_path ?dir \<mapsto> bs)"
    and res: "du_filename res = name"
    using up c by (auto simp: handle_upload_spec Let_def meta_def split: sum.splits)
  have load: "load_meta lib bs = Inr meta"
    using decode_encode_utf8 [OF enc] law [of ext] chk(2,4) by (simp add: load_meta_def unicode_def meta_def Let_def)
  have ne: "stored_path_of config ext \<noteq> meta_path ?dir"
    using no_json chk(2,4) stored_path [of ?dir ext] by (auto simp: stored_path_of_def)
  have "list_all (\<lambda>c. \<not> is_space c) ext" using exts chk(5) by (auto simp: list_all_iff)
  moreover have "list_all (\<lambda>c. \<not> is_space c) (asc ''current.'')" by (simp add: py_simps is_space_def)
  ultimately have "strip (asc ''current.'' @ ext) = asc ''current.'' @ ext" by (intro strip_spaceless) simp
  then have get: "get_public_download_file lib config fs' =
      Inr \<lparr>df_path = stored_path_of config ext,
           df_media_type = (if strip (file_content_type f) = [] then asc ''application/octet-stream'' else strip (file_content_type f)),
           df_download_filename = strip (file_name f)\<rparr>"
    using chk(2,3) ne load
    by (simp add: get_public_download_file_def fs' Let_def meta_def upload_meta_def json_keys stored_path_of_def)
  with ne res chk(2) show ?thesis by (simp add: fs')
qed

definition sample_download_config :: PublicDownloadConfig where
  "sample_download_config =
     \<lparr>dl_base_dir = asc ''/srv'', dl_public_download_dir = asc ''data/public_download'',
      dl_allowed_exts = [asc ''pdf'', asc ''.CSV''], dl_max_size_mb = 25\<rparr>"

definition sample_download_file :: UploadedFileInput where
  "sample_download_file = \<lparr>file_name = asc '' plan.PDF'', file_content_type = [], file_bytes = [1, 2, 3]\<rparr>"

definition sample_dlib :: download_lib where
  "sample_dlib = \<lparr>lib_sha256 = (\<lambda>_. asc ''00''), lib_dumps_indent = (\<lambda>_. asc ''{}'')\<rparr>"

definition sample_pylib :: pylib where
  "sample_pylib =
     \<lparr>lib_str = (\<lambda>_. []), lib_dumps = (\<lambda>_. []), lib_dumps_raw = (\<lambda>_. []),
      lib_loads = (\<lambda>_. Inr (upload_meta sample_dlib (asc ''now'') (asc ''plan.PDF'') (asc ''current.pdf'') sample_download_file [1, 2, 3]))\<rparr>"

theorem download_roundtrip_witness:
  "\<exists>res fs' r. handle_public_download_upload sample_dlib (asc ''now'') sample_download_config admin_context
      sample_download_file Map.empty = (Inr res, fs') \<and>
    get_public_download_file sample_pylib sample_download_config fs' = Inr r \<and> fs' (df_path r) = Some [1, 2, 3] \<and>
    df_media_type r = asc ''application/octet-stream''"
proof -
  have strip: "strip (asc '' plan.PDF'') = asc ''plan.PDF''" by code_simp
  have ext: "file_extension (asc ''plan.PDF'') = Inr (asc ''pdf'')" by code_simp
  have exts: "allowed_exts sample_download_config = [asc ''pdf'', asc ''csv'']" by code_simp
  have enc: "encode_utf8 (asc ''{}'' @ [10]) = Inr [123, 125, 10]" by code_simp
  have chk: "check_download sample_download_config admin_context sample_download_file = Inr (asc ''plan.PDF'', asc ''pdf'')"
    by (simp add: check_download_def sample_download_file_def admin_context_def strip ext exts Let_def)
       (simp add: sample_download_config_def)
  have spaceless: "list_all (\<lambda>c. \<not> is_space c) (asc ''pdf'')" "list_all (\<lambda>c. \<not> is_space c) (asc ''csv'')"
    and uni: "unicode (asc ''{}'')" by code_simp+
  have stored: "asc ''current.'' @ asc ''pdf'' = asc ''current.pdf''" by (simp flip: asc_append)
  obtain res fs' where up: "handle_public_download_upload sample_dlib (asc ''now'') sample_download_config admin_context
      sample_download_file Map.empty = (Inr res, fs')"
    using enc by (auto simp: handle_upload_spec chk sample_dlib_def Let_def)
  have "\<exists>r. get_public_download_file sample_pylib sample_download_config fs' = Inr r \<and>
      fs' (df_path r) = Some (file_bytes sample_download_file) \<and>
      df_download_filename r = strip (file_name sample_download_file) \<and> du_filename res = strip (file_name sample_download_file) \<and>
      df_media_type r = (if strip (file_content_type sample_download_file) = [] then asc ''application/octet-stream''
        else strip (file_content_type sample_download_file))"
    by (rule download_roundtrip [OF up])
       (auto simp: exts sample_download_file_def strip ext sample_pylib_def sample_dlib_def spaceless uni stored Let_def)
  with up show ?thesis by (auto simp: sample_download_file_def)
qed

text \<open>
  C32. An upload that is refused with an error of the program writes nothing. Any other carried the CSRF token, is within the
  size limit and has an extension that is on the list of allowed ones (whatever the case, without leading dots), and writes two
  files: \<open>current\<close> with that extension, which holds its bytes, and \<open>current.json\<close>; every other file, a \<open>current\<close> with
  another extension among them, is what it was. If it succeeds it reports its size; it fails, with a ValueError and the metadata
  left empty, only if the text of the metadata cannot be encoded.
\<close>

theorem download_upload_refused:
  "case handle_public_download_upload dlib now config ctx f fs of (r, fs') \<Rightarrow>
     let dir = path_join (dl_base_dir config) (dl_public_download_dir config);
         ext = lstrip_chars [46] (lower (path_suffix (strip (file_name f))));
         admissible = csrf_valid ctx \<and> ext \<noteq> [] \<and> (\<exists>e \<in> set (dl_allowed_exts config). ext = lstrip_chars [46] (lower e)) \<and>
           int (length (file_bytes f)) \<le> dl_max_size_mb config * 1024 * 1024
     in (case r of
           Inl e \<Rightarrow>
             if is_service_error e then fs' = fs
             else e = ValueErr None \<and> admissible \<and>
               fs' = fs(path_join dir (asc ''current.'' @ ext) \<mapsto> file_bytes f, path_join dir (asc ''current.json'') \<mapsto> [])
         | Inr res \<Rightarrow>
             admissible \<and> du_size_bytes res = int (length (file_bytes f)) \<and>
             (\<exists>bs. fs' = fs(path_join dir (asc ''current.'' @ ext) \<mapsto> file_bytes f, path_join dir (asc ''current.json'') \<mapsto> bs)))"
proof (cases "check_download config ctx f")
  case (Inl e)
  then show ?thesis using check_download_error [OF Inl] by (simp add: handle_upload_spec Let_def)
next
  case (Inr ne)
  obtain name ext where ne: "ne = (name, ext)" by fastforce
  note chk = check_download_Inr [OF Inr [unfolded ne]]
  have ext: "lstrip_chars [46] (lower (path_suffix (strip (file_name f)))) = ext" "ext \<noteq> []"
    using chk(2,4) by (auto simp: file_extension_def Let_def split: if_splits)
  have listed: "\<exists>e \<in> set (dl_allowed_exts config). ext = lstrip_chars [46] (lower e)"
    using chk(5) by (auto simp: allowed_exts_def)
  let ?meta = "upload_meta dlib now name (asc ''current.'' @ ext) f (file_bytes f)"
  show ?thesis
  proof (cases "encode_utf8 (lib_dumps_indent dlib ?meta @ [10])")
    case enc: (Inl e)
    with Inr encode_utf8_Inl [OF enc] chk(1,6) ext listed show ?thesis
      by (auto simp: handle_upload_spec ne stored_path_of_def target_dir_def meta_path_def Let_def)
  next
    case enc: (Inr bs)
    with Inr chk(1,6) ext listed show ?thesis
      by (auto simp: handle_upload_spec ne stored_path_of_def target_dir_def meta_path_def Let_def)
  qed
qed

end
