(* ===== verification/Map_Routes.thy ===== *)
theory Map_Routes
  imports Map_Events Web_Events Public_Download Runtime_Config Land_Service
begin

text \<open>
  The other routes of \<open>app/routers/map_router.py\<close>: the map configuration, the two event routes behind the
  rate limiter, and the public download with its own limit. A route is a function of the request, of the
  clock readings it takes and of the state it works on; what it answers is a reply with the headers it
  adds, or the exception that reaches the framework. The parcel route is in \<open>Land_Service\<close>.
\<close>

definition EVENT_LIMIT_PER_MINUTE :: int where
  "EVENT_LIMIT_PER_MINUTE = 60"

definition WEB_EVENT_LIMIT_PER_MINUTE :: int where
  "WEB_EVENT_LIMIT_PER_MINUTE = 120"

definition EVENT_GLOBAL_LIMIT_PER_MINUTE :: int where
  "EVENT_GLOBAL_LIMIT_PER_MINUTE = 1200"

type_synonym answer = "(reply \<times> (pystr \<times> pystr) list) result"

text \<open>\<open>_client_ip\<close>: the peer, whatever the proxy headers say.\<close>

definition peer_name :: "request \<Rightarrow> pystr" where
  "peer_name r = (case client_host r of Some h \<Rightarrow> h | None \<Rightarrow> asc ''unknown'')"

definition rate_limited_response :: "int \<Rightarrow> reply \<times> (pystr \<times> pystr) list" where
  "rate_limited_response retry_after =
     (JSONResponse 429 [(asc ''success'', JBool False), (asc ''message'', JStr msg_rate_limited)],
      [(asc ''Retry-After'', str_of_int retry_after)])"

definition success_response :: "reply \<times> (pystr \<times> pystr) list" where
  "success_response = (JSONResponse 200 [(asc ''success'', JBool True)], [])"

fun raise_http_from_service_error :: "exn \<Rightarrow> exn" where
  "raise_http_from_service_error (ServiceError _ status_code message) = HTTPException status_code message"
| "raise_http_from_service_error e = e"

text \<open>
  The loop over the keys of \<open>_allow_rate_limited_event\<close>, each with its limit and the clock reading of its
  turn: the answer of the first key that refuses, or none.
\<close>

fun allow_all :: "call list \<Rightarrow> rate_limiter \<Rightarrow> (reply \<times> (pystr \<times> pystr) list) option result \<times> rate_limiter" where
  "allow_all [] rl = (Inr None, rl)"
| "allow_all ((key, key_limit, now) # calls) rl =
     (case allow key key_limit RATE_LIMIT_WINDOW_SECONDS now rl of
        (Inl e, rl) \<Rightarrow> (Inl e, rl)
      | (Inr (allowed, retry_after), rl) \<Rightarrow>
          if \<not> allowed then (Inr (Some (rate_limited_response retry_after)), rl) else allow_all calls rl)"

definition limit_key :: "string \<Rightarrow> pystr \<Rightarrow> pystr" where
  "limit_key pre name = asc pre @ [58] @ name"

definition gate_calls :: "request \<Rightarrow> string \<Rightarrow> int \<Rightarrow> rat \<times> rat \<Rightarrow> call list" where
  "gate_calls r pre limit = (\<lambda>(t1, t2).
     [(limit_key pre (peer_name r), limit, t1),
      (limit_key pre (asc ''global''), EVENT_GLOBAL_LIMIT_PER_MINUTE, t2)])"

definition allow_rate_limited_event ::
  "request \<Rightarrow> string \<Rightarrow> int \<Rightarrow> rat \<times> rat \<Rightarrow> rate_limiter \<Rightarrow>
   (reply \<times> (pystr \<times> pystr) list) option result \<times> rate_limiter" where
  "allow_rate_limited_event r pre limit ts rl = allow_all (gate_calls r pre limit ts) rl"

definition build_web_visit_context :: "RuntimeConfig \<Rightarrow> pystr option \<Rightarrow> WebVisitContext" where
  "build_web_visit_context config user_agent =
     \<lparr>context_user_agent = user_agent, allowed_web_track_paths = ALLOWED_WEB_TRACK_PATHS config\<rparr>"

definition handle_rate_limited_event ::
  "request \<Rightarrow> string \<Rightarrow> int \<Rightarrow> rat \<times> rat \<Rightarrow> ('d \<Rightarrow> unit result \<times> 'd) \<Rightarrow> rate_limiter \<times> 'd \<Rightarrow>
   answer \<times> rate_limiter \<times> 'd" where
  "handle_rate_limited_event r pre limit ts on_allowed = (\<lambda>(rl, d).
     case allow_rate_limited_event r pre limit ts rl of
       (Inl e, rl) \<Rightarrow> (Inl e, rl, d)
     | (Inr (Some blocked), rl) \<Rightarrow> (Inr blocked, rl, d)
     | (Inr None, rl) \<Rightarrow>
         (case on_allowed d of
            (Inl e, d) \<Rightarrow> (Inl (raise_http_from_service_error e), rl, d)
          | (Inr _, d) \<Rightarrow> (Inr success_response, rl, d)))"

section \<open>Routes\<close>

definition get_config :: "RuntimeConfig \<Rightarrow> payload" where
  "get_config config =
     [(asc ''vworldKey'', JStr (VWORLD_WMTS_KEY config)),
      (asc ''center'', JList [JFloat (CENTER_LON config), JFloat (CENTER_LAT config)]),
      (asc ''zoom'', JInt (DEFAULT_ZOOM config))]"

definition post_map_event ::
  "pylib \<Rightarrow> request \<Rightarrow> payload \<Rightarrow> rat \<times> rat \<Rightarrow> pystr \<Rightarrow> rate_limiter \<times> event_db \<Rightarrow> answer \<times> rate_limiter \<times> event_db" where
  "post_map_event lib r payload ts stamp =
     handle_rate_limited_event r ''events'' EVENT_LIMIT_PER_MINUTE ts
       (record_map_event lib stamp (build_map_event_command lib payload))"

definition post_web_event ::
  "pylib \<Rightarrow> RuntimeConfig \<Rightarrow> request \<Rightarrow> pystr option \<Rightarrow> payload \<Rightarrow> rat \<times> rat \<Rightarrow> int \<Rightarrow> rate_limiter \<times> web_db \<Rightarrow>
   answer \<times> rate_limiter \<times> web_db" where
  "post_web_event lib config r user_agent payload ts now =
     (let ctx = build_web_visit_context config user_agent in
      handle_rate_limited_event r ''web-events'' WEB_EVENT_LIMIT_PER_MINUTE ts
        (record_web_visit_event now lib (build_web_visit_event_command payload ctx)))"

text \<open>\<open>urllib.parse.quote\<close>: the bytes of the text, each unreserved one as itself, the others as \<open>%XX\<close>.\<close>

definition unreserved :: "nat \<Rightarrow> bool" where
  "unreserved b \<longleftrightarrow> 65 \<le> b \<and> b \<le> 90 \<or> 97 \<le> b \<and> b \<le> 122 \<or> 48 \<le> b \<and> b \<le> 57 \<or> b \<in> {95, 46, 45, 126, 47}"

definition hex_digit :: "nat \<Rightarrow> nat" where
  "hex_digit n = (if n < 10 then 48 + n else 55 + n)"

definition quote_byte :: "nat \<Rightarrow> pystr" where
  "quote_byte b = (if unreserved b then [b] else [37, hex_digit (b div 16), hex_digit (b mod 16)])"

definition quote :: "pystr \<Rightarrow> pystr result" where
  "quote s = bindR (encode_utf8 s) (\<lambda>bs. Inr (concat (map quote_byte bs)))"

definition download_config :: "RuntimeConfig \<Rightarrow> PublicDownloadConfig" where
  "download_config config =
     \<lparr>dl_base_dir = BASE_DIR config, dl_public_download_dir = PUBLIC_DOWNLOAD_DIR config,
      dl_allowed_exts = PUBLIC_DOWNLOAD_ALLOWED_EXTS config, dl_max_size_mb = PUBLIC_DOWNLOAD_MAX_SIZE_MB config\<rparr>"

definition get_public_download ::
  "pylib \<Rightarrow> RuntimeConfig \<Rightarrow> file_store \<Rightarrow> request \<Rightarrow> rat \<Rightarrow> rate_limiter \<Rightarrow> answer \<times> rate_limiter" where
  "get_public_download lib config fs r now rl =
     (case allow (limit_key ''public-download'' (peer_name r)) (PUBLIC_DOWNLOAD_RATE_LIMIT_PER_MINUTE config)
             RATE_LIMIT_WINDOW_SECONDS now rl of
        (Inl e, rl) \<Rightarrow> (Inl e, rl)
      | (Inr (allowed, retry_after), rl) \<Rightarrow>
          if \<not> allowed then (Inr (rate_limited_response retry_after), rl)
          else (case get_public_download_file lib (download_config config) fs of
                  Inl e \<Rightarrow> (Inl (raise_http_from_service_error e), rl)
                | Inr res \<Rightarrow>
                    (bindR (quote (df_download_filename res)) (\<lambda>quoted.
                       Inr (FileResponse (df_path res) (df_media_type res),
                            [(asc ''Content-Disposition'', asc ''attachment; filename*=UTF-8'' @ [39, 39] @ quoted)])),
                     rl)))"

section \<open>Percent encoding\<close>

text \<open>The reader of a percent-encoded text: the bytes it stands for.\<close>

definition hex_value :: "nat \<Rightarrow> nat" where
  "hex_value c = (if c < 58 then c - 48 else c - 55)"

fun unquote_bytes :: "pystr \<Rightarrow> nat list" where
  "unquote_bytes [] = []"
| "unquote_bytes (c # s) =
     (if c = 37 then case s of a # b # s \<Rightarrow> (16 * hex_value a + hex_value b) # unquote_bytes s | _ \<Rightarrow> c # s
      else c # unquote_bytes s)"

lemma hex_value_digit [simp]: "n < 16 \<Longrightarrow> hex_value (hex_digit n) = n"
  by (simp add: hex_value_def hex_digit_def)

lemma unquote_quote_byte: "b < 256 \<Longrightarrow> unquote_bytes (quote_byte b @ rest) = b # unquote_bytes rest"
  by (auto simp: quote_byte_def unreserved_def)

lemma unquote_quote_bytes:
  "list_all (\<lambda>b. b < 256) bs \<Longrightarrow> unquote_bytes (concat (map quote_byte bs)) = bs"
  by (induction bs) (simp_all add: unquote_quote_byte)

lemma utf8_char_bytes: "utf8_char c = Inr bs \<Longrightarrow> c < 1114112 \<Longrightarrow> list_all (\<lambda>b. b < 256) bs"
  by (auto simp: utf8_char_def less_mult_imp_div_less split: if_splits)

lemma encode_utf8_bytes: "encode_utf8 s = Inr bs \<Longrightarrow> unicode s \<Longrightarrow> list_all (\<lambda>b. b < 256) bs"
proof (induction s arbitrary: bs)
  case (Cons c s)
  then obtain b bs' where "utf8_char c = Inr b" "encode_utf8 s = Inr bs'" "bs = b @ bs'"
    by (auto simp: encode_utf8_def bindR_Inr_iff)
  with Cons show ?case by (simp add: unicode_def utf8_char_bytes)
qed (simp add: encode_utf8_def)

definition header_safe :: "pystr \<Rightarrow> bool" where
  "header_safe s \<longleftrightarrow> list_all (\<lambda>c. unreserved c \<or> c = 37) s"

lemma quote_byte_safe: "b < 256 \<Longrightarrow> header_safe (quote_byte b)"
proof -
  assume "b < 256"
  then have "b div 16 < 16" "b mod 16 < 16" by auto
  moreover have "unreserved (hex_digit n)" if "n < 16" for n
    using that by (auto simp: unreserved_def hex_digit_def)
  ultimately show ?thesis by (simp add: quote_byte_def header_safe_def)
qed

lemma quote_spec:
  assumes "unicode name" "quote name = Inr q"
  shows "header_safe q \<and> decode_utf8 (unquote_bytes q) = Inr name"
proof -
  obtain bs where bs: "encode_utf8 name = Inr bs" and q: "q = concat (map quote_byte bs)"
    using assms(2) by (auto simp: quote_def bindR_Inr_iff)
  note byte = encode_utf8_bytes [OF bs assms(1)]
  have "header_safe q"
    using byte quote_byte_safe unfolding q header_safe_def by (fastforce simp: list_all_iff)
  then show ?thesis using decode_encode_utf8 [OF bs assms(1)] unquote_quote_bytes [OF byte] by (simp add: q)
qed

end
