(* ===== verification/Site.thy ===== *)
theory Site
  imports "HOL-Library.Sublist" Map_Routes
begin

text \<open>
  The public routes together: a history of map events, web events and downloads of many clients over the
  one event limiter, with settings updates in between. The bounds the limiter promises for its keys
  become bounds on what the routes accept, and every accepted event is a stored row.
\<close>

section \<open>A machine that works through another one\<close>

text \<open>
  The client's step passes calls to an inner machine that is part of its state, and what it grants is
  among what the inner machine granted. The two laws carry over to whole runs.
\<close>

locale delegating =
  fixes step :: "'e \<Rightarrow> 's \<Rightarrow> 'o \<times> 's"
    and inner :: "'i \<Rightarrow> 'c \<Rightarrow> 'r \<times> 'c"
    and part :: "'s \<Rightarrow> 'c"
    and calls :: "'e \<Rightarrow> 's \<Rightarrow> 'i list"
    and grants :: "'e \<Rightarrow> 'o \<Rightarrow> 'g list"
    and inner_grants :: "'i list \<Rightarrow> 'r list \<Rightarrow> 'g list"
  assumes part_step: "part (snd (step e s)) = snd (run_steps inner (calls e s) (part s))"
    and grants_step: "subseq (grants e (fst (step e s))) (inner_grants (calls e s) (fst (run_steps inner (calls e s) (part s))))"
    and grants_Nil: "inner_grants [] [] = []"
    and grants_append: "length is = length os \<Longrightarrow> inner_grants (is @ js) (os @ ps) = inner_grants is os @ inner_grants js ps"
begin

fun trace_calls :: "'e list \<Rightarrow> 's \<Rightarrow> 'i list" where
  "trace_calls [] s = []"
| "trace_calls (e # es) s = calls e s @ trace_calls es (snd (step e s))"

lemma part_run: "part (snd (run_steps step es s)) = snd (run_steps inner (trace_calls es s) (part s))"
  by (induction es arbitrary: s) (simp_all add: part_step run_steps_append)

lemma grants_run:
  "subseq (concat (map2 grants es (fst (run_steps step es s))))
     (inner_grants (trace_calls es s) (fst (run_steps inner (trace_calls es s) (part s))))"
proof (induction es arbitrary: s)
  case (Cons e es)
  from Cons [of "snd (step e s)"] grants_step [of e s] show ?case
    by (simp add: run_steps_append part_step grants_append length_run_steps list_emb_append_mono)
qed (simp add: grants_Nil)

lemma trace_calls_all:
  assumes "\<And>e s. e \<in> set es \<Longrightarrow> list_all P (calls e s)"
  shows "list_all P (trace_calls es s)"
  using assms by (induction es arbitrary: s) auto

lemma trace_calls_map:
  assumes "\<And>e s. subseq (map f (calls e s)) (g e)"
  shows "subseq (map f (trace_calls es s)) (concat (map g es))"
  using assms by (induction es arbitrary: s) (auto intro!: list_emb_append_mono)

end

section \<open>A site under its visitors\<close>

text \<open>
  What the public routes work on, and a history of their requests. A settings update may replace the
  configuration in between; the event limiter stays.
\<close>

record site =
  site_app :: app_state
  site_events :: event_db
  site_visits :: web_db
  site_files :: file_store

datatype site_event =
    MapEvent request payload "rat \<times> rat" pystr
  | WebEvent request "pystr option" payload "rat \<times> rat" int
  | Download request rat
  | Reconfigure Settings

fun site_step :: "pylib \<Rightarrow> site_event \<Rightarrow> site \<Rightarrow> answer option \<times> site" where
  "site_step lib (MapEvent r payload ts stamp) st =
     (let (a, rl, d) = post_map_event lib r payload ts stamp (app_event_limiter (site_app st), site_events st)
      in (Some a, st\<lparr>site_app := (site_app st)\<lparr>app_event_limiter := rl\<rparr>, site_events := d\<rparr>))"
| "site_step lib (WebEvent r user_agent payload ts now) st =
     (let (a, rl, d) = post_web_event lib (app_config (site_app st)) r user_agent payload ts now
                         (app_event_limiter (site_app st), site_visits st)
      in (Some a, st\<lparr>site_app := (site_app st)\<lparr>app_event_limiter := rl\<rparr>, site_visits := d\<rparr>))"
| "site_step lib (Download r now) st =
     (let (a, rl) = get_public_download lib (app_config (site_app st)) (site_files st) r now
                      (app_event_limiter (site_app st))
      in (Some a, st\<lparr>site_app := (site_app st)\<lparr>app_event_limiter := rl\<rparr>\<rparr>))"
| "site_step lib (Reconfigure s) st = (None, st\<lparr>site_app := rebuild_runtime_state (site_app st) s\<rparr>)"

fun event_times :: "site_event \<Rightarrow> rat list" where
  "event_times (MapEvent r payload ts stamp) = [fst ts, snd ts]"
| "event_times (WebEvent r user_agent payload ts now) = [fst ts, snd ts]"
| "event_times (Download r now) = [now]"
| "event_times (Reconfigure s) = []"

text \<open>The keys an event asks the limiter for, with the limits of the routes.\<close>

fun event_calls :: "site_event \<Rightarrow> site \<Rightarrow> call list" where
  "event_calls (MapEvent r payload ts stamp) st = gate_calls r ''events'' EVENT_LIMIT_PER_MINUTE ts"
| "event_calls (WebEvent r user_agent payload ts now) st = gate_calls r ''web-events'' WEB_EVENT_LIMIT_PER_MINUTE ts"
| "event_calls (Download r now) st =
     [(limit_key ''public-download'' (peer_name r), PUBLIC_DOWNLOAD_RATE_LIMIT_PER_MINUTE (app_config (site_app st)), now)]"
| "event_calls (Reconfigure s) st = []"

text \<open>The calls it makes: the loop stops at the first refusal.\<close>

fun issued_all :: "call list \<Rightarrow> rate_limiter \<Rightarrow> call list" where
  "issued_all [] rl = []"
| "issued_all (c # cs) rl =
     c # (case allow_step RATE_LIMIT_WINDOW_SECONDS c rl of
            (Inr (True, _), rl) \<Rightarrow> issued_all cs rl | _ \<Rightarrow> [])"

definition issued :: "site_event \<Rightarrow> site \<Rightarrow> call list" where
  "issued e st = issued_all (event_calls e st) (app_event_limiter (site_app st))"

text \<open>An event was taken when its answer is not the refusal of the limiter.\<close>

definition refused :: "answer option \<Rightarrow> bool" where
  "refused a = (case a of Some (Inr (JSONResponse code _, _)) \<Rightarrow> code = 429 | _ \<Rightarrow> False)"

fun taken_times :: "pystr \<Rightarrow> site_event \<Rightarrow> answer option \<Rightarrow> rat list" where
  "taken_times k (MapEvent r payload ts stamp) a =
     (if refused a then [] else map call_time (filter (\<lambda>c. fst c = k) (gate_calls r ''events'' EVENT_LIMIT_PER_MINUTE ts)))"
| "taken_times k (WebEvent r user_agent payload ts now) a =
     (if refused a then [] else map call_time (filter (\<lambda>c. fst c = k) (gate_calls r ''web-events'' WEB_EVENT_LIMIT_PER_MINUTE ts)))"
| "taken_times k (Download r now) a = []"
| "taken_times k (Reconfigure s) a = []"

definition taken :: "pystr \<Rightarrow> site_event list \<Rightarrow> answer option list \<Rightarrow> rat list" where
  "taken k trace outs = concat (map2 (taken_times k) trace outs)"

section \<open>The routes delegate to the limiter\<close>

lemma limited_refused [simp]: "refused (Some (Inr (rate_limited_response r)))"
  by (simp add: refused_def rate_limited_response_def)

lemma success_taken [simp]: "\<not> refused (Some (Inr success_response))" "\<not> refused (Some (Inl e))" "\<not> refused None"
  by (simp_all add: refused_def success_response_def)

lemma allow_all_limiter:
  "snd (allow_all cs rl) = snd (run_steps (allow_step RATE_LIMIT_WINDOW_SECONDS) (issued_all cs rl) rl)"
  by (induction cs rl rule: allow_all.induct)
     (auto simp: allow_step_def split: prod.splits sum.splits bool.splits)

lemma allow_True: "fst (allow key l w now rl) = Inr (True, n) \<Longrightarrow> n = 0"
  by (auto simp: allow_def Let_def split: if_splits list.splits)

lemma allow_positive: "0 < l \<Longrightarrow> fst (allow key l w now rl) \<noteq> Inl e"
  by (auto simp: allow_def Let_def simp del: dropWhile_eq_Nil_conv split: if_splits list.splits)

lemma admitted_Nil: "admitted k [] [] = []"
  by (simp add: admitted_def)

lemma admitted_append:
  "length cs = length os \<Longrightarrow> admitted k (cs @ ds) (os @ ps) = admitted k cs os @ admitted k ds ps"
  by (simp add: admitted_def)

text \<open>A gate whose limits are positive refuses with an answer, or admits every key it asked.\<close>

lemma allow_all_positive:
  "list_all (\<lambda>c. 0 < fst (snd c)) cs \<Longrightarrow>
   (\<exists>r. fst (allow_all cs rl) = Inr (Some (rate_limited_response r))) \<or>
   (fst (allow_all cs rl) = Inr None \<and>
    admitted k (issued_all cs rl) (fst (run_steps (allow_step RATE_LIMIT_WINDOW_SECONDS) (issued_all cs rl) rl)) =
      map call_time (filter (\<lambda>c. fst c = k) cs))"
proof (induction cs arbitrary: rl)
  case (Cons c cs)
  obtain key l now where c: "c = (key, l, now)" by (cases c) auto
  obtain o' rl' where a: "allow key l RATE_LIMIT_WINDOW_SECONDS now rl = (o', rl')" by fastforce
  have "o' \<noteq> Inl e" for e using allow_positive [of l key RATE_LIMIT_WINDOW_SECONDS now rl e] Cons.prems a by (auto simp: c)
  then obtain ok n where o': "o' = Inr (ok, n)" by (cases o') auto
  show ?case
  proof (cases ok)
    case True
    then have "n = 0" using allow_True [of key l RATE_LIMIT_WINDOW_SECONDS now rl n] a o' by simp
    with Cons.IH [of rl'] Cons.prems show ?thesis
      by (simp add: c a o' True allow_step_def admitted_def call_time_def)
  qed (auto simp: c a o')
qed (simp add: admitted_def)

lemma gate_result:
  assumes "0 < limit"
  shows "(\<exists>r. fst (allow_rate_limited_event r' pre limit ts rl) = Inr (Some (rate_limited_response r))) \<or>
    fst (allow_rate_limited_event r' pre limit ts rl) = Inr None \<and>
    admitted k (issued_all (gate_calls r' pre limit ts) rl)
      (fst (run_steps (allow_step RATE_LIMIT_WINDOW_SECONDS) (issued_all (gate_calls r' pre limit ts) rl) rl)) =
      map call_time (filter (\<lambda>c. fst c = k) (gate_calls r' pre limit ts))"
  unfolding allow_rate_limited_event_def
  by (rule allow_all_positive) (simp add: gate_calls_def assms EVENT_GLOBAL_LIMIT_PER_MINUTE_def split: prod.splits)

text \<open>What a gated route does to the limiter, and that only a refusal leaves the table alone.\<close>

lemma handle_limiter:
  "fst (snd (handle_rate_limited_event r pre limit ts f (rl, d))) =
   snd (run_steps (allow_step RATE_LIMIT_WINDOW_SECONDS) (issued_all (gate_calls r pre limit ts) rl) rl)"
  unfolding allow_all_limiter [symmetric] handle_rate_limited_event_def allow_rate_limited_event_def
  by (auto split: prod.splits sum.splits option.splits)

lemma handle_result:
  assumes "0 < limit"
  shows "(\<exists>ra. fst (handle_rate_limited_event r pre limit ts f (rl, d)) = Inr (rate_limited_response ra) \<and>
            snd (snd (handle_rate_limited_event r pre limit ts f (rl, d))) = d) \<or>
    (case f d of
       (Inl e, d') \<Rightarrow> fst (handle_rate_limited_event r pre limit ts f (rl, d)) = Inl (raise_http_from_service_error e)
     | (Inr _, d') \<Rightarrow> fst (handle_rate_limited_event r pre limit ts f (rl, d)) = Inr success_response) \<and>
    snd (snd (handle_rate_limited_event r pre limit ts f (rl, d))) = snd (f d) \<and>
    admitted k (issued_all (gate_calls r pre limit ts) rl)
      (fst (run_steps (allow_step RATE_LIMIT_WINDOW_SECONDS) (issued_all (gate_calls r pre limit ts) rl) rl)) =
      map call_time (filter (\<lambda>c. fst c = k) (gate_calls r pre limit ts))"
  using gate_result [OF assms, of r pre ts rl k]
  by (cases "allow_rate_limited_event r pre limit ts rl")
     (auto simp: handle_rate_limited_event_def split: prod.splits sum.splits)

lemma event_limits: "0 < EVENT_LIMIT_PER_MINUTE" "0 < WEB_EVENT_LIMIT_PER_MINUTE"
  by (simp_all add: EVENT_LIMIT_PER_MINUTE_def WEB_EVENT_LIMIT_PER_MINUTE_def)

abbreviation limiter_of :: "site \<Rightarrow> rate_limiter" where
  "limiter_of st \<equiv> app_event_limiter (site_app st)"

lemma site_limiter:
  "limiter_of (snd (site_step lib e st)) =
   snd (run_steps (allow_step RATE_LIMIT_WINDOW_SECONDS) (issued e st) (limiter_of st))"
proof (cases e)
  case (Download r now)
  then show ?thesis
    by (auto simp: issued_def get_public_download_def allow_step_def split: prod.splits sum.splits bool.splits)
qed (simp_all add: issued_def post_map_event_def post_web_event_def Let_def handle_limiter
    rebuild_runtime_state_def split_beta)

lemma subseq_if_refused: "subseq (if P then [] else xs) ys" if "P \<or> xs = ys"
  using that by auto

lemma taken_gate:
  assumes "0 < limit"
  shows "subseq
     (if refused (Some (fst (handle_rate_limited_event r pre limit ts f (rl, d)))) then []
      else map call_time (filter (\<lambda>c. fst c = k) (gate_calls r pre limit ts)))
     (admitted k (issued_all (gate_calls r pre limit ts) rl)
       (fst (run_steps (allow_step RATE_LIMIT_WINDOW_SECONDS) (issued_all (gate_calls r pre limit ts) rl) rl)))"
  using handle_result [OF assms, of r pre ts f rl d k] by (intro subseq_if_refused) auto

lemma taken_step:
  "subseq (taken_times k e (fst (site_step lib e st)))
     (admitted k (issued e st) (fst (run_steps (allow_step RATE_LIMIT_WINDOW_SECONDS) (issued e st) (limiter_of st))))"
  by (cases e)
     (simp_all add: issued_def post_map_event_def post_web_event_def Let_def split_beta taken_gate event_limits)

interpretation site: delegating
  "site_step lib" "allow_step RATE_LIMIT_WINDOW_SECONDS" limiter_of issued "taken_times k" "admitted k" for lib k
  by unfold_locales (simp_all only: site_limiter taken_step admitted_Nil admitted_append)

section \<open>Histories\<close>

fun visitor :: "site_event \<Rightarrow> pystr option" where
  "visitor (MapEvent r payload ts stamp) = Some (peer_name r)"
| "visitor (WebEvent r user_agent payload ts now) = Some (peer_name r)"
| "visitor (Download r now) = Some (peer_name r)"
| "visitor (Reconfigure s) = None"

text \<open>The clock does not run backwards, and no client goes by the name of the shared key.\<close>

definition fair_trace :: "rat \<Rightarrow> site_event list \<Rightarrow> bool" where
  "fair_trace t0 trace \<longleftrightarrow>
     sorted (concat (map event_times trace)) \<and> list_all (\<lambda>t. t0 \<le> t) (concat (map event_times trace)) \<and>
     list_all (\<lambda>e. visitor e \<noteq> Some (asc ''global'')) trace"

lemma issued_all_take: "\<exists>n. issued_all cs rl = take n cs"
proof (induction cs arbitrary: rl)
  case (Cons c cs)
  show ?case
  proof (cases "\<exists>n. fst (allow_step RATE_LIMIT_WINDOW_SECONDS c rl) = Inr (True, n)")
    case True
    then obtain m rl' where "allow_step RATE_LIMIT_WINDOW_SECONDS c rl = (Inr (True, m), rl')"
      by (cases "allow_step RATE_LIMIT_WINDOW_SECONDS c rl") auto
    moreover obtain n where "issued_all cs rl' = take n cs" using Cons by blast
    ultimately have "issued_all (c # cs) rl = c # take n cs" by simp
    then show ?thesis by (intro exI [of _ "Suc n"]) simp
  next
    case False
    then have "issued_all (c # cs) rl = [c]" by (auto split: prod.splits sum.splits bool.splits)
    then show ?thesis by (intro exI [of _ 1]) simp
  qed
qed simp

lemma issued_take: "\<exists>n. issued e st = take n (event_calls e st)"
  by (simp add: issued_def issued_all_take)

lemma issued_all_P: "list_all P (event_calls e st) \<Longrightarrow> list_all P (issued e st)"
  using issued_take [of e st] by (metis in_set_takeD list_all_iff)

lemma event_calls_times: "map call_time (event_calls e st) = event_times e"
  by (cases e) (auto simp: gate_calls_def call_time_def split: prod.splits)

lemma issued_times: "subseq (map call_time (issued e st)) (event_times e)"
proof -
  obtain n where "issued e st = take n (event_calls e st)" using issued_take by blast
  then have "map call_time (issued e st) = take n (event_times e)"
    by (simp add: take_map [symmetric] event_calls_times)
  then show ?thesis using list_emb_append2 subseq_order.order_refl append_take_drop_id
    by (metis prefix_imp_subseq take_is_prefix)
qed

lemma subseq_set: "subseq xs ys \<Longrightarrow> set xs \<subseteq> set ys"
  by (induction rule: list_emb.induct) auto

lemma sorted_subseq: "subseq xs ys \<Longrightarrow> sorted ys \<Longrightarrow> sorted xs"
proof (induction rule: list_emb.induct)
  case (list_emb_Cons2 x y xs ys)
  then show ?case using subseq_set [of xs ys] by auto
qed auto

text \<open>The keys of the two gates are told apart by their prefix and by the name behind it.\<close>

definition gated_limit :: "string \<Rightarrow> int \<Rightarrow> pystr \<Rightarrow> int" where
  "gated_limit pre limit name = (if name = asc ''global'' then EVENT_GLOBAL_LIMIT_PER_MINUTE else limit)"

lemma limit_key_eq:
  assumes "pre \<in> {''events'', ''web-events''}" "pre' \<in> {''events'', ''web-events'', ''public-download''}"
  shows "limit_key pre' n = limit_key pre m \<longleftrightarrow> pre' = pre \<and> n = m"
  using assms by (auto simp: limit_key_def asc_Cons)

lemma event_calls_limit:
  assumes "pre = ''events'' \<and> limit = EVENT_LIMIT_PER_MINUTE \<or> pre = ''web-events'' \<and> limit = WEB_EVENT_LIMIT_PER_MINUTE"
    and "visitor e \<noteq> Some (asc ''global'')"
  shows "list_all (\<lambda>c. fst c = limit_key pre name \<longrightarrow> fst (snd c) = gated_limit pre limit name) (event_calls e st)"
proof -
  have pre: "pre \<in> {''events'', ''web-events''}" using assms(1) by auto
  note key = limit_key_eq [OF pre]
  show ?thesis
    using assms by (cases e) (auto simp: gate_calls_def key gated_limit_def split: prod.splits)
qed

lemma fair_trace_calls:
  assumes "fair_trace t0 trace"
    and "pre = ''events'' \<and> limit = EVENT_LIMIT_PER_MINUTE \<or> pre = ''web-events'' \<and> limit = WEB_EVENT_LIMIT_PER_MINUTE"
  shows "fair_calls (limit_key pre name) (gated_limit pre limit name) t0 (site.trace_calls lib trace st)"
proof -
  let ?calls = "site.trace_calls lib trace st"
  have sub: "subseq (map call_time ?calls) (concat (map event_times trace))"
    by (rule site.trace_calls_map) (rule issued_times)
  have "set (map call_time ?calls) \<subseteq> {t. t0 \<le> t}"
    using subseq_set [OF sub] assms(1) by (fastforce simp: fair_trace_def list_all_iff)
  moreover have "list_all (\<lambda>c. fst c = limit_key pre name \<longrightarrow> fst (snd c) = gated_limit pre limit name) ?calls"
    using assms(1) by (intro site.trace_calls_all issued_all_P event_calls_limit [OF assms(2)])
      (auto simp: fair_trace_def list_all_iff)
  ultimately show ?thesis
    using sorted_subseq [OF sub] assms(1) by (auto simp: fair_calls_def fair_trace_def list_all_iff)
qed

lemma in_window_subseq: "subseq xs ys \<Longrightarrow> length (in_window w s xs) \<le> length (in_window w s ys)"
  unfolding in_window_def by (rule list_emb_length [OF subseq_filter])

lemma taken_bound:
  assumes fair: "fair_trace t0 trace" and new: "limiter_of st = new_rate_limiter"
    and "pre = ''events'' \<and> limit = EVENT_LIMIT_PER_MINUTE \<or> pre = ''web-events'' \<and> limit = WEB_EVENT_LIMIT_PER_MINUTE"
  shows "length (in_window RATE_LIMIT_WINDOW_SECONDS s
     (taken (limit_key pre name) trace (fst (run_steps (site_step lib) trace st)))) \<le> nat (gated_limit pre limit name)"
proof -
  let ?k = "limit_key pre name" and ?calls = "site.trace_calls lib trace st"
  note fc = fair_trace_calls [OF fair assms(3), of name lib st]
  have "length (in_window RATE_LIMIT_WINDOW_SECONDS s (taken ?k trace (fst (run_steps (site_step lib) trace st)))) \<le>
      length (in_window RATE_LIMIT_WINDOW_SECONDS s (admitted ?k ?calls (fst (limiter_run ?calls))))"
    using site.grants_run [of ?k trace lib st] by (intro in_window_subseq) (simp add: taken_def new)
  also have "\<dots> \<le> nat (gated_limit pre limit name)"
    using history_window [OF fc] admitted_history [OF fc]
    by (cases "snd (history_run t0 ?calls)") (auto simp: window_inv_def)
  finally show ?thesis .
qed

section \<open>What is stored\<close>

definition succeeded :: "answer option \<Rightarrow> bool" where
  "succeeded a \<longleftrightarrow> a = Some (Inr success_response)"

fun is_map_event :: "site_event \<Rightarrow> bool" where
  "is_map_event (MapEvent r payload ts stamp) = True"
| "is_map_event _ = False"

fun is_web_event :: "site_event \<Rightarrow> bool" where
  "is_web_event (WebEvent r user_agent payload ts now) = True"
| "is_web_event _ = False"

text \<open>One step stores one row of its kind if it succeeds, and none otherwise.\<close>

lemma not_success [simp]: "rate_limited_response r \<noteq> success_response"
  "success_response \<noteq> rate_limited_response r"
  by (simp_all add: rate_limited_response_def success_response_def)

lemma step_stores:
  "length (me_rows (site_events (snd (site_step lib e st)))) =
     length (me_rows (site_events st)) + (if is_map_event e \<and> succeeded (fst (site_step lib e st)) then 1 else 0)"
  "length (wv_rows (site_visits (snd (site_step lib e st)))) =
     length (wv_rows (site_visits st)) + (if is_web_event e \<and> succeeded (fst (site_step lib e st)) then 1 else 0)"
proof -
  show "length (me_rows (site_events (snd (site_step lib e st)))) =
     length (me_rows (site_events st)) + (if is_map_event e \<and> succeeded (fst (site_step lib e st)) then 1 else 0)"
  proof (cases e)
    case (MapEvent r payload ts stamp)
    let ?f = "record_map_event lib stamp (build_map_event_command lib payload)"
    have "case ?f d of (Inl _, d') \<Rightarrow> d' = d | (Inr _, d') \<Rightarrow> length (me_rows d') = Suc (length (me_rows d))" for d
      using record_map_event_spec [where lib = lib and ts = stamp and command = "build_map_event_command lib payload" and d = d]
      by (auto split: prod.splits sum.splits)
    from this [of "site_events st"]
    show ?thesis
      using handle_result [OF event_limits(1), of r "''events''" ts ?f "limiter_of st" "site_events st" "[]"]
      by (auto simp: MapEvent post_map_event_def split_beta succeeded_def split: prod.splits sum.splits)
  qed (simp_all add: split_beta)
  show "length (wv_rows (site_visits (snd (site_step lib e st)))) =
     length (wv_rows (site_visits st)) + (if is_web_event e \<and> succeeded (fst (site_step lib e st)) then 1 else 0)"
  proof (cases e)
    case (WebEvent r user_agent payload ts now)
    let ?c = "build_web_visit_event_command payload (build_web_visit_context (app_config (site_app st)) user_agent)"
    let ?f = "record_web_visit_event now lib ?c"
    have "case ?f d of (Inl _, d') \<Rightarrow> d' = d | (Inr _, d') \<Rightarrow> length (wv_rows d') = Suc (length (wv_rows d))" for d
      using record_web_visit_event_spec [where lib = lib and now = now and c = ?c and d = d]
      by (auto split: prod.splits sum.splits)
    from this [of "site_visits st"]
    show ?thesis
      using handle_result [OF event_limits(2), of r "''web-events''" ts ?f "limiter_of st" "site_visits st" "[]"]
      by (auto simp: WebEvent post_web_event_def split_beta succeeded_def split: prod.splits sum.splits)
  qed (simp_all add: split_beta)
qed

lemma run_stores:
  "length (me_rows (site_events (snd (run_steps (site_step lib) trace st)))) = length (me_rows (site_events st)) +
     length (filter (\<lambda>(e, a). is_map_event e \<and> succeeded a) (zip trace (fst (run_steps (site_step lib) trace st))))"
  "length (wv_rows (site_visits (snd (run_steps (site_step lib) trace st)))) = length (wv_rows (site_visits st)) +
     length (filter (\<lambda>(e, a). is_web_event e \<and> succeeded a) (zip trace (fst (run_steps (site_step lib) trace st))))"
  by (induction trace arbitrary: st) (simp_all add: step_stores)

section \<open>Properties\<close>

text \<open>
  C5. However the requests of all clients interleave, and whatever settings updates come in between, in
  any interval of sixty seconds the map events the site takes from one client are at most 60 and from all
  clients together at most 1200, the web events at most 120 and 1200; and every event answered with
  success is one more row in its table, every other event none.
\<close>

theorem events_rate_bound:
  assumes "fair_trace t0 trace" and "app_event_limiter (site_app st) = new_rate_limiter"
    and "run_steps (site_step lib) trace st = (outs, st')" and "name \<noteq> asc ''global''"
  shows "length (in_window RATE_LIMIT_WINDOW_SECONDS s (taken (limit_key ''events'' name) trace outs)) \<le> 60 \<and>
    length (in_window RATE_LIMIT_WINDOW_SECONDS s (taken (limit_key ''web-events'' name) trace outs)) \<le> 120 \<and>
    length (in_window RATE_LIMIT_WINDOW_SECONDS s (taken (limit_key ''events'' (asc ''global'')) trace outs)) \<le> 1200 \<and>
    length (in_window RATE_LIMIT_WINDOW_SECONDS s (taken (limit_key ''web-events'' (asc ''global'')) trace outs)) \<le> 1200 \<and>
    length (me_rows (site_events st')) = length (me_rows (site_events st)) +
      length (filter (\<lambda>(e, a). is_map_event e \<and> succeeded a) (zip trace outs)) \<and>
    length (wv_rows (site_visits st')) = length (wv_rows (site_visits st)) +
      length (filter (\<lambda>(e, a). is_web_event e \<and> succeeded a) (zip trace outs))"
  using taken_bound [OF assms(1,2), of "''events''" EVENT_LIMIT_PER_MINUTE s name lib]
    taken_bound [OF assms(1,2), of "''events''" EVENT_LIMIT_PER_MINUTE s "asc ''global''" lib]
    taken_bound [OF assms(1,2), of "''web-events''" WEB_EVENT_LIMIT_PER_MINUTE s name lib]
    taken_bound [OF assms(1,2), of "''web-events''" WEB_EVENT_LIMIT_PER_MINUTE s "asc ''global''" lib]
    run_stores [of lib trace st] assms(3,4)
  by (simp add: gated_limit_def EVENT_LIMIT_PER_MINUTE_def WEB_EVENT_LIMIT_PER_MINUTE_def EVENT_GLOBAL_LIMIT_PER_MINUTE_def)

definition sample_site :: site where
  "sample_site =
     \<lparr>site_app = initial_app_state sample_settings, site_events = empty_event_db,
      site_visits = \<lparr>wv_rows = [], wv_seq = 0\<rparr>, site_files = Map.empty\<rparr>"

definition sample_visitor :: request where
  "sample_visitor = \<lparr>client_host = Some (asc ''::1''), forwarded_for = [], state_request_id = None, session = Map.empty\<rparr>"

definition sample_trace :: "site_event list" where
  "sample_trace =
     [MapEvent sample_visitor [(asc ''eventType'', JStr (asc ''land_click'')), (asc ''landAddress'', JStr (asc ''a''))]
        (10, 10) (asc ''t''),
      Download sample_visitor 11, MapEvent sample_visitor [] (12, 13) (asc ''t'')]"

lemma sample_run:
  "fair_trace 0 sample_trace"
  "taken (limit_key ''events'' (asc ''::1'')) sample_trace (fst (run_steps (site_step sample_lib) sample_trace sample_site)) = [10, 12]"
  "length (me_rows (site_events (snd (run_steps (site_step sample_lib) sample_trace sample_site)))) = 1"
  by code_simp+

theorem events_rate_bound_witness:
  "let (outs, st') = run_steps (site_step sample_lib) sample_trace sample_site;
       ts = taken (limit_key ''events'' (asc ''::1'')) sample_trace outs
   in ts = [10, 12] \<and> length (me_rows (site_events st')) = 1 \<and> length (in_window RATE_LIMIT_WINDOW_SECONDS 20 ts) \<le> 60"
proof -
  obtain outs st' where run: "run_steps (site_step sample_lib) sample_trace sample_site = (outs, st')" by fastforce
  have "app_event_limiter (site_app sample_site) = new_rate_limiter"
    by (simp add: sample_site_def initial_app_state_def)
  from events_rate_bound [OF sample_run(1) this run, of "asc ''::1''" 20] sample_run(2,3)
  show ?thesis unfolding run Let_def prod.case by simp
qed

text \<open>
  C33. The download names the file as the administrator named it: the header is one line of unreserved
  characters whose percent-decoded bytes are the UTF-8 of the stored name, whatever the name holds.
\<close>

theorem download_header_roundtrip:
  assumes "get_public_download lib config fs r now rl = (Inr (FileResponse path media, headers), rl')"
    and "\<And>res. get_public_download_file lib (download_config config) fs = Inr res \<Longrightarrow> unicode (df_download_filename res)"
  shows "\<exists>res q. get_public_download_file lib (download_config config) fs = Inr res \<and>
    path = df_path res \<and> media = df_media_type res \<and>
    headers = [(asc ''Content-Disposition'', asc ''attachment; filename*=UTF-8'' @ [39, 39] @ q)] \<and>
    list_all (\<lambda>c. unreserved c \<or> c = 37) q \<and> decode_utf8 (unquote_bytes q) = Inr (df_download_filename res)"
proof -
  obtain res where res: "get_public_download_file lib (download_config config) fs = Inr res"
    and "bindR (quote (df_download_filename res)) (\<lambda>quoted.
       Inr (FileResponse (df_path res) (df_media_type res),
            [(asc ''Content-Disposition'', asc ''attachment; filename*=UTF-8'' @ [39, 39] @ quoted)])) =
      Inr (FileResponse path media, headers)"
    using assms(1) by (auto simp: get_public_download_def rate_limited_response_def split: prod.splits sum.splits if_splits)
  then obtain q where q: "quote (df_download_filename res) = Inr q" and "path = df_path res" "media = df_media_type res"
    "headers = [(asc ''Content-Disposition'', asc ''attachment; filename*=UTF-8'' @ [39, 39] @ q)]"
    by (auto simp: bindR_Inr_iff)
  with quote_spec [OF assms(2) [OF res] q] res show ?thesis by (auto simp: header_safe_def)
qed

text \<open>A name with a Korean letter, a quote and a line break.\<close>

definition sample_download :: payload where
  "sample_download =
     [(asc ''stored_filename'', JStr (asc ''current.pdf'')), (asc ''original_filename'', JStr [44277, 34, 10, 46, 112])]"

definition sample_download_store :: file_store where
  "sample_download_store =
     [asc ''/srv/data/public_download/current.json'' \<mapsto> [123, 125], asc ''/srv/data/public_download/current.pdf'' \<mapsto> [1, 2, 3]]"

theorem download_header_roundtrip_witness:
  "let lib = sample_lib\<lparr>lib_loads := \<lambda>_. Inr (JObj sample_download)\<rparr>;
       q = asc ''%EA%B3%B5%22%0A.p''
   in fst (get_public_download lib sample_config sample_download_store sample_visitor 5 new_rate_limiter) =
        Inr (FileResponse (asc ''/srv/data/public_download/current.pdf'') (asc ''application/octet-stream''),
             [(asc ''Content-Disposition'', asc ''attachment; filename*=UTF-8'' @ [39, 39] @ q)]) \<and>
      decode_utf8 (unquote_bytes q) = Inr [44277, 34, 10, 46, 112]"
proof -
  let ?lib = "sample_lib\<lparr>lib_loads := \<lambda>_. Inr (JObj sample_download)\<rparr>"
  let ?q = "asc ''%EA%B3%B5%22%0A.p''"
  have found: "get_public_download_file ?lib (download_config sample_config) sample_download_store =
      Inr \<lparr>df_path = asc ''/srv/data/public_download/current.pdf'', df_media_type = asc ''application/octet-stream'',
           df_download_filename = [44277, 34, 10, 46, 112]\<rparr>" by code_simp
  have out: "fst (get_public_download ?lib sample_config sample_download_store sample_visitor 5 new_rate_limiter) =
        Inr (FileResponse (asc ''/srv/data/public_download/current.pdf'') (asc ''application/octet-stream''),
             [(asc ''Content-Disposition'', asc ''attachment; filename*=UTF-8'' @ [39, 39] @ ?q)])" by code_simp
  then obtain rl' where run: "get_public_download ?lib sample_config sample_download_store sample_visitor 5 new_rate_limiter =
        (Inr (FileResponse (asc ''/srv/data/public_download/current.pdf'') (asc ''application/octet-stream''),
             [(asc ''Content-Disposition'', asc ''attachment; filename*=UTF-8'' @ [39, 39] @ ?q)]), rl')"
    by (metis prod.collapse)
  from download_header_roundtrip [OF run] found have "decode_utf8 (unquote_bytes ?q) = Inr [44277, 34, 10, 46, 112]"
    by (simp add: unicode_def)
  with out show ?thesis by (simp only: Let_def)
qed

end
