(* ===== verification/Raw_Export.thy ===== *)
theory Raw_Export
  imports "HOL-Library.Multiset" Map_Events Calendar
begin

text \<open>
  \<open>app/services/raw_query_export_service.py\<close> and the query behind it in
  \<open>app/repositories/event_repository.py\<close>: the raw query logs of some days as a CSV file. The timer that
  interrupts a slow query is an argument: whether it fired before the rows were read. A reader of CSV is
  the reference for the writer, and the calendar the one for the date filter.
\<close>

record RawQueryExportCommand =
  ec_event_type :: pystr
  ec_date_from :: "pystr option"
  ec_date_to :: "pystr option"
  ec_limit :: int
  ec_max_rows :: int

record ValidatedRawQueryExport =
  event_type_filter :: "pystr option"
  effective_limit :: int
  created_at_from :: "pystr option"
  created_at_to :: "pystr option"

record RawQueryCsvExportResult =
  csv_text :: pystr
  export_row_count :: int
  export_effective_limit :: int

section \<open>Dates\<close>

text \<open>
  \<open>datetime.strptime(raw, "%Y-%m-%d")\<close>: four digits of any script, a month and a day with or without a
  leading zero (a day also after a blank); the date must exist. The value is the ordinal of the day.
\<close>

definition between :: "nat \<Rightarrow> nat \<Rightarrow> nat \<Rightarrow> bool" where
  "between a b c \<longleftrightarrow> a \<le> c \<and> c \<le> b"

fun month_field :: "pystr \<Rightarrow> nat option" where
  "month_field [b] = (if between 49 57 b then Some (b - 48) else None)"
| "month_field [a, b] =
     (if a = 49 \<and> between 48 50 b then Some (10 + (b - 48))
      else if a = 48 \<and> between 49 57 b then Some (b - 48) else None)"
| "month_field _ = None"

fun day_field :: "pystr \<Rightarrow> int option" where
  "day_field [b] = (if between 49 57 b then Some (int (b - 48)) else None)"
| "day_field [a, b] =
     (if a = 51 \<and> between 48 49 b then Some (30 + int (b - 48))
      else if between 49 50 a \<and> is_decimal_char b then Some (digits_value (int (a - 48)) [b])
      else if (a = 48 \<or> a = 32) \<and> between 49 57 b then Some (int (b - 48)) else None)"
| "day_field _ = None"

definition strptime_day :: "pystr \<Rightarrow> int result" where
  "strptime_day raw =
     (let ys = take 4 raw; rest = drop 4 raw;
          ms = takeWhile (\<lambda>c. c \<noteq> 45) (tl rest); ds = dropWhile (\<lambda>c. c \<noteq> 45) (tl rest)
      in case (month_field ms, day_field (tl ds)) of
           (Some m, Some d) \<Rightarrow>
             if length ys = 4 \<and> list_all is_decimal_char ys \<and> hd rest = 45 \<and> ds \<noteq> [] \<and>
                valid_ymd (digits_value 0 ys, m, d) \<and> 1 \<le> digits_value 0 ys
             then Inr (ymd_ord (digits_value 0 ys, m, d)) else Inl (ValueErr None)
         | _ \<Rightarrow> Inl (ValueErr None))"

definition MAX_ORDINAL :: int where
  "MAX_ORDINAL = 3652059"

text \<open>\<open>strftime("%Y-%m-%d 00:00:00")\<close>\<close>

definition midnight :: "int \<Rightarrow> pystr" where
  "midnight n = fmt_date n @ asc '' 00:00:00''"

definition parse_date_start :: "pystr option \<Rightarrow> pystr option result" where
  "parse_date_start raw =
     (case raw of
        None \<Rightarrow> Inr None
      | Some s \<Rightarrow>
          if strip s = [] then Inr None
          else case strptime_day s of
                 Inl _ \<Rightarrow> Inl (ValidationError 400 (asc ''date_from must be YYYY-MM-DD.''))
               | Inr n \<Rightarrow> Inr (Some (midnight n)))"

definition parse_date_end_exclusive :: "pystr option \<Rightarrow> pystr option result" where
  "parse_date_end_exclusive raw =
     (case raw of
        None \<Rightarrow> Inr None
      | Some s \<Rightarrow>
          if strip s = [] then Inr None
          else case strptime_day s of
                 Inl _ \<Rightarrow> Inl (ValidationError 400 (asc ''date_to must be YYYY-MM-DD.''))
               | Inr n \<Rightarrow> if n + 1 \<le> MAX_ORDINAL then Inr (Some (midnight (n + 1))) else Inl OverflowErr)"

section \<open>The query\<close>

definition validate_raw_query_export_command :: "RawQueryExportCommand \<Rightarrow> ValidatedRawQueryExport result" where
  "validate_raw_query_export_command command =
     (if ec_event_type command \<notin> {asc ''all'', EVENT_TYPE_SEARCH, EVENT_TYPE_LAND_CLICK}
      then Inl (ValidationError 400 (asc ''event_type must be one of: all, search, land_click.''))
      else bindR (parse_date_start (ec_date_from command)) (\<lambda>from_text.
           bindR (parse_date_end_exclusive (ec_date_to command)) (\<lambda>to_text.
             if (case (from_text, to_text) of (Some a, Some b) \<Rightarrow> b \<le> a | _ \<Rightarrow> False)
             then Inl (ValidationError 400 (asc ''date_from must be earlier than or equal to date_to.''))
             else Inr \<lparr>event_type_filter = (if ec_event_type command = asc ''all'' then None else Some (ec_event_type command)),
                       effective_limit = max 1 (min (ec_limit command) (ec_max_rows command)),
                       created_at_from = from_text, created_at_to = to_text\<rparr>)))"

text \<open>\<open>WHERE ... ORDER BY created_at DESC, id DESC LIMIT ?\<close>; a number beyond 64 bits cannot be bound.\<close>

definition fetch_raw_query_logs ::
  "pystr option \<Rightarrow> pystr option \<Rightarrow> pystr option \<Rightarrow> int \<Rightarrow> event_db \<Rightarrow> raw_query list result" where
  "fetch_raw_query_logs event_type from_text to_text limit d =
     (if 2 ^ 63 \<le> limit then Inl OverflowErr
      else Inr (sql_limit limit (rev (sort_key (\<lambda>q. (rq_created_at q, rq_id q))
        (filter (\<lambda>q. (case event_type of None \<Rightarrow> True | Some t \<Rightarrow> rq_event_type q = t) \<and>
                     (case from_text of None \<Rightarrow> True | Some a \<Rightarrow> a \<le> rq_created_at q) \<and>
                     (case to_text of None \<Rightarrow> True | Some b \<Rightarrow> rq_created_at q < b)) (rq_rows d))))))"

definition fetch_raw_query_export_rows :: "bool \<Rightarrow> ValidatedRawQueryExport \<Rightarrow> event_db \<Rightarrow> raw_query list result" where
  "fetch_raw_query_export_rows interrupted validated d =
     (if interrupted then Inl (ServiceError ServiceBase 503 msg_query_timeout)
      else fetch_raw_query_logs (event_type_filter validated) (created_at_from validated) (created_at_to validated)
             (effective_limit validated) d)"

section \<open>The file\<close>

definition CSV_FORMULA_PREFIXES :: "nat list" where
  "CSV_FORMULA_PREFIXES = [61, 43, 45, 64, 9, 124]"

definition starts_formula :: "pystr \<Rightarrow> bool" where
  "starts_formula s \<longleftrightarrow> s \<noteq> [] \<and> hd s \<in> set CSV_FORMULA_PREFIXES"

definition safe_csv_string :: "pystr option \<Rightarrow> pystr" where
  "safe_csv_string v =
     (let s = (case v of None \<Rightarrow> [] | Some s \<Rightarrow> s)
      in if starts_formula s then 39 # s else s)"

text \<open>
  \<open>csv.writer(output).writerow\<close> with its defaults: a field with a comma, a quote or a line break goes in
  quotes, its quotes doubled; a row of one empty field is \<open>""\<close>; a row ends in CR LF.
\<close>

definition needs_quotes :: "pystr \<Rightarrow> bool" where
  "needs_quotes s \<longleftrightarrow> list_ex (\<lambda>c. c \<in> {44, 34, 13, 10}) s"

definition csv_quoted :: "pystr \<Rightarrow> pystr" where
  "csv_quoted s = 34 # concat (map (\<lambda>c. if c = 34 then [34, 34] else [c]) s) @ [34]"

definition csv_field :: "pystr \<Rightarrow> pystr" where
  "csv_field s = (if needs_quotes s then csv_quoted s else s)"

definition writerow :: "pystr list \<Rightarrow> pystr" where
  "writerow cells =
     (if cells = [[]] then [34, 34, 13, 10] else join [44] (map csv_field cells) @ [13, 10])"

definition csv_header :: "pystr list" where
  "csv_header =
     [asc ''id'', asc ''created_at'', asc ''event_type'', asc ''anon_id'', asc ''raw_region_query'',
      asc ''raw_min_area_input'', asc ''raw_max_area_input'', asc ''raw_rent_only_input'', asc ''raw_land_id_input'',
      asc ''raw_land_address_input'', asc ''raw_click_source_input'', asc ''raw_payload_json'']"

text \<open>The text columns of a row, as the writer takes them.\<close>

definition text_columns :: "raw_query \<Rightarrow> pystr option list" where
  "text_columns q =
     [Some (rq_created_at q), Some (rq_event_type q), rq_anon_id q, raw_region_query q, raw_min_area_input q,
      raw_max_area_input q, raw_rent_only_input q, raw_land_id_input q, raw_land_address_input q,
      raw_click_source_input q, Some (raw_payload_json q)]"

definition csv_row :: "raw_query \<Rightarrow> pystr list" where
  "csv_row q = str_of_int (rq_id q) # map safe_csv_string (text_columns q)"

definition render_raw_query_csv :: "raw_query list \<Rightarrow> int \<Rightarrow> RawQueryCsvExportResult" where
  "render_raw_query_csv rows limit =
     \<lparr>csv_text = concat (map writerow (csv_header # map csv_row rows)), export_row_count = int (length rows),
      export_effective_limit = limit\<rparr>"

definition export_raw_query_csv :: "bool \<Rightarrow> RawQueryExportCommand \<Rightarrow> event_db \<Rightarrow> RawQueryCsvExportResult result" where
  "export_raw_query_csv interrupted command d =
     bindR (validate_raw_query_export_command command) (\<lambda>validated.
     bindR (fetch_raw_query_export_rows interrupted validated d) (\<lambda>rows.
       Inr (render_raw_query_csv rows (effective_limit validated))))"

section \<open>Reading CSV\<close>

text \<open>The reader: a field is plain or in quotes, a row ends in CR LF; anything else is no CSV.\<close>

datatype reading = Start | Plain | Quoted | QuoteSeen

function csv_read :: "reading \<Rightarrow> pystr \<Rightarrow> pystr list \<Rightarrow> pystr \<Rightarrow> pystr list list option" where
  "csv_read m cur row [] = (if m = Start \<and> row = [] then Some [] else None)"
| "csv_read m cur row (c # s) =
     (if m = Quoted then (if c = 34 then csv_read QuoteSeen cur row s else csv_read Quoted (cur @ [c]) row s)
      else if c = 44 then csv_read Start [] (row @ [cur]) s
      else if c = 13 then (if s \<noteq> [] \<and> hd s = 10 then map_option ((#) (row @ [cur])) (csv_read Start [] [] (tl s)) else None)
      else if c = 34 \<and> m = Start then csv_read Quoted cur row s
      else if c = 34 \<and> m = QuoteSeen then csv_read Quoted (cur @ [34]) row s
      else if c = 34 \<or> c = 10 \<or> m = QuoteSeen then None
      else csv_read Plain (cur @ [c]) row s)"
  by pat_completeness auto
termination by (relation "measure (\<lambda>(m, cur, row, s). length s)") auto

definition parse_csv :: "pystr \<Rightarrow> pystr list list option" where
  "parse_csv s = csv_read Start [] [] s"

lemma read_plain:
  "\<not> needs_quotes f \<Longrightarrow> csv_read Plain cur row (f @ rest) = csv_read Plain (cur @ f) row rest"
  by (induction f arbitrary: cur) (simp_all add: needs_quotes_def)

lemma read_quoted:
  "csv_read Quoted cur row (concat (map (\<lambda>c. if c = 34 then [34, 34] else [c]) f) @ rest) =
   csv_read Quoted (cur @ f) row rest"
  by (induction f arbitrary: cur) simp_all

lemma read_field:
  "\<exists>m. m \<noteq> Quoted \<and> (\<forall>rest. csv_read Start [] row (csv_field f @ rest) = csv_read m f row rest)"
proof (cases "needs_quotes f")
  case True
  then show ?thesis by (intro exI [of _ QuoteSeen]) (simp add: csv_field_def csv_quoted_def read_quoted)
next
  case False
  then show ?thesis
  proof (cases f)
    case (Cons c cs)
    with False read_plain [of cs "[c]" row] show ?thesis
      by (intro exI [of _ Plain]) (simp add: csv_field_def needs_quotes_def)
  qed (auto simp: csv_field_def needs_quotes_def)
qed

lemma read_cell: "csv_read Start [] row (csv_field f @ 44 # rest) = csv_read Start [] (row @ [f]) rest"
  using read_field [of row f] by auto

lemma read_last_cell:
  "csv_read Start [] row (csv_field f @ 13 # 10 # rest) = map_option ((#) (row @ [f])) (csv_read Start [] [] rest)"
  using read_field [of row f] by auto

lemma read_row:
  "cells \<noteq> [] \<Longrightarrow>
   csv_read Start [] row (join [44] (map csv_field cells) @ 13 # 10 # rest) =
   map_option ((#) (row @ cells)) (csv_read Start [] [] rest)"
proof (induction cells arbitrary: row)
  case (Cons f fs)
  then show ?case by (cases fs) (simp_all add: read_last_cell read_cell)
qed simp

lemma read_writerow: "cells \<noteq> [] \<Longrightarrow> csv_read Start [] [] (writerow cells @ rest) = map_option ((#) cells) (csv_read Start [] [] rest)"
  using read_row [of cells "[]" rest] by (auto simp: writerow_def)

lemma parse_writerows: "list_all (\<lambda>cells. cells \<noteq> []) rows \<Longrightarrow> parse_csv (concat (map writerow rows)) = Some rows"
  unfolding parse_csv_def by (induction rows) (simp_all add: read_writerow)

text \<open>What a cell of text is to be: the stored text, with an apostrophe before =, +, -, @, a tab or |.\<close>

definition guarded_text :: "pystr option \<Rightarrow> pystr" where
  "guarded_text v =
     (case v of
        None \<Rightarrow> []
      | Some s \<Rightarrow> if s \<noteq> [] \<and> hd s \<in> {61, 43, 45, 64, 9, 124} then 39 # s else s)"

lemma guarded_text_safe: "guarded_text v = [] \<or> hd (guarded_text v) \<notin> {61, 43, 45, 64, 9, 124}"
  by (auto simp: guarded_text_def split: option.split)

lemma safe_csv_string_guarded: "safe_csv_string = guarded_text"
  by (auto simp: safe_csv_string_def guarded_text_def starts_formula_def CSV_FORMULA_PREFIXES_def Let_def fun_eq_iff split: option.split)

lemma parse_rendered:
  "parse_csv (csv_text (render_raw_query_csv rows n)) = Some (csv_header # map csv_row rows)"
  using parse_writerows [of "csv_header # map csv_row rows"]
  by (simp add: render_raw_query_csv_def csv_header_def csv_row_def list_all_iff)

section \<open>Dates and the filter\<close>

lemma month_fields: "1 \<le> m \<Longrightarrow> m \<le> 12 \<Longrightarrow> month_field (pad2 (int m)) = Some m"
proof -
  have "list_all (\<lambda>m. month_field (pad2 (int m)) = Some m) [1..<13]" by code_simp
  then show "1 \<le> m \<Longrightarrow> m \<le> 12 \<Longrightarrow> ?thesis" by (simp add: list_all_iff)
qed

lemma day_fields: "1 \<le> d \<Longrightarrow> d \<le> 31 \<Longrightarrow> day_field (pad2 d) = Some d"
proof -
  have "list_all (\<lambda>d. day_field (pad2 d) = Some d) [1..31]" by code_simp
  then show "1 \<le> d \<Longrightarrow> d \<le> 31 \<Longrightarrow> ?thesis" by (simp add: list_all_iff)
qed

lemma pad2_no_dash: "0 \<le> n \<Longrightarrow> c \<in> set (pad2 n) \<Longrightarrow> c \<noteq> 45"
  by (auto simp: pad2_def)

definition plain_day :: "int \<Rightarrow> bool" where
  "plain_day n \<longleftrightarrow> 1000 \<le> year_of n \<and> year_of n \<le> 9999"

lemma strptime_fmt_date:
  assumes "plain_day n"
  shows "strptime_day (fmt_date n) = Inr n"
proof -
  obtain y m d where o: "ord_ymd n = (y, m, d)" and y: "y = year_of n"
    and md: "1 \<le> m" "m \<le> 12" "1 \<le> d" "d \<le> 31" by (rule ord_ymd_cases)
  let ?ys = "nat_digits (nat y)"
  have yr: "1000 \<le> y" "y \<le> 9999" using assms by (auto simp: plain_day_def y)
  then have len: "length ?ys = 4" by (simp add: nat_digits4 nat_le_iff)
  have dec: "list_all is_decimal_char ?ys" using nat_digits_ascii [of _ "nat y"]
    by (fastforce simp: list_all_iff is_decimal_char_def decimal_value_def)
  have date: "fmt_date n = ?ys @ 45 # pad2 (int m) @ 45 # pad2 d" by (simp add: fmt_date_def o)
  have tk: "takeWhile (\<lambda>c. c \<noteq> 45) (pad2 (int m) @ 45 # pad2 d) = pad2 (int m)"
    "dropWhile (\<lambda>c. c \<noteq> 45) (pad2 (int m) @ 45 # pad2 d) = 45 # pad2 d"
    using pad2_no_dash [of "int m"] by (simp_all add: takeWhile_append dropWhile_append)
  have "valid_ymd (y, m, d)" "ymd_ord (y, m, d) = n" using ord_ymd_valid [of n] ymd_ord_ymd [of n] by (simp_all add: o)
  then show ?thesis
    unfolding strptime_day_def Let_def date
    using len dec md yr by (simp add: tk month_fields day_fields digits_value_nat_digits)
qed

definition day_start :: "int \<Rightarrow> int" where
  "day_start n = (n - EPOCH_ORD) * 86400"

lemma le_div_iff: "0 < m \<Longrightarrow> k * m \<le> s \<longleftrightarrow> k \<le> s div m" for k m s :: int
proof
  show "0 < m \<Longrightarrow> k * m \<le> s \<Longrightarrow> k \<le> s div m" using zdiv_mono1 [of "k * m" s m] by simp
next
  assume m: "0 < m" and "k \<le> s div m"
  then have "k * m \<le> s div m * m" by simp
  also have "\<dots> \<le> s" using div_mult_mod_eq [of s m] pos_mod_sign [OF m, of s] by linarith
  finally show "k * m \<le> s" .
qed

lemma day_start_le: "day_start n \<le> s \<longleftrightarrow> n \<le> ts_ord s"
  by (simp add: day_start_def ts_ord_def le_div_iff diff_le_eq add.commute)

lemma ts_ord_day_start: "ts_ord (day_start n) = n"
  by (simp add: ts_ord_def day_start_def)

lemma midnight_ts: "midnight n = fmt_ts (day_start n)"
  by (simp add: midnight_def fmt_ts_def ts_ord_day_start)
     (simp add: day_start_def fmt_time_def pad2_def asc_def)

lemma plain_midnight: "plain_day n \<Longrightarrow> plain_time (day_start n)"
  by (simp add: plain_day_def plain_time_def ts_ord_day_start)

lemma plain_next_day:
  assumes "plain_day n" "n < MAX_ORDINAL"
  shows "plain_day (n + 1)"
proof -
  have "year_of MAX_ORDINAL = 9999" by code_simp
  moreover have "year_of (n + 1) \<le> year_of MAX_ORDINAL" "year_of n \<le> year_of (n + 1)"
    using assms(2) by (auto intro: year_of_mono)
  ultimately show ?thesis using assms(1) by (simp add: plain_day_def)
qed

text \<open>The two bounds of the query are the days asked for.\<close>

lemma from_bound: "plain_day n \<Longrightarrow> plain_time s \<Longrightarrow> midnight n \<le> fmt_ts s \<longleftrightarrow> n \<le> ts_ord s"
  by (simp add: midnight_ts times.shown_le_iff plain_midnight day_start_le)

lemma to_bound: "plain_day n \<Longrightarrow> n < MAX_ORDINAL \<Longrightarrow> plain_time s \<Longrightarrow> fmt_ts s < midnight (n + 1) \<longleftrightarrow> ts_ord s \<le> n"
  using day_start_le [of "n + 1" s] by (auto simp: midnight_ts times.shown_less_iff plain_midnight plain_next_day)

lemma fmt_date_not_blank: "strip (fmt_date n) \<noteq> []"
proof -
  have "45 \<in> set (fmt_date n)" by (cases "ord_ymd n") (simp add: fmt_date_def)
  moreover have "\<not> is_space 45" by (simp add: is_space_def)
  ultimately show ?thesis by (metis strip_eq_Nil_iff list_all_iff)
qed

lemma parse_from:
  "list_all plain_day (case a of None \<Rightarrow> [] | Some n \<Rightarrow> [n]) \<Longrightarrow>
   parse_date_start (map_option fmt_date a) = Inr (map_option midnight a)"
  by (auto simp: parse_date_start_def fmt_date_not_blank strptime_fmt_date split: option.splits)

lemma parse_to:
  "list_all (\<lambda>n. plain_day n \<and> n < MAX_ORDINAL) (case b of None \<Rightarrow> [] | Some n \<Rightarrow> [n]) \<Longrightarrow>
   parse_date_end_exclusive (map_option fmt_date b) = Inr (map_option (\<lambda>n. midnight (n + 1)) b)"
  by (auto simp: parse_date_end_exclusive_def fmt_date_not_blank strptime_fmt_date split: option.splits)

lemma day_start_less: "day_start m < day_start n \<longleftrightarrow> m < n"
  by (simp add: day_start_def)

lemma midnight_order: "plain_day m \<Longrightarrow> plain_day n \<Longrightarrow> n < MAX_ORDINAL \<Longrightarrow> m \<le> n \<Longrightarrow> midnight m < midnight (n + 1)"
  by (simp add: midnight_ts times.shown_less_iff plain_midnight plain_next_day day_start_less)

lemma newest_first:
  assumes stamps: "\<And>q. q \<in> set W \<Longrightarrow> plain_time (time_of q) \<and> rq_created_at q = fmt_ts (time_of q)"
    and ids: "distinct (map rq_id W)"
  shows "sorted_wrt (\<lambda>p q. (time_of q, rq_id q) < (time_of p, rq_id p)) (rev (sort_key (\<lambda>q. (rq_created_at q, rq_id q)) W))"
proof -
  let ?f = "\<lambda>q. (rq_created_at q, rq_id q)"
  let ?S = "sort_key ?f W"
  have "distinct (map rq_id ?S)" using ids by (simp add: distinct_map)
  then have "distinct (map ?f ?S)" by (auto simp: distinct_map inj_on_def)
  then have "sorted_wrt (<) (map ?f ?S)" by (simp add: strict_sorted_iff)
  then have "sorted_wrt (\<lambda>p q. ?f p < ?f q) ?S" by (simp add: sorted_wrt_map)
  then have "sorted_wrt (\<lambda>p q. (time_of p, rq_id p) < (time_of q, rq_id q)) ?S"
  proof (rule sorted_wrt_mono_rel [rotated])
    fix p q assume "p \<in> set ?S" "q \<in> set ?S" and less: "?f p < ?f q"
    then show "(time_of p, rq_id p) < (time_of q, rq_id q)"
      using stamps [of p] stamps [of q]
      by (auto simp: less_prod_def' times.shown_less_iff times.shown_eq_iff)
  qed
  then show ?thesis by (simp add: sorted_wrt_rev)
qed

text \<open>The last day of the calendar has no day after it.\<close>

lemma last_day_overflows: "parse_date_end_exclusive (Some (asc ''9999-12-31'')) = Inl OverflowErr"
  by code_simp

section \<open>Properties\<close>

text \<open>What a filter of days and of a type asks for.\<close>

definition asked_for :: "pystr \<Rightarrow> int option \<Rightarrow> int option \<Rightarrow> (raw_query \<Rightarrow> int) \<Rightarrow> raw_query \<Rightarrow> bool" where
  "asked_for t a b time_of q \<longleftrightarrow>
     (t = asc ''all'' \<or> rq_event_type q = t) \<and>
     (case a of None \<Rightarrow> True | Some n \<Rightarrow> n \<le> ts_ord (time_of q)) \<and>
     (case b of None \<Rightarrow> True | Some n \<Rightarrow> ts_ord (time_of q) \<le> n)"

text \<open>
  C34. The export of the days from \<open>a\<close> to \<open>b\<close>, each of them included and each of them optional: the file
  read back holds the header and the logs of exactly those days and of the type asked for, newest first
  and within the limit.
\<close>

theorem raw_export_exact:
  assumes type: "ec_event_type command \<in> {asc ''all'', EVENT_TYPE_SEARCH, EVENT_TYPE_LAND_CLICK}"
    and dates: "ec_date_from command = map_option fmt_date a" "ec_date_to command = map_option fmt_date b"
      "\<forall>n. a = Some n \<longrightarrow> plain_day n" "\<forall>n. b = Some n \<longrightarrow> plain_day n \<and> n < MAX_ORDINAL"
      "\<forall>m n. a = Some m \<and> b = Some n \<longrightarrow> m \<le> n"
    and limit: "ec_max_rows command < 2 ^ 63" "n = max 1 (min (ec_limit command) (ec_max_rows command))"
    and rows: "list_all (\<lambda>q. plain_time (time_of q) \<and> rq_created_at q = fmt_ts (time_of q)) (rq_rows d)" "distinct (map rq_id (rq_rows d))"
  shows "\<exists>res L. export_raw_query_csv False command d = Inr res \<and>
    parse_csv (csv_text res) = Some (csv_header # map csv_row (take (nat n) L)) \<and>
    mset L = filter_mset (asked_for (ec_event_type command) a b time_of) (mset (rq_rows d)) \<and>
    sorted_wrt (\<lambda>p q. (time_of q, rq_id q) < (time_of p, rq_id p)) L \<and>
    export_row_count res = int (length (take (nat n) L)) \<and> export_effective_limit res = n"
proof -
  define wanted where "wanted = filter (asked_for (ec_event_type command) a b time_of) (rq_rows d)"
  define L where "L = rev (sort_key (\<lambda>q. (rq_created_at q, rq_id q)) wanted)"
  define v where "v = \<lparr>event_type_filter = (if ec_event_type command = asc ''all'' then None else Some (ec_event_type command)),
     effective_limit = n, created_at_from = map_option midnight a, created_at_to = map_option (\<lambda>n. midnight (n + 1)) b\<rparr>"
  have stamps: "plain_time (time_of q) \<and> rq_created_at q = fmt_ts (time_of q)" if "q \<in> set (rq_rows d)" for q
    using rows(1) that by (simp add: list_all_iff)
  have from_ok: "parse_date_start (ec_date_from command) = Inr (map_option midnight a)"
    unfolding dates(1) by (rule parse_from) (use dates(3) in \<open>auto split: option.splits\<close>)
  have to_ok: "parse_date_end_exclusive (ec_date_to command) = Inr (map_option (\<lambda>n. midnight (n + 1)) b)"
    unfolding dates(2) by (rule parse_to) (use dates(4) in \<open>auto split: option.splits\<close>)
  have order: "\<not> (case (map_option midnight a, map_option (\<lambda>n. midnight (n + 1)) b) of
      (Some a, Some b) \<Rightarrow> b \<le> a | _ \<Rightarrow> False)"
    using dates(3-5) by (auto simp: midnight_order not_le split: option.splits)
  have val: "validate_raw_query_export_command command = Inr v"
    using type order unfolding validate_raw_query_export_command_def from_ok to_ok v_def limit(2) by (auto simp: Let_def)
  have "filter (\<lambda>q. (case event_type_filter v of None \<Rightarrow> True | Some t \<Rightarrow> rq_event_type q = t) \<and>
      (case created_at_from v of None \<Rightarrow> True | Some a \<Rightarrow> a \<le> rq_created_at q) \<and>
      (case created_at_to v of None \<Rightarrow> True | Some b \<Rightarrow> rq_created_at q < b)) (rq_rows d) = wanted"
    unfolding wanted_def v_def using dates(3,4)
    by (intro filter_cong) (auto simp: stamps from_bound to_bound asked_for_def split: option.splits)
  then have "fetch_raw_query_export_rows False v d = Inr (take (nat n) L)"
    using limit by (simp add: fetch_raw_query_export_rows_def fetch_raw_query_logs_def L_def sql_limit_def v_def max_def min_def)
  then have "export_raw_query_csv False command d = Inr (render_raw_query_csv (take (nat n) L) n)"
    by (simp add: export_raw_query_csv_def val v_def)
  moreover have "mset L = filter_mset (asked_for (ec_event_type command) a b time_of) (mset (rq_rows d))"
    by (simp add: L_def wanted_def)
  moreover have "sorted_wrt (\<lambda>p q. (time_of q, rq_id q) < (time_of p, rq_id p)) L"
    unfolding L_def by (rule newest_first) (use stamps rows(2) in \<open>auto simp: wanted_def distinct_map_filter\<close>)
  ultimately show ?thesis using parse_rendered [of "take (nat n) L" n]
    by (intro exI [of _ "render_raw_query_csv (take (nat n) L) n"] exI [of _ L]) (simp add: render_raw_query_csv_def)
qed

text \<open>
  C35. Whatever the tables hold and whatever is asked, a file that is exported reads back, cell by cell, as a header and
  the logs it was made of, at most as many as the limit in force: the identifier, then each text as it is stored, but for those
  that begin with =, +, -, @, a tab or |, which a spreadsheet may take for a formula and which have an apostrophe in front. No
  cell of text begins with one of these.
\<close>

theorem raw_export_roundtrip:
  assumes "export_raw_query_csv interrupted command d = Inr res"
  shows "\<exists>rows.
    parse_csv (csv_text res) = Some (
      map asc [''id'', ''created_at'', ''event_type'', ''anon_id'', ''raw_region_query'', ''raw_min_area_input'',
        ''raw_max_area_input'', ''raw_rent_only_input'', ''raw_land_id_input'', ''raw_land_address_input'',
        ''raw_click_source_input'', ''raw_payload_json''] #
      map (\<lambda>q. str_of_int (rq_id q) # map guarded_text
        [Some (rq_created_at q), Some (rq_event_type q), rq_anon_id q, raw_region_query q, raw_min_area_input q,
         raw_max_area_input q, raw_rent_only_input q, raw_land_id_input q, raw_land_address_input q,
         raw_click_source_input q, Some (raw_payload_json q)]) rows) \<and>
    set rows \<subseteq> set (rq_rows d) \<and>
    export_row_count res = int (length rows) \<and> export_row_count res \<le> export_effective_limit res \<and>
    export_effective_limit res = max 1 (min (ec_limit command) (ec_max_rows command)) \<and>
    (\<forall>cells \<in> set (tl (the (parse_csv (csv_text res)))).
       \<forall>cell \<in> set (tl cells). cell = [] \<or> hd cell \<notin> {61, 43, 45, 64, 9, 124})"
proof -
  obtain v rows where v: "validate_raw_query_export_command command = Inr v"
    and rows: "fetch_raw_query_export_rows interrupted v d = Inr rows"
    and res: "res = render_raw_query_csv rows (effective_limit v)"
    using assms by (auto simp: export_raw_query_csv_def bindR_Inr_iff)
  have n: "effective_limit v = max 1 (min (ec_limit command) (ec_max_rows command))"
    using v by (auto simp: validate_raw_query_export_command_def bindR_Inr_iff split: if_splits)
  obtain W where W: "set W \<subseteq> set (rq_rows d)" and take: "rows = take (nat (effective_limit v)) W"
    using rows n by (auto simp: fetch_raw_query_export_rows_def fetch_raw_query_logs_def sql_limit_def split: if_splits)
       (metis (no_types, lifting) filter_is_subset set_rev set_sort)
  have "set rows \<subseteq> set (rq_rows d)" "int (length rows) \<le> effective_limit v"
    using W n unfolding take by (auto dest: in_set_takeD)
  moreover have parsed: "parse_csv (csv_text res) = Some (csv_header # map (\<lambda>q. str_of_int (rq_id q) # map guarded_text (text_columns q)) rows)"
    using parse_rendered [of rows "effective_limit v"] unfolding res csv_row_def safe_csv_string_guarded .
  moreover have "\<forall>cells \<in> set (tl (the (parse_csv (csv_text res)))). \<forall>cell \<in> set (tl cells). cell = [] \<or> hd cell \<notin> {61, 43, 45, 64, 9, 124}"
  proof (intro ballI)
    fix cells cell assume "cells \<in> set (tl (the (parse_csv (csv_text res))))" "cell \<in> set (tl cells)"
    then obtain v where "cell = guarded_text v" by (auto simp: parsed)
    then show "cell = [] \<or> hd cell \<notin> {61, 43, 45, 64, 9, 124}" using guarded_text_safe by blast
  qed
  moreover have "export_row_count res = int (length rows)" "export_effective_limit res = effective_limit v"
    by (simp_all add: res render_raw_query_csv_def)
  moreover have "csv_header = map asc [''id'', ''created_at'', ''event_type'', ''anon_id'', ''raw_region_query'', ''raw_min_area_input'',
        ''raw_max_area_input'', ''raw_rent_only_input'', ''raw_land_id_input'', ''raw_land_address_input'',
        ''raw_click_source_input'', ''raw_payload_json'']" by (simp add: csv_header_def)
  ultimately show ?thesis
    using n unfolding text_columns_def by (intro exI [of _ rows] conjI) simp_all
qed

section \<open>Witnesses\<close>

text \<open>Three logs of three days, at noon; the second one begins like a formula and holds a quote.\<close>

definition sample_log :: "int \<Rightarrow> pystr \<Rightarrow> raw_query" where
  "sample_log i region =
     \<lparr>rq_id = i, rq_created_at = fmt_ts (1704110400 + 86400 * i), rq_event_type = EVENT_TYPE_SEARCH, rq_anon_id = None,
      raw_region_query = Some region, raw_min_area_input = None, raw_max_area_input = None,
      raw_rent_only_input = None, raw_land_id_input = None, raw_land_address_input = None,
      raw_click_source_input = None, raw_payload_json = asc ''{}''\<rparr>"

definition sample_logs :: event_db where
  "sample_logs =
     empty_event_db\<lparr>rq_rows := [sample_log 1 (asc ''a''), sample_log 2 [61, 34, 44], sample_log 3 (asc ''c'')], rq_seq := 3\<rparr>"

definition sample_export :: RawQueryExportCommand where
  "sample_export =
     \<lparr>ec_event_type = asc ''search'', ec_date_from = Some (asc ''2024-01-02''), ec_date_to = Some (asc ''2024-01-03''),
      ec_limit = 10, ec_max_rows = 100000\<rparr>"

lemma mset_pair: "mset L = {#a, b#} \<Longrightarrow> L = [a, b] \<or> L = [b, a]"
  by (cases L; cases "tl L"; auto simp: add_eq_conv_ex)

lemma sample_days: "fmt_date 738887 = asc ''2024-01-02''" "fmt_date 738888 = asc ''2024-01-03''"
  "plain_day 738887" "plain_day 738888"
  by code_simp+

theorem raw_export_exact_witness:
  "\<exists>res. export_raw_query_csv False sample_export sample_logs = Inr res \<and>
    parse_csv (csv_text res) = Some [csv_header, csv_row (sample_log 2 [61, 34, 44]), csv_row (sample_log 1 (asc ''a''))]"
proof -
  let ?t = "\<lambda>q. 1704110400 + 86400 * rq_id q"
  have plain: "list_all (\<lambda>q. plain_time (?t q) \<and> rq_created_at q = fmt_ts (?t q)) (rq_rows sample_logs)" by code_simp
  have "\<exists>res L. export_raw_query_csv False sample_export sample_logs = Inr res \<and>
    parse_csv (csv_text res) = Some (csv_header # map csv_row (take (nat 10) L)) \<and>
    mset L = filter_mset (asked_for (ec_event_type sample_export) (Some 738887) (Some 738888) ?t) (mset (rq_rows sample_logs)) \<and>
    sorted_wrt (\<lambda>p q. (?t q, rq_id q) < (?t p, rq_id p)) L \<and>
    export_row_count res = int (length (take (nat 10) L)) \<and> export_effective_limit res = 10"
    by (rule raw_export_exact)
       (use plain in \<open>simp_all add: sample_export_def sample_days MAX_ORDINAL_def sample_logs_def sample_log_def EVENT_TYPE_SEARCH_def\<close>)
  then obtain res L where res: "export_raw_query_csv False sample_export sample_logs = Inr res"
    "parse_csv (csv_text res) = Some (csv_header # map csv_row (take (nat 10) L))"
    and L: "mset L = filter_mset (asked_for (ec_event_type sample_export) (Some 738887) (Some 738888) ?t) (mset (rq_rows sample_logs))"
    and srt: "sorted_wrt (\<lambda>p q. (?t q, rq_id q) < (?t p, rq_id p)) L" by blast
  let ?a = "sample_log 1 (asc ''a'')" and ?b = "sample_log 2 [61, 34, 44]"
  have "asked_for (ec_event_type sample_export) (Some 738887) (Some 738888) ?t (sample_log i s) \<longleftrightarrow> i = 1 \<or> i = 2"
    if "i \<in> {1, 2, 3}" for i s
    using that by (auto simp: asked_for_def sample_export_def sample_log_def EVENT_TYPE_SEARCH_def ts_ord_def EPOCH_ORD_def)
  with L have "mset L = {#?a, ?b#}" by (simp add: sample_logs_def)
  then have "L \<in> {[?a, ?b], [?b, ?a]}" using mset_pair by simp
  with srt have "L = [?b, ?a]" by (auto simp: sample_log_def)
  with res show ?thesis by simp
qed

theorem raw_export_roundtrip_witness:
  "\<exists>res. export_raw_query_csv False sample_export sample_logs = Inr res \<and> export_row_count res = 2 \<and>
    (\<forall>cells \<in> set (tl (the (parse_csv (csv_text res)))).
       \<forall>cell \<in> set (tl cells). cell = [] \<or> hd cell \<notin> {61, 43, 45, 64, 9, 124})"
proof -
  have "map_sum id (\<lambda>r. export_row_count r) (export_raw_query_csv False sample_export sample_logs) = Inr 2" by code_simp
  then obtain res where res: "export_raw_query_csv False sample_export sample_logs = Inr res" "export_row_count res = 2"
    by (cases "export_raw_query_csv False sample_export sample_logs") auto
  with raw_export_roundtrip [OF res(1)] show ?thesis by blast
qed

end
