(* ===== verification/Env_File.thy ===== *)
theory Env_File
  imports Config Files
begin

text \<open>
  The .env file under \<open>update_env_file\<close> of \<open>app/services/admin_settings_service.py\<close>: the lines it keeps,
  the assignments it replaces in place and those it appends, and what the loader of \<open>app/core/config.py\<close>
  reads back from the result.
\<close>

section \<open>Writing\<close>

definition format_env_value :: "pystr \<Rightarrow> pystr" where
  "format_env_value v = (if 32 \<in> set v \<or> 35 \<in> set v then 34 # v @ [34] else v)"

definition env_line :: "pystr \<Rightarrow> pystr \<Rightarrow> pystr" where
  "env_line key v = key @ 61 # format_env_value v"

text \<open>The loop over the old lines; \<open>remaining\<close> is the dictionary of the updates still to be placed.\<close>

fun rewrite_lines :: "pystr list \<Rightarrow> (pystr \<times> pystr) list \<Rightarrow> pystr list \<times> (pystr \<times> pystr) list" where
  "rewrite_lines [] remaining = ([], remaining)"
| "rewrite_lines (line # lines) remaining =
     (let stripped = strip line; key = fst (split_eq stripped) in
      case (if is_assignment stripped then map_of remaining key else None) of
        None \<Rightarrow> (let (ls, rest) = rewrite_lines lines remaining in (line # ls, rest))
      | Some v \<Rightarrow> (let (ls, rest) = rewrite_lines lines (AList.delete key remaining) in (env_line key v # ls, rest)))"

definition updated_lines :: "pystr list \<Rightarrow> (pystr \<times> pystr) list \<Rightarrow> pystr list" where
  "updated_lines lines updates =
     (let (ls, rest) = rewrite_lines lines updates in ls @ map (\<lambda>(k, v). env_line k v) rest)"

definition env_path :: "pystr \<Rightarrow> pystr" where
  "env_path basedir = path_join basedir (asc ''.env'')"

definition update_env_file :: "pystr \<Rightarrow> (pystr \<times> pystr) list \<Rightarrow> file_store \<Rightarrow> unit result \<times> file_store" where
  "update_env_file basedir updates fs =
     (case read_text (env_path basedir) fs of
        Inl e \<Rightarrow> (Inl e, fs)
      | Inr old \<Rightarrow>
          let lines = (case old of None \<Rightarrow> [] | Some s \<Rightarrow> splitlines s)
          in write_text (env_path basedir) (join [10] (updated_lines lines updates) @ [10]) fs)"

section \<open>Reading back\<close>

text \<open>The assignment a line makes under the loader.\<close>

definition line_binding :: "pystr \<Rightarrow> (pystr \<times> pystr) option" where
  "line_binding raw =
     (let line = strip raw in
      if \<not> is_assignment line then None
      else let (key, v) = split_eq line in Some (strip key, strip_chars [39] (strip_chars [34] (strip v))))"

definition bindings :: "pystr list \<Rightarrow> (pystr \<times> pystr) list" where
  "bindings lines = List.map_filter line_binding lines"

text \<open>The first assignment of a name wins, and a name the environment has keeps its value.\<close>

lemma load_env_lines:
  "fold load_env_line lines e k = (case e k of Some v \<Rightarrow> Some v | None \<Rightarrow> map_of (bindings lines) k)"
proof (induction lines arbitrary: e)
  case (Cons l ls)
  then show ?case
    by (auto simp: load_env_line_def bindings_def line_binding_def env_setdefault_def map_filter_simps Let_def
        split: prod.splits option.splits)
qed (simp add: bindings_def map_filter_simps split: option.splits)

text \<open>Texts that survive a line of their own.\<close>

definition plain_key :: "pystr \<Rightarrow> bool" where
  "plain_key k \<longleftrightarrow> k \<noteq> [] \<and> strip k = k \<and> hd k \<noteq> 35 \<and> 61 \<notin> set k \<and> list_all (\<lambda>c. \<not> is_line_break c) k"

definition plain_value :: "pystr \<Rightarrow> bool" where
  "plain_value v \<longleftrightarrow> strip v = v \<and> list_all (\<lambda>c. \<not> is_line_break c) v \<and>
     (v = [] \<or> hd v \<notin> {34, 39} \<and> last v \<notin> {34, 39})"

lemma lstrip_chars_id: "t = [] \<or> hd t \<notin> set cs \<Longrightarrow> lstrip_chars cs t = t"
  by (cases t) (auto simp: lstrip_chars_def)

lemma strip_chars_id: "s = [] \<or> hd s \<notin> set cs \<and> last s \<notin> set cs \<Longrightarrow> strip_chars cs s = s"
  using lstrip_chars_id [of s cs] lstrip_chars_id [of "rev s" cs] by (auto simp: strip_chars_def hd_rev)

lemma strip_ends:
  assumes "strip s \<noteq> []"
  shows "\<not> is_space (hd (strip s)) \<and> \<not> is_space (last (strip s))"
proof -
  let ?t = "dropWhile is_space s"
  have st: "strip s = rev (dropWhile is_space (rev ?t))" by (simp add: strip_def)
  have "?t = strip s @ rev (takeWhile is_space (rev ?t))"
    unfolding st rev_append [symmetric] by simp
  then have "hd ?t = hd (strip s)" using assms by (metis hd_append)
  moreover have "?t \<noteq> []" using assms unfolding st by (metis dropWhile.simps(1) rev.simps(1))
  ultimately have "\<not> is_space (hd (strip s))" by (metis hd_dropWhile)
  have "last (strip s) = hd (dropWhile is_space (rev ?t))" using assms by (simp add: st last_rev)
  then have "\<not> is_space (last (strip s))" using assms unfolding st by (metis hd_dropWhile rev_is_Nil_conv)
  with \<open>\<not> is_space (hd (strip s))\<close> show ?thesis by simp
qed

lemma format_env_value_ends:
  "plain_value v \<Longrightarrow> format_env_value v = [] \<and> v = [] \<or>
   format_env_value v \<noteq> [] \<and> \<not> is_space (hd (format_env_value v)) \<and> \<not> is_space (last (format_env_value v))"
  using strip_ends [of v] by (auto simp: format_env_value_def plain_value_def is_space_def)

lemma unquote_format:
  assumes "plain_value v"
  shows "strip_chars [39] (strip_chars [34] (format_env_value v)) = v"
proof (cases "32 \<in> set v \<or> 35 \<in> set v")
  case True
  then have ne: "v \<noteq> []" by auto
  have v: "hd v \<notin> {34, 39}" "last v \<notin> {34, 39}" using assms ne by (auto simp: plain_value_def)
  have "lstrip_chars [34] (34 # v @ [34]) = v @ [34]"
    using ne v by (cases v) (auto simp: lstrip_chars_def)
  moreover have "lstrip_chars [34] (34 # rev v) = rev v"
    using ne v by (cases "rev v") (auto simp: lstrip_chars_def hd_rev [symmetric])
  ultimately have "strip_chars [34] (34 # v @ [34]) = v" by (simp add: strip_chars_def)
  with True v show ?thesis by (simp add: format_env_value_def strip_chars_id)
next
  case False
  then show ?thesis using assms by (auto simp: format_env_value_def plain_value_def strip_chars_id)
qed

lemma line_binding_env_line:
  assumes k: "plain_key k" and v: "plain_value v"
  shows "line_binding (env_line k v) = Some (k, v)"
proof -
  have ends: "\<not> is_space (hd k)" and k': "k \<noteq> []" "hd k \<noteq> 35" "61 \<notin> set k" "strip k = k"
    using k strip_ends [of k] by (auto simp: plain_key_def)
  have "\<not> is_space (last (env_line k v))"
    using format_env_value_ends [OF v] by (auto simp: env_line_def is_space_def)
  then have line: "strip (env_line k v) = env_line k v"
    using ends k' by (intro strip_id) (auto simp: env_line_def hd_append)
  have "is_assignment (env_line k v)"
    using k' by (cases k) (auto simp: is_assignment_def env_line_def startswith_def)
  moreover have "split_eq (env_line k v) = (k, format_env_value v)"
  proof -
    have "takeWhile (\<lambda>c. c \<noteq> 61) (k @ 61 # x) = k" "dropWhile (\<lambda>c. c \<noteq> 61) (k @ 61 # x) = 61 # x" for x
      using k'(3) by (induction k) auto
    then show ?thesis by (simp add: split_eq_def env_line_def)
  qed
  moreover have "strip (format_env_value v) = format_env_value v"
    using format_env_value_ends [OF v] by (intro strip_id) auto
  ultimately show ?thesis by (simp add: line_binding_def line k' unquote_format [OF v])
qed

text \<open>An old line that assigns an updated name spells the name as the update does, without a blank.\<close>

definition tidy :: "pystr set \<Rightarrow> pystr \<Rightarrow> bool" where
  "tidy K line \<longleftrightarrow>
     (is_assignment (strip line) \<and> strip (fst (split_eq (strip line))) \<in> K \<longrightarrow>
      strip (fst (split_eq (strip line))) = fst (split_eq (strip line)))"

lemma line_binding_key:
  "line_binding line = (if is_assignment (strip line)
     then Some (strip (fst (split_eq (strip line))), strip_chars [39] (strip_chars [34] (strip (snd (split_eq (strip line))))))
     else None)"
  by (simp add: line_binding_def Let_def split_beta)

lemma bindings_Cons: "bindings (l # ls) = (case line_binding l of None \<Rightarrow> bindings ls | Some b \<Rightarrow> b # bindings ls)"
  by (simp add: bindings_def map_filter_simps split: option.splits)

lemma bindings_append: "bindings (ls @ ms) = bindings ls @ bindings ms"
  by (simp add: bindings_def map_filter_def)

lemma bindings_env_lines:
  "list_all (\<lambda>(k, v). plain_key k \<and> plain_value v) us \<Longrightarrow> bindings (map (\<lambda>(k, v). env_line k v) us) = us"
  by (induction us) (auto simp: bindings_Cons line_binding_env_line, simp add: bindings_def map_filter_simps)

text \<open>
  The rewritten lines assign every updated name its new value and every other name what the old lines
  gave it.
\<close>

definition overridden :: "(pystr \<times> pystr) list \<Rightarrow> (pystr \<rightharpoonup> pystr) \<Rightarrow> pystr \<rightharpoonup> pystr" where
  "overridden us m = (\<lambda>k. case map_of us k of Some v \<Rightarrow> Some v | None \<Rightarrow> m k)"

definition plain_updates :: "(pystr \<times> pystr) list \<Rightarrow> bool" where
  "plain_updates us \<longleftrightarrow> distinct (map fst us) \<and> list_all (\<lambda>(k, v). plain_key k \<and> plain_value v) us"

lemma plain_updates_delete: "plain_updates us \<Longrightarrow> plain_updates (AList.delete k us)"
  unfolding plain_updates_def by (auto simp: list_all_iff AList.delete_eq filter_id_conv distinct_map_filter)

text \<open>A line that is kept assigns none of the updated names.\<close>

lemma kept_line:
  assumes "tidy (set (map fst us)) line" "(if is_assignment (strip line) then map_of us (fst (split_eq (strip line))) else None) = None"
    and "line_binding line = Some b"
  shows "map_of us (fst b) = None"
proof (rule ccontr)
  let ?key = "fst (split_eq (strip line))"
  from assms(3) have b: "fst b = strip ?key" "is_assignment (strip line)" by (auto simp: line_binding_key split: if_splits)
  assume some: "map_of us (fst b) \<noteq> None"
  then have "fst b \<in> set (map fst us)" by (simp add: map_of_eq_None_iff)
  then have "strip ?key = ?key" using assms(1) b by (simp add: tidy_def)
  with assms(2) b some show False by simp
qed

lemma rewrite_lines_bindings:
  assumes "plain_updates us" "list_all (tidy (set (map fst us))) lines" "rewrite_lines lines us = (ls, rest)"
  shows "map_of (bindings (ls @ map (\<lambda>(k, v). env_line k v) rest)) = overridden us (map_of (bindings lines))"
  using assms
proof (induction lines arbitrary: us ls rest)
  case Nil
  then have "bindings (ls @ map (\<lambda>(k, v). env_line k v) rest) = us"
    using bindings_env_lines [of us] by (simp add: plain_updates_def)
  then show ?case
    by (auto simp: overridden_def bindings_def map_filter_simps fun_eq_iff split: option.splits)
next
  case (Cons line lines)
  let ?key = "fst (split_eq (strip line))"
  show ?case
  proof (cases "if is_assignment (strip line) then map_of us ?key else None")
    case None
    obtain ls' where rw: "rewrite_lines lines us = (ls', rest)" and ls: "ls = line # ls'"
      using None Cons.prems(3) by (auto simp: Let_def split: prod.splits)
    have IH: "map_of (bindings (ls' @ map (\<lambda>(k, v). env_line k v) rest)) = overridden us (map_of (bindings lines))"
      using Cons.IH [OF Cons.prems(1) _ rw] Cons.prems(2) by simp
    show ?thesis
    proof (cases "line_binding line")
      case (Some b)
      have "map_of us (fst b) = None" by (rule kept_line [OF _ None Some]) (use Cons.prems(2) in simp)
      with IH Some show ?thesis by (auto simp: ls bindings_Cons overridden_def fun_eq_iff)
    qed (use IH in \<open>simp add: ls bindings_Cons\<close>)
  next
    case (Some v)
    then have a: "is_assignment (strip line)" and v: "map_of us ?key = Some v" by (auto split: if_splits)
    obtain ls' where rw: "rewrite_lines lines (AList.delete ?key us) = (ls', rest)" and ls: "ls = env_line ?key v # ls'"
      using a v Cons.prems(3) by (auto simp: Let_def split: prod.splits)
    have pl: "plain_key ?key" "plain_value v"
      using Cons.prems(1) map_of_SomeD [OF v] by (auto simp: plain_updates_def list_all_iff)
    have "list_all (tidy (set (map fst (AList.delete ?key us)))) lines"
      using Cons.prems(2) set_map by (auto simp: list_all_iff tidy_def AList.delete_eq)
    from Cons.IH [OF plain_updates_delete [OF Cons.prems(1)] this rw]
    have IH: "map_of (bindings (ls' @ map (\<lambda>(k, v). env_line k v) rest)) =
        overridden (AList.delete ?key us) (map_of (bindings lines))" .
    have "strip ?key = ?key" using pl(1) by (simp add: plain_key_def)
    then obtain w where "line_binding line = Some (?key, w)" using a by (simp add: line_binding_key)
    with IH v show ?thesis
      by (auto simp: ls bindings_Cons line_binding_env_line pl overridden_def fun_eq_iff AList.delete_conv split: option.splits)
  qed
qed

section \<open>Lines of a text\<close>

abbreviation one_line :: "pystr \<Rightarrow> bool" where
  "one_line l \<equiv> list_all (\<lambda>c. \<not> is_line_break c) l"

lemma line_breaks: "is_line_break 10" "is_line_break 13"
  by (simp_all add: is_line_break_def)

lemma splitlines_line: "one_line l \<Longrightarrow> splitlines_acc acc (l @ 10 # rest) = (rev acc @ l) # splitlines_acc [] rest"
proof (induction l arbitrary: acc)
  case Nil
  then show ?case by (cases rest) (simp_all add: line_breaks)
next
  case (Cons c l)
  then have "c \<noteq> 13" "\<not> is_line_break c" using line_breaks by auto
  moreover obtain d s where "l @ 10 # rest = d # s" by (cases "l @ 10 # rest") auto
  ultimately show ?case using Cons by simp
qed

lemma join_lines: "ls \<noteq> [] \<Longrightarrow> join [10] ls @ [10] = concat (map (\<lambda>l. l @ [10]) ls)"
  by (induction "[10] :: pystr" ls rule: join.induct) simp_all

lemma splitlines_join: "list_all one_line ls \<Longrightarrow> ls \<noteq> [] \<Longrightarrow> splitlines (join [10] ls @ [10]) = ls"
proof -
  have "list_all one_line ls \<Longrightarrow> splitlines_acc [] (concat (map (\<lambda>l. l @ [10]) ls)) = ls"
    by (induction ls) (simp_all add: splitlines_line)
  then show "list_all one_line ls \<Longrightarrow> ls \<noteq> [] \<Longrightarrow> ?thesis" by (simp add: splitlines_def join_lines)
qed

lemma splitlines_one_line: "list_all one_line (splitlines s)"
proof -
  have "one_line acc \<Longrightarrow> list_all one_line (splitlines_acc acc s)" for acc
    by (induction acc s rule: splitlines_acc.induct) auto
  then show ?thesis by (simp add: splitlines_def)
qed

lemma splitlines_chars: "l \<in> set (splitlines s) \<Longrightarrow> set l \<subseteq> set s"
proof -
  have "l \<in> set (splitlines_acc acc s) \<Longrightarrow> set l \<subseteq> set acc \<union> set s" for acc
    by (induction acc s rule: splitlines_acc.induct) (auto split: if_splits)
  then show "l \<in> set (splitlines s) \<Longrightarrow> ?thesis" by (fastforce simp: splitlines_def)
qed

lemma env_line_one_line: "plain_key k \<Longrightarrow> plain_value v \<Longrightarrow> one_line (env_line k v)"
  by (auto simp: plain_key_def plain_value_def env_line_def format_env_value_def is_line_break_def)

lemma rewrite_lines_cases:
  "\<forall>l \<in> set (fst (rewrite_lines lines us)). l \<in> set lines \<or> (\<exists>(k, v) \<in> set us. l = env_line k v)"
  "set (snd (rewrite_lines lines us)) \<subseteq> set us"
proof -
  have "(\<forall>l \<in> set (fst (rewrite_lines lines us)). l \<in> set lines \<or> (\<exists>(k, v) \<in> set us. l = env_line k v)) \<and>
    set (snd (rewrite_lines lines us)) \<subseteq> set us"
  proof (induction lines us rule: rewrite_lines.induct)
    case (2 line lines us)
    let ?key = "fst (split_eq (strip line))"
    have sub: "set (AList.delete k us) \<subseteq> set us" for k by (auto simp: AList.delete_eq)
    show ?case
    proof (cases "if is_assignment (strip line) then map_of us ?key else None")
      case None
      with 2(1) [OF refl refl None] show ?thesis by (auto simp: Let_def split_beta)
    next
      case (Some v)
      then have "(?key, v) \<in> set us" by (auto dest: map_of_SomeD split: if_splits)
      with 2(2) [OF refl refl Some] Some sub [of ?key] show ?thesis by (fastforce simp: Let_def split_beta)
    qed
  qed simp
  then show "\<forall>l \<in> set (fst (rewrite_lines lines us)). l \<in> set lines \<or> (\<exists>(k, v) \<in> set us. l = env_line k v)"
    "set (snd (rewrite_lines lines us)) \<subseteq> set us" by simp_all
qed

lemma updated_lines_cases:
  "l \<in> set (updated_lines lines us) \<Longrightarrow> l \<in> set lines \<or> (\<exists>(k, v) \<in> set us. l = env_line k v)"
  using rewrite_lines_cases [of lines us] by (fastforce simp: updated_lines_def Let_def split_beta)

lemma updated_lines_one_line:
  "plain_updates us \<Longrightarrow> list_all one_line lines \<Longrightarrow> list_all one_line (updated_lines lines us)"
  using updated_lines_cases [of _ lines us] env_line_one_line
  unfolding plain_updates_def list_all_iff by fastforce

section \<open>The file\<close>

lemma decode_utf8_unicode: "decode_utf8 bs = Inr s \<Longrightarrow> unicode s"
proof (induction bs arbitrary: s rule: decode_utf8.induct)
  case (2 b bs)
  then show ?case
    by (auto simp: unicode_def Let_def bindR_Inr_iff split: option.splits if_splits)
qed (simp add: unicode_def)

lemma unicode_set: "unicode s \<longleftrightarrow> (\<forall>c \<in> set s. c < 1114112)"
  by (simp add: unicode_def list_all_iff)

definition env_lines :: "pystr option \<Rightarrow> pystr list" where
  "env_lines old = (case old of None \<Rightarrow> [] | Some s \<Rightarrow> splitlines s)"

lemma set_join: "set (join sep ls) \<subseteq> set sep \<union> \<Union> (set ` set ls)"
  by (induction sep ls rule: join.induct) auto

lemma updated_text_unicode:
  assumes "case old of None \<Rightarrow> True | Some s \<Rightarrow> unicode s" "list_all (\<lambda>(k, v). unicode k \<and> unicode v) us"
  shows "unicode (join [10] (updated_lines (env_lines old) us) @ [10])"
proof -
  have "c < 1114112" if "l \<in> set (updated_lines (env_lines old) us)" "c \<in> set l" for l c
  proof -
    have "unicode (env_line k v)" if "(k, v) \<in> set us" for k v
      using assms(2) that by (fastforce simp: list_all_iff unicode_set env_line_def format_env_value_def)
    moreover have "c < 1114112" if "l \<in> set (env_lines old)"
      using assms(1) that \<open>c \<in> set l\<close> splitlines_chars [of l]
      by (fastforce simp: env_lines_def unicode_set split: option.splits)
    ultimately show ?thesis
      using updated_lines_cases [OF that(1)] that(2) by (auto simp: unicode_set)
  qed
  then show ?thesis using set_join [of "[10]" "updated_lines (env_lines old) us"] by (fastforce simp: unicode_set)
qed

lemma bindings_updated_text:
  assumes "plain_updates us" "list_all (tidy (set (map fst us))) lines" "list_all one_line lines"
  shows "map_of (bindings (splitlines (join [10] (updated_lines lines us) @ [10]))) = overridden us (map_of (bindings lines))"
proof -
  have "map_of (bindings (updated_lines lines us)) = overridden us (map_of (bindings lines))"
    using rewrite_lines_bindings [OF assms(1,2)] by (simp add: updated_lines_def Let_def split_beta)
  moreover have "bindings (splitlines [10]) = []" by code_simp
  then have "bindings (splitlines (join [10] (updated_lines lines us) @ [10])) = bindings (updated_lines lines us)"
    using splitlines_join [OF updated_lines_one_line [OF assms(1,3)]]
    by (cases "updated_lines lines us = []") (simp_all add: bindings_def map_filter_simps)
  ultimately show ?thesis by simp
qed

lemma update_env_file_result:
  assumes "update_env_file basedir us fs = (Inr (), fs')"
  obtains old bs where "read_text (env_path basedir) fs = Inr old"
    and "encode_utf8 (join [10] (updated_lines (env_lines old) us) @ [10]) = Inr bs" and "fs' = fs(env_path basedir \<mapsto> bs)"
  using assms by (auto simp: update_env_file_def write_text_def env_lines_def Let_def split: sum.splits)

lemma update_env_file_spec:
  assumes upd: "update_env_file basedir us fs = (Inr (), fs')" and pl: "plain_updates us"
    and uni: "list_all (\<lambda>(k, v). unicode k \<and> unicode v) us"
    and old: "read_text (env_path basedir) fs = Inr old" and td: "list_all (tidy (set (map fst us))) (env_lines old)"
  shows "\<exists>new. read_text (env_path basedir) fs' = Inr (Some new) \<and>
    map_of (bindings (splitlines new)) = overridden us (map_of (bindings (env_lines old))) \<and>
    (\<forall>p. p \<noteq> env_path basedir \<longrightarrow> fs' p = fs p)"
proof -
  let ?new = "join [10] (updated_lines (env_lines old) us) @ [10]"
  obtain bs where bs: "encode_utf8 ?new = Inr bs" and fs': "fs' = fs(env_path basedir \<mapsto> bs)"
    using update_env_file_result [OF upd] old by (metis sum.inject(2))
  have "case old of None \<Rightarrow> True | Some s \<Rightarrow> unicode s"
    using old decode_utf8_unicode by (auto simp: read_text_def bindR_Inr_iff split: option.splits)
  then have "decode_utf8 bs = Inr ?new" using decode_encode_utf8 [OF bs] updated_text_unicode uni by blast
  moreover have "list_all one_line (env_lines old)" using splitlines_one_line by (simp add: env_lines_def split: option.splits)
  ultimately show ?thesis
    using bindings_updated_text [OF pl td] by (intro exI [of _ ?new]) (simp add: read_text_def fs')
qed

end
