(* ===== verification/Admin_Settings.thy ===== *)
theory Admin_Settings
  imports Env_File Runtime_Config Auth Vworld
begin

text \<open>
  \<open>app/services/admin_settings_service.py\<close> and the cached \<open>get_settings\<close> of \<open>app/core/config.py\<close>: the form
  of the settings page, its validation, and the two updates that write the .env file and the environment.
  \<open>bcrypt\<close> and the text of a float are parameters, as is \<open>load_dotenv\<close>.
\<close>

section \<open>The process\<close>

text \<open>What the updates change: the environment, the files, and the cache of \<open>get_settings\<close>.\<close>

record process =
  environ :: env
  stored :: file_store
  settings_cache :: "Settings option"

type_synonym dotenv = "pystr \<Rightarrow> env \<Rightarrow> env option"

definition get_settings :: "dotenv \<Rightarrow> pystr \<Rightarrow> process \<Rightarrow> Settings result \<times> process" where
  "get_settings load_dotenv basedir p =
     (case settings_cache p of
        Some s \<Rightarrow> (Inr s, p)
      | None \<Rightarrow>
          (case read_text (env_path basedir) (stored p) of
             Inl e \<Rightarrow> (Inl e, p)
           | Inr content \<Rightarrow>
               let e = load_dotenv_if_present load_dotenv content (environ p); p = p\<lparr>environ := e\<rparr>
               in case build_settings basedir e of
                    Inl ex \<Rightarrow> (Inl ex, p)
                  | Inr s \<Rightarrow> (Inr s, p\<lparr>settings_cache := Some s\<rparr>)))"

text \<open>\<open>os.environ[key] = value\<close>: a text with a null character cannot be put.\<close>

fun put_environ :: "(pystr \<times> pystr) list \<Rightarrow> env \<Rightarrow> unit result \<times> env" where
  "put_environ [] e = (Inr (), e)"
| "put_environ ((k, v) # us) e =
     (if 0 \<in> set v then (Inl (ValueErr None), e) else put_environ us (e(k \<mapsto> v)))"

section \<open>The fields\<close>

datatype field_kind = StrKind | IntKind | FloatKind | BoolKind | NetworkListKind

datatype setting_value = StrVal pystr | IntVal int | FloatVal pyfloat | BoolVal bool | NetsVal "net list"

record AdminSettingField =
  env_key :: pystr
  form_field :: pystr
  settings_attr :: "Settings \<Rightarrow> setting_value"
  kind :: field_kind

abbreviation "field" where "field k f a t \<equiv> \<lparr>env_key = asc k, form_field = asc f, settings_attr = a, kind = t\<rparr>"

definition ADMIN_SETTINGS_FIELDS :: "AdminSettingField list" where
  "ADMIN_SETTINGS_FIELDS =
     [field ''APP_NAME'' ''app_name'' (\<lambda>s. StrVal (app_name s)) StrKind,
      field ''VWORLD_WMTS_KEY'' ''vworld_wmts_key'' (\<lambda>s. StrVal (vworld_wmts_key s)) StrKind,
      field ''VWORLD_GEOCODER_KEY'' ''vworld_geocoder_key'' (\<lambda>s. StrVal (vworld_geocoder_key s)) StrKind,
      field ''ALLOWED_IPS'' ''allowed_ips'' (\<lambda>s. NetsVal (allowed_ip_networks s)) NetworkListKind,
      field ''MAX_UPLOAD_SIZE_MB'' ''max_upload_size_mb'' (\<lambda>s. IntVal (max_upload_size_mb s)) IntKind,
      field ''MAX_UPLOAD_ROWS'' ''max_upload_rows'' (\<lambda>s. IntVal (max_upload_rows s)) IntKind,
      field ''LOGIN_MAX_ATTEMPTS'' ''login_max_attempts'' (\<lambda>s. IntVal (login_max_attempts s)) IntKind,
      field ''LOGIN_COOLDOWN_SECONDS'' ''login_cooldown_seconds'' (\<lambda>s. IntVal (login_cooldown_seconds s)) IntKind,
      field ''VWORLD_TIMEOUT_S'' ''vworld_timeout_s'' (\<lambda>s. FloatVal (vworld_timeout_s s)) FloatKind,
      field ''VWORLD_RETRIES'' ''vworld_retries'' (\<lambda>s. IntVal (vworld_retries s)) IntKind,
      field ''VWORLD_BACKOFF_S'' ''vworld_backoff_s'' (\<lambda>s. FloatVal (vworld_backoff_s s)) FloatKind,
      field ''SESSION_HTTPS_ONLY'' ''session_https_only'' (\<lambda>s. BoolVal (session_https_only s)) BoolKind,
      field ''TRUST_PROXY_HEADERS'' ''trust_proxy_headers'' (\<lambda>s. BoolVal (trust_proxy_headers s)) BoolKind,
      field ''TRUSTED_PROXY_IPS'' ''trusted_proxy_ips'' (\<lambda>s. NetsVal (trusted_proxy_networks s)) NetworkListKind,
      field ''UPLOAD_SHEET_NAME'' ''upload_sheet_name'' (\<lambda>s. StrVal (upload_sheet_name s)) StrKind,
      field ''PUBLIC_DOWNLOAD_RATE_LIMIT_PER_MINUTE'' ''public_download_rate_limit_per_minute''
        (\<lambda>s. IntVal (public_download_rate_limit_per_minute s)) IntKind]"

section \<open>The page\<close>

text \<open>\<open>str(network)\<close>: the address and the length of the prefix, an IPv6 address with its longest run of zeros cut.\<close>

definition hextets :: "128 word \<Rightarrow> nat list" where
  "hextets a = map (\<lambda>i. nat (uint a) div 65536 ^ (7 - i) mod 65536) [0..<8]"

definition longest_zeros :: "nat list \<Rightarrow> nat \<times> nat" where
  "longest_zeros hs =
     foldl (\<lambda>b i. let n = length (takeWhile (\<lambda>h. h = 0) (drop i hs)) in if snd b < n then (i, n) else b) (0, 0)
       [0..<length hs]"

definition str_of_v6 :: "128 word \<Rightarrow> pystr" where
  "str_of_v6 a =
     (let hs = hextets a; ws = map hex_digits hs; (i, n) = longest_zeros hs
      in if n \<le> 1 then join [58] ws else join [58] (take i ws) @ [58, 58] @ join [58] (drop (i + n) ws))"

definition str_of_v4 :: "32 word \<Rightarrow> pystr" where
  "str_of_v4 a = join [46] (map (\<lambda>i. nat_digits (nat (uint a) div 256 ^ (3 - i) mod 256)) [0..<4])"

fun str_of_network :: "net \<Rightarrow> pystr" where
  "str_of_network (Net4 a m) = str_of_v4 a @ [47] @ nat_digits (length (filter (bit m) [0..<32]))"
| "str_of_network (Net6 a m) = str_of_v6 a @ [47] @ nat_digits (length (filter (bit m) [0..<128]))"

fun serialize_setting_value :: "(json \<Rightarrow> pystr) \<Rightarrow> setting_value \<Rightarrow> pystr" where
  "serialize_setting_value repr_of (BoolVal b) = (if b then asc ''true'' else asc ''false'')"
| "serialize_setting_value repr_of (IntVal i) = str_of_int i"
| "serialize_setting_value repr_of (FloatVal x) = repr_of (JFloat x)"
| "serialize_setting_value repr_of (NetsVal ns) = join [44] (map str_of_network ns)"
| "serialize_setting_value repr_of (StrVal s) = s"

definition get_current_settings :: "(json \<Rightarrow> pystr) \<Rightarrow> Settings \<Rightarrow> (pystr \<times> pystr) list" where
  "get_current_settings repr_of s =
     map (\<lambda>f. (env_key f, serialize_setting_value repr_of (settings_attr f s))) ADMIN_SETTINGS_FIELDS"

section \<open>The form\<close>

type_synonym form = "pystr \<rightharpoonup> pystr"

definition form_get :: "form \<Rightarrow> pystr \<Rightarrow> pystr" where
  "form_get form_data k = (case form_data k of None \<Rightarrow> [] | Some v \<Rightarrow> v)"

definition collect_settings_updates :: "form \<Rightarrow> (pystr \<times> pystr) list" where
  "collect_settings_updates form_data = map (\<lambda>f. (env_key f, form_get form_data (form_field f))) ADMIN_SETTINGS_FIELDS"

definition normalize_update_value :: "AdminSettingField \<Rightarrow> pystr \<Rightarrow> pystr result" where
  "normalize_update_value f value =
     (let raw = strip value in
      case kind f of
        IntKind \<Rightarrow>
          if \<not> isdigit raw then Inl (ValueErr (Some (env_key f @ asc '' must be an integer.''))) else Inr raw
      | FloatKind \<Rightarrow>
          (case py_float raw of
             Inl (ValueErr _) \<Rightarrow> Inl (ValueErr (Some (env_key f @ asc '' must be a float.'')))
           | Inl e \<Rightarrow> Inl e
           | Inr _ \<Rightarrow> Inr raw)
      | BoolKind \<Rightarrow>
          if lower raw \<notin> {asc ''true'', asc ''false''}
          then Inl (ValueErr (Some (env_key f @ asc '' must be true or false.''))) else Inr (lower raw)
      | NetworkListKind \<Rightarrow>
          bindR (mapR (\<lambda>candidate. case ip_network candidate of
                   Inl (ValueErr _) \<Rightarrow> Inl (ValueErr (Some (asc ''Invalid '' @ env_key f @ asc '' entry: '' @ candidate)))
                 | r \<Rightarrow> r) (entries raw)) (\<lambda>_. Inr raw)
      | StrKind \<Rightarrow> Inr raw)"

definition validate_updates :: "(pystr \<times> pystr) list \<Rightarrow> (pystr \<times> pystr) list result" where
  "validate_updates updates =
     mapR (\<lambda>(key, value). bindR (normalize_update_value
         (the (find (\<lambda>f. env_key f = key) ADMIN_SETTINGS_FIELDS)) value) (\<lambda>v. Inr (key, v)))
       (filter (\<lambda>(key, _). find (\<lambda>f. env_key f = key) ADMIN_SETTINGS_FIELDS \<noteq> None) updates)"

section \<open>The updates\<close>

record SettingsUpdateCommand =
  su_context :: RequestContext
  settings_password :: pystr
  su_current_password_hash :: pystr
  su_base_dir :: pystr
  su_updates :: "(pystr \<times> pystr) list"

record PasswordUpdateCommand =
  pu_context :: RequestContext
  current_password :: pystr
  new_password :: pystr
  new_password_confirm :: pystr
  pu_current_password_hash :: pystr
  pu_base_dir :: pystr

text \<open>The file, then the environment, then the cache.\<close>

definition persist_updates :: "pystr \<Rightarrow> (pystr \<times> pystr) list \<Rightarrow> process \<Rightarrow> unit result \<times> process" where
  "persist_updates basedir updates p =
     (case update_env_file basedir updates (stored p) of
        (Inl e, fs) \<Rightarrow> (Inl e, p\<lparr>stored := fs\<rparr>)
      | (Inr _, fs) \<Rightarrow>
          (case put_environ updates (environ p) of
             (Inl e, vars) \<Rightarrow> (Inl e, p\<lparr>stored := fs, environ := vars\<rparr>)
           | (Inr _, vars) \<Rightarrow> (Inr (), p\<lparr>stored := fs, environ := vars, settings_cache := None\<rparr>)))"

definition apply_settings_update ::
  "checkpw \<Rightarrow> SettingsUpdateCommand \<Rightarrow> process \<Rightarrow> (pystr \<times> pystr) list result \<times> process" where
  "apply_settings_update checkpw command p =
     (if \<not> csrf_valid (su_context command) then (Inl (AuthError 403 msg_csrf_failed), p)
      else if settings_password command = [] then (Inl (ValidationError 400 msg_admin_password_required), p)
      else case check_password checkpw (settings_password command) (su_current_password_hash command) of
             Inl e \<Rightarrow> (Inl e, p)
           | Inr False \<Rightarrow> (Inl (AuthError 401 msg_admin_password_wrong), p)
           | Inr True \<Rightarrow>
               (case validate_updates (su_updates command) of
                  Inl (ValueErr (Some m)) \<Rightarrow> (Inl (ValidationError 400 m), p)
                | Inl e \<Rightarrow> (Inl e, p)
                | Inr cleaned \<Rightarrow>
                    (case persist_updates (su_base_dir command) cleaned p of
                       (Inl e, p) \<Rightarrow> (Inl e, p) | (Inr _, p) \<Rightarrow> (Inr cleaned, p))))"

definition apply_password_update ::
  "checkpw \<Rightarrow> (nat list \<Rightarrow> nat list result) \<Rightarrow> PasswordUpdateCommand \<Rightarrow> process \<Rightarrow> pystr result \<times> process" where
  "apply_password_update checkpw hashpw command p =
     (if \<not> csrf_valid (pu_context command) then (Inl (AuthError 403 msg_csrf_failed), p)
      else if current_password command = [] \<or> new_password command = []
      then (Inl (ValidationError 400 msg_password_required), p)
      else if new_password command \<noteq> new_password_confirm command
      then (Inl (ValidationError 400 msg_password_mismatch), p)
      else if length (new_password command) < 8 then (Inl (ValidationError 400 msg_password_short), p)
      else case check_password checkpw (current_password command) (pu_current_password_hash command) of
             Inl e \<Rightarrow> (Inl e, p)
           | Inr False \<Rightarrow> (Inl (AuthError 401 msg_password_wrong), p)
           | Inr True \<Rightarrow>
               (case bindR (encode_utf8 (new_password command)) (\<lambda>pw. bindR (hashpw pw) decode_utf8) of
                  Inl e \<Rightarrow> (Inl e, p)
                | Inr new_hash \<Rightarrow>
                    (case persist_updates (pu_base_dir command) [(asc ''ADMIN_PW_HASH'', new_hash)] p of
                       (Inl e, p) \<Rightarrow> (Inl e, p) | (Inr _, p) \<Rightarrow> (Inr new_hash, p))))"

section \<open>What the updates do\<close>

lemma overridden_Cons: "k \<notin> fst ` set us \<Longrightarrow> overridden ((k, v) # us) e = overridden us (e(k \<mapsto> v))"
proof -
  assume "k \<notin> fst ` set us"
  then have "map_of us k = None" by (simp add: map_of_eq_None_iff)
  then show ?thesis by (auto simp: overridden_def fun_eq_iff split: option.splits)
qed

lemma put_environ_result:
  "put_environ us e = (Inr u, e') \<Longrightarrow> distinct (map fst us) \<Longrightarrow> e' = overridden us e"
proof (induction us e rule: put_environ.induct)
  case (2 k v us e)
  have v: "0 \<notin> set v" and put: "put_environ us (e(k \<mapsto> v)) = (Inr u, e')"
    using 2(2) by (simp_all split: if_splits)
  have fresh: "k \<notin> fst ` set us" and d: "distinct (map fst us)" using 2(3) by simp_all
  show ?case unfolding overridden_Cons [OF fresh] by (rule 2(1) [OF v put d])
qed (simp add: overridden_def)

lemma put_environ_frame: "k \<notin> set (map fst us) \<Longrightarrow> snd (put_environ us e) k = e k"
  by (induction us e rule: put_environ.induct) auto

lemma persist_updates_result:
  assumes "persist_updates basedir us p = (Inr u, p')" "distinct (map fst us)"
  shows "update_env_file basedir us (stored p) = (Inr (), stored p')" "environ p' = overridden us (environ p)"
    "settings_cache p' = None"
  using assms by (auto simp: persist_updates_def dest: put_environ_result split: prod.splits sum.splits)

lemma settings_update_result:
  assumes "apply_settings_update checkpw command p = (Inr cleaned, p')"
  shows "csrf_valid (su_context command)" "settings_password command \<noteq> []"
    "check_password checkpw (settings_password command) (su_current_password_hash command) = Inr True"
    "validate_updates (su_updates command) = Inr cleaned" "persist_updates (su_base_dir command) cleaned p = (Inr (), p')"
  using assms by (auto simp: apply_settings_update_def split: if_splits sum.splits bool.splits exn.splits option.splits prod.splits)

lemma password_update_result:
  assumes "apply_password_update checkpw hashpw command p = (Inr h, p')"
  shows "csrf_valid (pu_context command)" "new_password command = new_password_confirm command"
    "8 \<le> length (new_password command)"
    "check_password checkpw (current_password command) (pu_current_password_hash command) = Inr True"
    "\<exists>pw bs. encode_utf8 (new_password command) = Inr pw \<and> hashpw pw = Inr bs \<and> decode_utf8 bs = Inr h"
    "persist_updates (pu_base_dir command) [(asc ''ADMIN_PW_HASH'', h)] p = (Inr (), p')"
  using assms by (auto simp: apply_password_update_def bindR_Inr_iff split: if_splits sum.splits bool.splits prod.splits)

text \<open>The keys of the form are those of the fields, each once, and fit on a line of their own.\<close>

lemma field_keys: "distinct (map env_key ADMIN_SETTINGS_FIELDS)" "list_all (\<lambda>f. plain_key (env_key f) \<and> unicode (env_key f)) ADMIN_SETTINGS_FIELDS"
  by code_simp+

lemma collect_keys: "map fst (collect_settings_updates form_data) = map env_key ADMIN_SETTINGS_FIELDS"
  by (simp add: collect_settings_updates_def comp_def)

lemma mapR_keys: "mapR (\<lambda>(k, v). bindR (g k v) (\<lambda>w. Inr (k, w))) kvs = Inr ys \<Longrightarrow> map fst ys = map fst kvs"
  by (induction kvs arbitrary: ys) (auto simp: bindR_Inr_iff)

lemma validate_keys:
  assumes "validate_updates us = Inr cleaned" "distinct (map fst us)"
  shows "distinct (map fst cleaned)" "\<forall>k \<in> fst ` set cleaned. \<exists>f \<in> set ADMIN_SETTINGS_FIELDS. env_key f = k"
proof -
  let ?known = "filter (\<lambda>(key, _). find (\<lambda>f. env_key f = key) ADMIN_SETTINGS_FIELDS \<noteq> None) us"
  have keys: "map fst cleaned = map fst ?known"
    using assms(1) mapR_keys unfolding validate_updates_def by fastforce
  then show "distinct (map fst cleaned)" using assms(2) by (simp add: distinct_map_filter)
  have "fst ` set cleaned = fst ` set ?known" using arg_cong [OF keys, of set] by simp
  then show "\<forall>k \<in> fst ` set cleaned. \<exists>f \<in> set ADMIN_SETTINGS_FIELDS. env_key f = k"
    by (auto simp: find_Some_iff)
qed

lemma load_fallback:
  "load_dotenv_if_present (\<lambda>_ _. None) content e k =
   (case e k of Some v \<Rightarrow> Some v | None \<Rightarrow> map_of (bindings (env_lines content)) k)"
  by (cases content) (simp_all add: load_dotenv_if_present_def env_lines_def load_env_lines bindings_def map_filter_simps
      split: option.splits)

text \<open>
  The assignments of the file as the parser of \<open>config.py\<close> reads them, which is what a process with an empty environment
  takes when python-dotenv is missing or fails. Where that package is installed it reads the file instead, by rules of its own.
\<close>

definition file_env :: "pystr option \<Rightarrow> env" where
  "file_env content = load_dotenv_if_present (\<lambda>_ _. None) content Map.empty"

lemma file_env_eq: "file_env content = map_of (bindings (env_lines content))"
  by (simp add: file_env_def load_fallback fun_eq_iff)

lemma persist_file_env:
  assumes "persist_updates basedir us p = (Inr u, p')" and "plain_updates us" "list_all (\<lambda>(k, v). unicode k \<and> unicode v) us"
    and "read_text (env_path basedir) (stored p) = Inr old" "list_all (tidy (set (map fst us))) (env_lines old)"
  shows "\<exists>new. read_text (env_path basedir) (stored p') = Inr (Some new) \<and> file_env (Some new) = overridden us (file_env old)"
proof -
  have "distinct (map fst us)" using assms(2) by (simp add: plain_updates_def)
  from update_env_file_spec [OF persist_updates_result(1) [OF assms(1) this] assms(2-5)]
  obtain new where "read_text (env_path basedir) (stored p') = Inr (Some new)"
    "map_of (bindings (splitlines new)) = overridden us (map_of (bindings (env_lines old)))" by blast
  then show ?thesis
    by (intro exI [of _ new]) (simp add: file_env_eq env_lines_def)
qed

lemma get_settings_fresh:
  assumes "settings_cache p = None" "read_text (env_path basedir) (stored p) = Inr content"
  shows "fst (get_settings ld basedir p) = build_settings basedir (load_dotenv_if_present ld content (environ p))"
  using assms by (auto simp: get_settings_def Let_def split: sum.splits)

lemma fallback_keeps: "e k = Some v \<Longrightarrow> fold load_env_line lines e k = Some v"
  by (simp add: load_env_lines)

lemma load_keeps:
  assumes "\<And>t e e'. ld t e = Some e' \<Longrightarrow> e \<subseteq>\<^sub>m e'" "e k = Some v"
  shows "load_dotenv_if_present ld content e k = Some v"
proof -
  have "e' k = Some v" if "ld t e = Some e'" for t e' using assms(1) [OF that] assms(2) by (metis domI map_le_def)
  then show ?thesis by (auto simp: load_dotenv_if_present_def fallback_keeps assms(2) split: option.splits)
qed

lemma next_settings:
  assumes "persist_updates basedir us p = (Inr u, p')" "plain_updates us" "list_all (\<lambda>(k, v). unicode k \<and> unicode v) us"
    and "read_text (env_path basedir) (stored p) = Inr old" "list_all (tidy (set (map fst us))) (env_lines old)"
    and law: "\<And>t e e'. load_dotenv t e = Some e' \<Longrightarrow> e \<subseteq>\<^sub>m e'"
  shows "\<exists>e. fst (get_settings load_dotenv basedir p') = build_settings basedir e \<and>
    (\<forall>k v. map_of us k = Some v \<longrightarrow> e k = Some v)"
proof -
  obtain new where new: "read_text (env_path basedir) (stored p') = Inr (Some new)"
    using persist_file_env [OF assms(1-5)] by blast
  have d: "distinct (map fst us)" using assms(2) by (simp add: plain_updates_def)
  note res = persist_updates_result [OF assms(1) d]
  have "load_dotenv_if_present load_dotenv (Some new) (environ p') k = Some v" if "map_of us k = Some v" for k v
    by (rule load_keeps [OF law]) (simp_all add: res(2) overridden_def that)
  with get_settings_fresh [OF res(3) new, of load_dotenv] show ?thesis by blast
qed

lemma ascii_decode: "is_ascii bs \<Longrightarrow> decode_utf8 bs = Inr bs"
  by (induction bs) (simp_all add: is_ascii_def utf8_lead_def)

lemma ascii_encode: "is_ascii s \<Longrightarrow> encode_utf8 s = Inr s"
proof -
  have "is_ascii s \<Longrightarrow> mapR utf8_char s = Inr (map (\<lambda>c. [c]) s)"
    by (induction s) (simp_all add: is_ascii_def utf8_char_def)
  then show "is_ascii s \<Longrightarrow> ?thesis" by (simp add: encode_utf8_def)
qed

text \<open>
  A required value may be saved empty; the settings cannot be built from then on. A value may hold a line
  break; what follows it is an assignment of its own.
\<close>

lemma blank_required_fails:
  assumes "e (asc ''VWORLD_WMTS_KEY'') = Some []"
  shows "\<exists>ex. build_settings basedir e = Inl ex"
proof -
  have "get_required_env e ''VWORLD_WMTS_KEY'' =
      Inl (SettingsError (asc ''Required environment variable is missing: '' @ asc ''VWORLD_WMTS_KEY''))"
    by (simp add: get_required_env_def assms)
  then show ?thesis
    unfolding build_settings_def
    by (cases "py_float (getenv e ''MAP_CENTER_LON'' (asc ''126.4500''))";
        cases "py_float (getenv e ''MAP_CENTER_LAT'' (asc ''36.7848''))";
        cases "py_int (getenv e ''MAP_DEFAULT_ZOOM'' (asc ''14''))") simp_all
qed

lemma blank_key_breaks_settings:
  assumes "apply_settings_update checkpw command p = (Inr cleaned, p')"
    and "su_updates command = collect_settings_updates form_data" "map_of cleaned (asc ''VWORLD_WMTS_KEY'') = Some []"
    and "read_text (env_path (su_base_dir command)) (stored p') = Inr content"
  shows "\<exists>ex. fst (get_settings (\<lambda>_ _. None) (su_base_dir command) p') = Inl ex"
proof -
  note res = settings_update_result [OF assms(1)]
  have "distinct (map fst (su_updates command))" by (simp add: assms(2) collect_keys field_keys(1))
  from validate_keys(1) [OF res(4) this] have d: "distinct (map fst cleaned)" .
  note saved = persist_updates_result [OF res(5) d]
  have "environ p' (asc ''VWORLD_WMTS_KEY'') = Some []" by (simp add: saved(2) overridden_def assms(3))
  then have "load_dotenv_if_present (\<lambda>_ _. None) content (environ p') (asc ''VWORLD_WMTS_KEY'') = Some []"
    by (simp add: load_fallback)
  then show ?thesis unfolding get_settings_fresh [OF saved(3) assms(4)] by (rule blank_required_fails)
qed

lemma blank_key_validates:
  "validate_updates [(asc ''VWORLD_WMTS_KEY'', [])] = Inr [(asc ''VWORLD_WMTS_KEY'', [])]"
  by code_simp

lemma env_line_injection:
  "bindings (splitlines (join [10] (updated_lines [] [(asc ''APP_NAME'', asc ''a'' @ [10] @ asc ''SECRET_KEY=x'')]) @ [10])) =
   [(asc ''APP_NAME'', asc ''a''), (asc ''SECRET_KEY'', asc ''x'')]"
  by code_simp

section \<open>Properties\<close>

text \<open>
  C8. A settings update that succeeds carried the CSRF token and the administrator's password, and saved the values
  of the form as \<open>validate_updates\<close> cleans them. Let each of them be a plain value (\<open>plain_value\<close>: no line break, no blank and
  no quote at its ends) and let the old file spell the names of the form without a blank before the = (\<open>tidy\<close>). Then every
  cleaned value is in the environment of this process, and the settings object it builds next is built from it; the .env
  file, read by the parser of \<open>config.py\<close>, assigns it, and assigns every other name what it did.

  The hypotheses are needed: a value with a line break is not refused, and writes assignments of its own
  (\<open>env_line_injection\<close>). And two things are not claimed. A later process that has python-dotenv reads the file by the rules of
  that package, which are not in the source: a value with a backslash, a quote or a dollar may come back different (escapes in
  double quotes, interpolation). And what reads its setting once, when the process starts, keeps the old value until a restart:
  the session middleware with the \<open>Secure\<close> flag of its cookie (\<open>SESSION_HTTPS_ONLY\<close>, as the README says).
\<close>

theorem settings_update_saved:
  assumes upd: "apply_settings_update checkpw command p = (Inr cleaned, p')"
    and form: "su_updates command = collect_settings_updates form_data"
    and plain: "list_all (\<lambda>(k, v). plain_value v \<and> unicode v) cleaned"
    and old: "read_text (env_path (su_base_dir command)) (stored p) = Inr old"
    and tidy: "list_all (tidy (set (map env_key ADMIN_SETTINGS_FIELDS))) (env_lines old)"
    and law: "\<And>t e e'. load_dotenv t e = Some e' \<Longrightarrow> e \<subseteq>\<^sub>m e'"
  shows "csrf_valid (su_context command) \<and> validate_updates (collect_settings_updates form_data) = Inr cleaned \<and>
    check_password checkpw (settings_password command) (su_current_password_hash command) = Inr True \<and>
    environ p' = overridden cleaned (environ p) \<and>
    (\<exists>new. read_text (env_path (su_base_dir command)) (stored p') = Inr (Some new) \<and>
       file_env (Some new) = overridden cleaned (file_env old)) \<and>
    (\<exists>e. fst (get_settings load_dotenv (su_base_dir command) p') = build_settings (su_base_dir command) e \<and>
       (\<forall>k v. map_of cleaned k = Some v \<longrightarrow> e k = Some v))"
proof -
  note res = settings_update_result [OF upd]
  have "distinct (map fst (su_updates command))" by (simp add: form collect_keys field_keys(1))
  note keys = validate_keys [OF res(4) this]
  have k: "plain_key k \<and> unicode k" if "(k, v) \<in> set cleaned" for k v
    using keys(2) field_keys(2) that by (force simp: list_all_iff)
  have pl: "plain_updates cleaned" and uni: "list_all (\<lambda>(k, v). unicode k \<and> unicode v) cleaned"
    using plain k keys(1) by (auto simp: plain_updates_def list_all_iff)
  have td: "list_all (tidy (set (map fst cleaned))) (env_lines old)"
    using tidy keys(2) by (force simp: list_all_iff tidy_def)
  have "\<exists>e. fst (get_settings load_dotenv (su_base_dir command) p') = build_settings (su_base_dir command) e \<and>
      (\<forall>k v. map_of cleaned k = Some v \<longrightarrow> e k = Some v)"
    by (rule next_settings [OF res(5) pl uni old td]) (rule law)
  then show ?thesis
    using res(1,3) res(4) [unfolded form] persist_updates_result(2) [OF res(5) keys(1)] persist_file_env [OF res(5) pl uni old td] by blast
qed

text \<open>
  C36. A password change that succeeds carried the CSRF token and the current password, twice the same new
  one of at least eight characters; the new hash is in force from then on, in the environment, in the file
  and in the settings built next, and the login check accepts the new password against it.
\<close>

theorem password_update_effective:
  assumes upd: "apply_password_update checkpw hashpw command p = (Inr h, p')"
    and bcrypt: "\<And>pw bs. hashpw pw = Inr bs \<Longrightarrow> plain_value bs \<and> is_ascii bs \<and> checkpw pw bs = Inr True"
    and old: "read_text (env_path (pu_base_dir command)) (stored p) = Inr old"
    and tidy: "list_all (tidy {asc ''ADMIN_PW_HASH''}) (env_lines old)"
    and law: "\<And>t e e'. load_dotenv t e = Some e' \<Longrightarrow> e \<subseteq>\<^sub>m e'"
  shows "csrf_valid (pu_context command) \<and> new_password command = new_password_confirm command \<and>
    8 \<le> length (new_password command) \<and>
    check_password checkpw (current_password command) (pu_current_password_hash command) = Inr True \<and>
    check_password checkpw (new_password command) h = Inr True \<and>
    environ p' = (environ p)(asc ''ADMIN_PW_HASH'' \<mapsto> h) \<and>
    (\<exists>new. read_text (env_path (pu_base_dir command)) (stored p') = Inr (Some new) \<and>
       file_env (Some new) = (file_env old)(asc ''ADMIN_PW_HASH'' \<mapsto> h)) \<and>
    (\<exists>e. fst (get_settings load_dotenv (pu_base_dir command) p') = build_settings (pu_base_dir command) e \<and>
       e (asc ''ADMIN_PW_HASH'') = Some h)"
proof -
  note res = password_update_result [OF upd]
  let ?us = "[(asc ''ADMIN_PW_HASH'', h)]"
  obtain pw bs where pw: "encode_utf8 (new_password command) = Inr pw" and bs: "hashpw pw = Inr bs" and "decode_utf8 bs = Inr h"
    using res(5) by blast
  then have h: "bs = h" "plain_value h" "is_ascii h" "checkpw pw h = Inr True"
    using bcrypt [OF bs] ascii_decode [of bs] by auto
  have key: "plain_key (asc ''ADMIN_PW_HASH'') \<and> unicode (asc ''ADMIN_PW_HASH'')" by code_simp
  have pl: "plain_updates ?us" "list_all (\<lambda>(k, v). unicode k \<and> unicode v) ?us"
    using key h by (auto simp: plain_updates_def unicode_def is_ascii_def list_all_iff)
  have td: "list_all (tidy (set (map fst ?us))) (env_lines old)" using tidy by simp
  have one: "overridden ?us m = m(asc ''ADMIN_PW_HASH'' \<mapsto> h)" for m
    by (auto simp: overridden_def fun_eq_iff)
  have "check_password checkpw (new_password command) h = Inr True"
    by (simp add: check_password_def pw ascii_encode h)
  moreover have "environ p' = (environ p)(asc ''ADMIN_PW_HASH'' \<mapsto> h)"
    using persist_updates_result(2) [OF res(6)] by (simp add: one)
  moreover have "\<exists>new. read_text (env_path (pu_base_dir command)) (stored p') = Inr (Some new) \<and>
       file_env (Some new) = (file_env old)(asc ''ADMIN_PW_HASH'' \<mapsto> h)"
    using persist_file_env [OF res(6) pl old td] by (simp only: one)
  moreover have "\<exists>e. fst (get_settings load_dotenv (pu_base_dir command) p') = build_settings (pu_base_dir command) e \<and>
       e (asc ''ADMIN_PW_HASH'') = Some h"
  proof -
    have "\<exists>e. fst (get_settings load_dotenv (pu_base_dir command) p') = build_settings (pu_base_dir command) e \<and>
        (\<forall>k v. map_of ?us k = Some v \<longrightarrow> e k = Some v)"
      by (rule next_settings [OF res(6) pl old td]) (rule law)
    then show ?thesis by auto
  qed
  ultimately show ?thesis using res(1-4) by blast
qed

section \<open>Witnesses\<close>

definition sample_form :: form where
  "sample_form = map_of (map (\<lambda>(k, v). (asc k, asc v))
     [(''app_name'', ''Parcel Map''), (''vworld_wmts_key'', ''w2''), (''vworld_geocoder_key'', ''g''),
      (''allowed_ips'', ''10.0.0.0/8, ::1''), (''max_upload_size_mb'', ''12''), (''max_upload_rows'', ''5000''),
      (''login_max_attempts'', ''5''), (''login_cooldown_seconds'', ''300''), (''vworld_timeout_s'', ''5''),
      (''vworld_retries'', ''3''), (''vworld_backoff_s'', ''1''), (''session_https_only'', ''True''),
      (''trust_proxy_headers'', ''false''), (''upload_sheet_name'', '' list ''),
      (''public_download_rate_limit_per_minute'', ''10'')])"

definition sample_env_text :: pystr where
  "sample_env_text = asc ''# settings'' @ [10] @ asc ''VWORLD_WMTS_KEY=w'' @ [10] @ asc ''SECRET_KEY = s'' @ [10]"

definition sample_process :: process where
  "sample_process = \<lparr>environ = Map.empty, stored = [asc ''/srv/.env'' \<mapsto> sample_env_text], settings_cache = None\<rparr>"

definition sample_update :: SettingsUpdateCommand where
  "sample_update =
     \<lparr>su_context = admin_context, settings_password = asc ''secret'', su_current_password_hash = asc ''secret'',
      su_base_dir = asc ''/srv'', su_updates = collect_settings_updates sample_form\<rparr>"

lemma no_dotenv: "None = Some e' \<Longrightarrow> e \<subseteq>\<^sub>m e'"
  by simp

lemma sample_saved:
  "case fst (apply_settings_update sample_checkpw sample_update sample_process) of
     Inl _ \<Rightarrow> False
   | Inr c \<Rightarrow> list_all (\<lambda>(k, v). plain_value v \<and> unicode v) c \<and>
       map_of c (asc ''VWORLD_WMTS_KEY'') = Some (asc ''w2'') \<and> map_of c (asc ''SECRET_KEY'') = None"
  by code_simp

lemma sample_env_file:
  "read_text (env_path (asc ''/srv'')) (stored sample_process) = Inr (Some sample_env_text)"
  "list_all (tidy (set (map env_key ADMIN_SETTINGS_FIELDS))) (env_lines (Some sample_env_text))"
  "list_all (tidy {asc ''ADMIN_PW_HASH''}) (env_lines (Some sample_env_text))"
  "file_env (Some sample_env_text) (asc ''SECRET_KEY'') = Some (asc ''s'')"
  by code_simp+

theorem settings_update_saved_witness:
  "\<exists>cleaned p' new. apply_settings_update sample_checkpw sample_update sample_process = (Inr cleaned, p') \<and>
     read_text (asc ''/srv/.env'') (stored p') = Inr (Some new) \<and>
     file_env (Some new) (asc ''VWORLD_WMTS_KEY'') = Some (asc ''w2'') \<and>
     file_env (Some new) (asc ''SECRET_KEY'') = Some (asc ''s'')"
proof -
  obtain cleaned p' where run: "apply_settings_update sample_checkpw sample_update sample_process = (Inr cleaned, p')"
    and c: "list_all (\<lambda>(k, v). plain_value v \<and> unicode v) cleaned"
      "map_of cleaned (asc ''VWORLD_WMTS_KEY'') = Some (asc ''w2'')" "map_of cleaned (asc ''SECRET_KEY'') = None"
    using sample_saved
    by (cases "apply_settings_update sample_checkpw sample_update sample_process") (auto split: sum.splits)
  have dir: "su_base_dir sample_update = asc ''/srv''" "env_path (asc ''/srv'') = asc ''/srv/.env''" by code_simp+
  have form: "su_updates sample_update = collect_settings_updates sample_form" by (simp add: sample_update_def)
  have old: "read_text (env_path (su_base_dir sample_update)) (stored sample_process) = Inr (Some sample_env_text)"
    by (simp only: dir(1) sample_env_file(1))
  obtain new where "read_text (asc ''/srv/.env'') (stored p') = Inr (Some new)"
    and new: "file_env (Some new) = overridden cleaned (file_env (Some sample_env_text))"
    using settings_update_saved [where load_dotenv = "\<lambda>_ _. None", OF run form c(1) old sample_env_file(2) no_dotenv]
    unfolding dir by blast
  moreover have "file_env (Some new) (asc ''VWORLD_WMTS_KEY'') = Some (asc ''w2'')"
    "file_env (Some new) (asc ''SECRET_KEY'') = Some (asc ''s'')"
    unfolding new by (simp_all only: overridden_def c(2,3) sample_env_file(4) option.case)
  ultimately show ?thesis using run by blast
qed

definition sample_hashpw :: "nat list \<Rightarrow> nat list result" where
  "sample_hashpw pw = (if is_ascii pw \<and> plain_value pw then Inr pw else Inl (ValueErr None))"

definition sample_password_update :: PasswordUpdateCommand where
  "sample_password_update =
     \<lparr>pu_context = admin_context, current_password = asc ''secret'', new_password = asc ''new secret'',
      new_password_confirm = asc ''new secret'', pu_current_password_hash = asc ''secret'', pu_base_dir = asc ''/srv''\<rparr>"

theorem password_update_effective_witness:
  "\<exists>p'. apply_password_update sample_checkpw sample_hashpw sample_password_update sample_process =
      (Inr (asc ''new secret''), p') \<and>
    environ p' (asc ''ADMIN_PW_HASH'') = Some (asc ''new secret'') \<and>
    check_password sample_checkpw (asc ''new secret'') (asc ''new secret'') = Inr True"
proof -
  have "fst (apply_password_update sample_checkpw sample_hashpw sample_password_update sample_process) =
      Inr (asc ''new secret'')" by code_simp
  then obtain p' where run: "apply_password_update sample_checkpw sample_hashpw sample_password_update sample_process =
      (Inr (asc ''new secret''), p')" by (metis prod.collapse)
  have dir: "pu_base_dir sample_password_update = asc ''/srv''" "new_password sample_password_update = asc ''new secret''"
    by (simp_all add: sample_password_update_def)
  have old: "read_text (env_path (pu_base_dir sample_password_update)) (stored sample_process) = Inr (Some sample_env_text)"
    by (simp only: dir(1) sample_env_file(1))
  have bcrypt: "plain_value bs \<and> is_ascii bs \<and> sample_checkpw pw bs = Inr True" if "sample_hashpw pw = Inr bs" for pw bs
    using that by (auto simp: sample_hashpw_def sample_checkpw_def split: if_splits)
  from password_update_effective [where load_dotenv = "\<lambda>_ _. None", OF run bcrypt old sample_env_file(3) no_dotenv]
  have "environ p' = (environ sample_process)(asc ''ADMIN_PW_HASH'' \<mapsto> asc ''new secret'') \<and>
      check_password sample_checkpw (asc ''new secret'') (asc ''new secret'') = Inr True"
    unfolding dir by blast
  with run show ?thesis by simp
qed

end
