(* ===== verification/Admin_Routes.thy ===== *)
theory Admin_Routes
  imports Admin_Settings Raw_Export Web_Stats Map_Routes
begin

text \<open>
  \<open>app/routers/admin.py\<close>, \<open>app/routers/admin_support.py\<close> and \<open>app/services/admin_stats_service.py\<close>: every
  administration route behind its dependencies, over the whole state of the system. The libraries are the
  fields of one record; clock readings and random tokens are part of a request. The records of these routes are in \<open>Audit_Log\<close>; a page is the data its template is given.
\<close>

section \<open>The system\<close>

record system =
  sys_app :: app_state
  sys_process :: process
  sys_db :: database
  sys_events :: event_db
  sys_visits :: web_db

record libraries =
  ext_checkpw :: checkpw
  ext_hashpw :: "nat list \<Rightarrow> nat list result"
  ext_dotenv :: dotenv
  ext_lib :: pylib
  ext_download :: download_lib
  ext_reader :: excel_reader
  ext_base_dir :: pystr

abbreviation sys_config :: "system \<Rightarrow> RuntimeConfig" where
  "sys_config st \<equiv> app_config (sys_app st)"

text \<open>What a route asks for besides the headers of its request; \<open>pystr\<close> fields of a form are texts.\<close>

datatype admin_call =
    AdminRoot pystr bool
  | UploadExcel pystr UploadedFileInput pystr bool
  | UploadDownload pystr UploadedFileInput pystr
  | DownloadMeta
  | UpdateSettings form
  | UpdatePassword pystr pystr pystr pystr
  | DashboardStats int
  | GeomRefresh pystr pystr
  | GeomRefreshStatus int
  | WebStats int int
  | ExportRawQueries bool pystr "pystr option" "pystr option" int pystr

datatype admin_answer =
    Reply reply "(pystr \<times> pystr) list"
  | AdminPage pystr "(pystr \<times> pystr) list" bool
  | Dashboard admin_stats int int
  | WebStatsAnswer web_stats_response

text \<open>What a call leaves: its answer, the session, the boundary job it schedules, and the system.\<close>

record outcome =
  out_answer :: "admin_answer result"
  out_session :: session
  out_job :: "int option"
  out_system :: system

definition settled :: "request \<Rightarrow> admin_answer result \<Rightarrow> system \<Rightarrow> outcome" where
  "settled r a st = \<lparr>out_answer = a, out_session = session r, out_job = None, out_system = st\<rparr>"

section \<open>Support\<close>

definition request_context :: "request \<Rightarrow> bool \<Rightarrow> RequestContext" where
  "request_context r valid =
     \<lparr>request_id = request_id_of r,
      actor = (case session r (asc ''user'') of Some u \<Rightarrow> u | None \<Rightarrow> asc ''anonymous''),
      client_ip = peer_name r, csrf_valid = valid\<rparr>"

definition build_request_context :: "request \<Rightarrow> pystr \<Rightarrow> RequestContext result" where
  "build_request_context r csrf_token =
     bindR (validate_csrf_token (session r) (Some csrf_token)) (\<lambda>valid. Inr (request_context r valid))"

definition raw_query_export_filename :: "pystr \<Rightarrow> pystr" where
  "raw_query_export_filename today = asc ''raw-queries-'' @ today @ asc ''.csv''"

definition raw_query_export_response :: "RawQueryCsvExportResult \<Rightarrow> pystr \<Rightarrow> admin_answer" where
  "raw_query_export_response res filename =
     Reply (TextResponse (csv_text res) (asc ''text/csv; charset=utf-8''))
       [(asc ''Content-Disposition'', asc ''attachment; filename='' @ [34] @ filename @ [34])]"

definition http_result :: "'a result \<Rightarrow> 'a result" where
  "http_result r = (case r of Inl e \<Rightarrow> Inl (raise_http_from_service_error e) | _ \<Rightarrow> r)"

definition ok_json :: "payload \<Rightarrow> admin_answer" where
  "ok_json kvs = Reply (JSONResponse 200 kvs) []"

section \<open>The pages and statistics\<close>

text \<open>\<open>get_settings\<close> of the process, for a continuation that reads it.\<close>

definition with_settings ::
  "libraries \<Rightarrow> system \<Rightarrow> (Settings \<Rightarrow> 'a result) \<Rightarrow> 'a result \<times> system" where
  "with_settings ext st f =
     (let (s, p) = get_settings (ext_dotenv ext) (ext_base_dir ext) (sys_process st)
      in (bindR s f, st\<lparr>sys_process := p\<rparr>))"

definition admin_root :: "libraries \<Rightarrow> request \<Rightarrow> pystr \<Rightarrow> bool \<Rightarrow> system \<Rightarrow> outcome" where
  "admin_root ext r fresh updated st =
     (if \<not> is_authenticated (sys_config st) r
      then settled r (Inr (Reply (RedirectResponse 303 (asc ''/admin/login'')) [])) st
      else let (csrf_token, s) = get_or_create_csrf_token fresh (session r);
               (a, st) = with_settings ext st (\<lambda>settings.
                  Inr (AdminPage csrf_token (get_current_settings (lib_str (ext_lib ext)) settings) updated))
           in \<lparr>out_answer = a, out_session = (if isl a then session r else s), out_job = None, out_system = st\<rparr>)"

definition get_dashboard_stats :: "int \<Rightarrow> system \<Rightarrow> admin_answer" where
  "get_dashboard_stats limit st =
     Dashboard (get_admin_stats limit (sys_events st)) (count_all_lands (poi (sys_db st))) (count_missing_geom (poi (sys_db st)))"

definition web_stats_route :: "libraries \<Rightarrow> request \<Rightarrow> int \<Rightarrow> int \<Rightarrow> system \<Rightarrow> outcome" where
  "web_stats_route ext r now_utc days st =
     (let (a, st') = with_settings ext st (\<lambda>settings.
            bindR (get_web_stats now_utc days (Settings.allowed_web_track_paths settings) (sys_visits st)) (\<lambda>ws. Inr (WebStatsAnswer ws)))
      in settled r a st')"

definition export_raw_queries ::
  "libraries \<Rightarrow> request \<Rightarrow> bool \<Rightarrow> pystr \<Rightarrow> pystr option \<Rightarrow> pystr option \<Rightarrow> int \<Rightarrow> pystr \<Rightarrow> system \<Rightarrow> outcome" where
  "export_raw_queries ext r interrupted event_type date_from date_to limit today st =
     (let (a, st') = with_settings ext st (\<lambda>settings.
            export_raw_query_csv interrupted
              \<lparr>ec_event_type = event_type, ec_date_from = date_from, ec_date_to = date_to, ec_limit = limit,
               ec_max_rows = raw_query_export_max_rows settings\<rparr> (sys_events st))
      in settled r (bindR (http_result a) (\<lambda>res.
           Inr (raw_query_export_response res (raw_query_export_filename today)))) st')"

section \<open>The operations\<close>

definition upload_excel :: "libraries \<Rightarrow> request \<Rightarrow> pystr \<Rightarrow> UploadedFileInput \<Rightarrow> pystr \<Rightarrow> bool \<Rightarrow> system \<Rightarrow> outcome" where
  "upload_excel ext r csrf_token f ts locked st =
     (case build_request_context r csrf_token of
        Inl e \<Rightarrow> settled r (Inl e) st
      | Inr ctx \<Rightarrow>
          let (res, d) = handle_excel_upload (ext_reader ext) (ext_lib ext) ts locked
                 \<lparr>up_csrf_valid = csrf_valid ctx, up_requested_sheet = UPLOAD_SHEET_NAME (sys_config st),
                  up_max_size_mb = MAX_UPLOAD_SIZE_MB (sys_config st), up_max_rows = MAX_UPLOAD_ROWS (sys_config st)\<rparr>
                 f (sys_db st);
              st = st\<lparr>sys_db := d\<rparr>
          in case http_result res of
               Inl e \<Rightarrow> settled r (Inl e) st
             | Inr (UploadRejected code kvs) \<Rightarrow> settled r (Inr (Reply (JSONResponse code kvs) [])) st
             | Inr (UploadSuccess kvs schedule job) \<Rightarrow>
                 (settled r (Inr (ok_json kvs)) st)\<lparr>out_job := if schedule then Some job else None\<rparr>)"

definition upload_public_download_file ::
  "libraries \<Rightarrow> request \<Rightarrow> pystr \<Rightarrow> UploadedFileInput \<Rightarrow> pystr \<Rightarrow> system \<Rightarrow> outcome" where
  "upload_public_download_file ext r csrf_token f now st =
     (case build_request_context r csrf_token of
        Inl e \<Rightarrow> settled r (Inl e) st
      | Inr ctx \<Rightarrow>
          let (res, fs) = handle_public_download_upload (ext_download ext) now (download_config (sys_config st)) ctx f
                 (stored (sys_process st));
              st = st\<lparr>sys_process := (sys_process st)\<lparr>stored := fs\<rparr>\<rparr>
          in settled r (bindR (http_result res) (\<lambda>res. Inr (ok_json
               [(asc ''success'', JBool (du_success res)), (asc ''message'', JStr (du_message res)),
                (asc ''filename'', JStr (du_filename res)), (asc ''uploadedAt'', JStr (du_uploaded_at res)),
                (asc ''sizeBytes'', JInt (du_size_bytes res))]))) st)"

text \<open>A settings or password update: the new settings are read back and put in force, or the exception escapes.\<close>

definition rebuild_after :: "libraries \<Rightarrow> request \<Rightarrow> 'a result \<times> process \<Rightarrow> system \<Rightarrow> outcome" where
  "rebuild_after ext r = (\<lambda>(res, p) st.
     let st = st\<lparr>sys_process := p\<rparr>
     in case http_result res of
          Inl e \<Rightarrow> settled r (Inl e) st
        | Inr _ \<Rightarrow>
            let (s, st) = with_settings ext st Inr
            in case s of
                 Inl e \<Rightarrow> settled r (Inl e) st
               | Inr new_settings \<Rightarrow>
                   settled r (Inr (Reply (RedirectResponse 303 (asc ''/admin/?updated=1'')) []))
                     (st\<lparr>sys_app := rebuild_runtime_state (sys_app st) new_settings\<rparr>))"

definition update_settings :: "libraries \<Rightarrow> request \<Rightarrow> form \<Rightarrow> system \<Rightarrow> outcome" where
  "update_settings ext r form_data st =
     (case build_request_context r (form_get form_data (asc ''csrf_token'')) of
        Inl e \<Rightarrow> settled r (Inl e) st
      | Inr ctx \<Rightarrow>
          rebuild_after ext r (apply_settings_update (ext_checkpw ext)
             \<lparr>su_context = ctx, settings_password = form_get form_data (asc ''settings_password''),
              su_current_password_hash = ADMIN_PW_HASH (sys_config st), su_base_dir = BASE_DIR (sys_config st),
              su_updates = collect_settings_updates form_data\<rparr> (sys_process st)) st)"

definition update_password ::
  "libraries \<Rightarrow> request \<Rightarrow> pystr \<Rightarrow> pystr \<Rightarrow> pystr \<Rightarrow> pystr \<Rightarrow> system \<Rightarrow> outcome" where
  "update_password ext r csrf_token current new confirm st =
     (case build_request_context r csrf_token of
        Inl e \<Rightarrow> settled r (Inl e) st
      | Inr ctx \<Rightarrow>
          rebuild_after ext r (apply_password_update (ext_checkpw ext) (ext_hashpw ext)
             \<lparr>pu_context = ctx, current_password = current, new_password = new, new_password_confirm = confirm,
              pu_current_password_hash = ADMIN_PW_HASH (sys_config st), pu_base_dir = BASE_DIR (sys_config st)\<rparr>
             (sys_process st)) st)"

definition start_land_geom_refresh :: "request \<Rightarrow> pystr \<Rightarrow> pystr \<Rightarrow> system \<Rightarrow> outcome" where
  "start_land_geom_refresh r csrf_token ts st =
     (case build_request_context r csrf_token of
        Inl e \<Rightarrow> settled r (Inl e) st
      | Inr ctx \<Rightarrow>
          let (res, d) = start_geom_refresh_job (csrf_valid ctx) ts (sys_db st); st = st\<lparr>sys_db := d\<rparr>
          in case http_result res of
               Inl e \<Rightarrow> settled r (Inl e) st
             | Inr res \<Rightarrow>
                 (settled r (Inr (ok_json
                    [(asc ''success'', JBool (refresh_success res)), (asc ''jobId'', JInt (refresh_job_id res)),
                     (asc ''started'', JBool (refresh_started res)), (asc ''message'', JStr (refresh_message res))])) st)
                   \<lparr>out_job := if refresh_started res then Some (refresh_job_id res) else None\<rparr>)"

definition get_land_geom_refresh_status :: "int \<Rightarrow> system \<Rightarrow> admin_answer result" where
  "get_land_geom_refresh_status i st =
     bindR (http_result (get_geom_refresh_job_status i (sys_db st))) (\<lambda>job.
       Inr (ok_json [(asc ''success'', JBool True), (asc ''job'', JObj job)]))"

section \<open>The router\<close>

fun admin_handler :: "libraries \<Rightarrow> request \<Rightarrow> admin_call \<Rightarrow> system \<Rightarrow> outcome" where
  "admin_handler ext r (AdminRoot fresh updated) st = admin_root ext r fresh updated st"
| "admin_handler ext r (UploadExcel csrf_token f ts locked) st = upload_excel ext r csrf_token f ts locked st"
| "admin_handler ext r (UploadDownload csrf_token f now) st = upload_public_download_file ext r csrf_token f now st"
| "admin_handler ext r DownloadMeta st =
     settled r (bindR (get_public_download_meta (ext_lib ext) (download_config (sys_config st)) (stored (sys_process st)))
       (\<lambda>kvs. Inr (ok_json kvs))) st"
| "admin_handler ext r (UpdateSettings form_data) st = update_settings ext r form_data st"
| "admin_handler ext r (UpdatePassword csrf_token current new confirm) st =
     update_password ext r csrf_token current new confirm st"
| "admin_handler ext r (DashboardStats limit) st = settled r (Inr (get_dashboard_stats limit st)) st"
| "admin_handler ext r (GeomRefresh csrf_token ts) st = start_land_geom_refresh r csrf_token ts st"
| "admin_handler ext r (GeomRefreshStatus i) st = settled r (get_land_geom_refresh_status i st) st"
| "admin_handler ext r (WebStats now_utc days) st = web_stats_route ext r now_utc days st"
| "admin_handler ext r (ExportRawQueries interrupted event_type date_from date_to limit today) st =
     export_raw_queries ext r interrupted event_type date_from date_to limit today st"

text \<open>The dependencies: the internal network for every route, a login for every route but the root page.\<close>

definition admin_dependencies :: "RuntimeConfig \<Rightarrow> request \<Rightarrow> admin_call \<Rightarrow> unit result" where
  "admin_dependencies config r call =
     bindR (check_internal_network config r) (\<lambda>_.
       case call of AdminRoot _ _ \<Rightarrow> Inr () | _ \<Rightarrow> require_authenticated config r)"

definition admin_route :: "libraries \<Rightarrow> request \<Rightarrow> admin_call \<Rightarrow> system \<Rightarrow> outcome" where
  "admin_route ext r call st =
     (case admin_dependencies (sys_config st) r call of
        Inl e \<Rightarrow> settled r (Inl e) st
      | Inr _ \<Rightarrow> admin_handler ext r call st)"

section \<open>What the routes leave alone\<close>

text \<open>
  The data of the system: the configuration and limiters, the files, the tables. Reading the settings may
  still fill the environment and the cache.
\<close>

definition same_data :: "system \<Rightarrow> system \<Rightarrow> bool" where
  "same_data st st' \<longleftrightarrow>
     sys_app st' = sys_app st \<and> stored (sys_process st') = stored (sys_process st) \<and> sys_db st' = sys_db st \<and>
     sys_events st' = sys_events st \<and> sys_visits st' = sys_visits st"

lemma same_data_refl [simp, intro]: "same_data st st"
  by (simp add: same_data_def)

lemma settled_simps [simp]:
  "out_answer (settled r a st) = a" "out_session (settled r a st) = session r" "out_job (settled r a st) = None"
  "out_system (settled r a st) = st"
  by (simp_all add: settled_def)

lemma get_settings_stored: "stored (snd (get_settings ld basedir p)) = stored p"
  by (auto simp: get_settings_def Let_def split: option.splits sum.splits)

lemma with_settings_data [simp]: "same_data st (snd (with_settings ext st f))"
  using get_settings_stored [of "ext_dotenv ext" "ext_base_dir ext" "sys_process st"]
  by (auto simp: with_settings_def same_data_def split_beta)

lemma validate_False:
  "validate_csrf_token s t \<noteq> Inr True \<Longrightarrow> validate_csrf_token s t = Inr False \<or> (\<exists>e. validate_csrf_token s t = Inl e)"
  by (cases "validate_csrf_token s t") auto

section \<open>Guarded changes\<close>

fun csrf_of :: "admin_call \<Rightarrow> pystr option" where
  "csrf_of (UploadExcel t f ts locked) = Some t"
| "csrf_of (UploadDownload t f now) = Some t"
| "csrf_of (UpdateSettings form_data) = Some (form_get form_data (asc ''csrf_token''))"
| "csrf_of (UpdatePassword t current new confirm) = Some t"
| "csrf_of (GeomRefresh t ts) = Some t"
| "csrf_of _ = None"

definition csrf_ok :: "request \<Rightarrow> admin_call \<Rightarrow> bool" where
  "csrf_ok r call \<longleftrightarrow> (\<exists>t. csrf_of call = Some t \<and> validate_csrf_token (session r) (Some t) = Inr True)"

text \<open>Without the token a handler neither schedules a job nor changes the data.\<close>

definition untouched :: "system \<Rightarrow> outcome \<Rightarrow> bool" where
  "untouched st out \<longleftrightarrow> out_job out = None \<and> same_data st (out_system out)"

lemma untouched_settled [simp]: "untouched st (settled r a st') \<longleftrightarrow> same_data st st'"
  by (simp add: untouched_def)

lemma csrf_cases:
  assumes "validate_csrf_token (session r) (Some t) \<noteq> Inr True"
  shows "build_request_context r t = Inr (request_context r False) \<or> (\<exists>e. build_request_context r t = Inl e)"
  using validate_False [OF assms] by (auto simp: build_request_context_def)

lemma context_False [simp]: "csrf_valid (request_context r v) = v"
  by (simp add: request_context_def)

lemma untouched_upload_excel:
  "validate_csrf_token (session r) (Some t) \<noteq> Inr True \<Longrightarrow> untouched st (upload_excel ext r t f ts locked st)"
  using csrf_cases [of r t]
  by (auto simp: upload_excel_def handle_excel_upload_def validate_upload_request_def upload_error_def http_result_def
      same_data_def Let_def)

lemma untouched_upload_download:
  "validate_csrf_token (session r) (Some t) \<noteq> Inr True \<Longrightarrow> untouched st (upload_public_download_file ext r t f now st)"
  using csrf_cases [of r t]
  by (auto simp: upload_public_download_file_def handle_public_download_upload_def check_download_def same_data_def Let_def)

lemma untouched_settings:
  "validate_csrf_token (session r) (Some (form_get form_data (asc ''csrf_token''))) \<noteq> Inr True \<Longrightarrow>
   untouched st (update_settings ext r form_data st)"
  using csrf_cases [of r "form_get form_data (asc ''csrf_token'')"]
  by (auto simp: update_settings_def apply_settings_update_def rebuild_after_def http_result_def same_data_def Let_def)

lemma untouched_password:
  "validate_csrf_token (session r) (Some t) \<noteq> Inr True \<Longrightarrow> untouched st (update_password ext r t current new confirm st)"
  using csrf_cases [of r t]
  by (auto simp: update_password_def apply_password_update_def rebuild_after_def http_result_def same_data_def Let_def)

lemma untouched_refresh:
  "validate_csrf_token (session r) (Some t) \<noteq> Inr True \<Longrightarrow> untouched st (start_land_geom_refresh r t ts st)"
  using csrf_cases [of r t]
  by (auto simp: start_land_geom_refresh_def start_geom_refresh_job_def http_result_def same_data_def Let_def)

lemma untouched_root: "untouched st (admin_root ext r fresh updated st)"
  by (auto simp: admin_root_def untouched_def split_beta Let_def)

lemma handler_guarded:
  assumes "\<not> csrf_ok r call"
  shows "untouched st (admin_handler ext r call st)"
  using assms
  by (cases call)
     (auto simp: csrf_ok_def untouched_root untouched_upload_excel untouched_upload_download untouched_settings
       untouched_password untouched_refresh web_stats_route_def export_raw_queries_def split_beta)

lemma with_settings_tables [simp]:
  "sys_events (snd (with_settings ext st f)) = sys_events st" "sys_visits (snd (with_settings ext st f)) = sys_visits st"
  using with_settings_data [of st ext f] by (simp_all add: same_data_def del: with_settings_data)

lemma rebuild_after_tables [simp]:
  "sys_events (out_system (rebuild_after ext r rp st)) = sys_events st"
  "sys_visits (out_system (rebuild_after ext r rp st)) = sys_visits st"
  by (auto simp: rebuild_after_def Let_def split_beta split: sum.splits)

text \<open>No administration route writes an event.\<close>

lemma handler_tables:
  "sys_events (out_system (admin_handler ext r call st)) = sys_events st"
  "sys_visits (out_system (admin_handler ext r call st)) = sys_visits st"
  by (cases call; simp add: admin_root_def upload_excel_def upload_public_download_file_def update_settings_def
      update_password_def start_land_geom_refresh_def web_stats_route_def export_raw_queries_def split_beta Let_def
      split: sum.splits upload_result.splits)+

fun needs_login :: "admin_call \<Rightarrow> bool" where
  "needs_login (AdminRoot fresh updated) = False"
| "needs_login _ = True"

definition admitted_request :: "RuntimeConfig \<Rightarrow> request \<Rightarrow> admin_call \<Rightarrow> bool" where
  "admitted_request config r call \<longleftrightarrow>
     ensure_internal_network config r = Inr () \<and> (needs_login call \<longrightarrow> is_authenticated config r)"

lemma dependencies_pass: "admin_dependencies config r call = Inr u \<longleftrightarrow> admitted_request config r call"
  by (cases call)
     (auto simp: admitted_request_def admin_dependencies_def check_internal_network_def bindR_Inr_iff require_authenticated_def)

section \<open>Properties\<close>

text \<open>
  C6. The administration as a whole: a request from outside the internal network, or to any route but the
  root page without a login, is answered with an error and leaves the session and the whole system as
  they were; no route writes an event table; and a route changes the configuration, the files, the parcels
  or the jobs, or schedules a job, only for a request that carries the CSRF token of its session.
\<close>

theorem admin_changes_guarded:
  "case admin_route ext r call st of out \<Rightarrow>
     (if admitted_request (sys_config st) r call
      then csrf_ok r call \<or> out_job out = None \<and> same_data st (out_system out)
      else isl (out_answer out) \<and> out_session out = session r \<and> out_job out = None \<and> out_system out = st) \<and>
     sys_events (out_system out) = sys_events st \<and> sys_visits (out_system out) = sys_visits st"
proof (cases "admin_dependencies (sys_config st) r call")
  case (Inl e)
  then have "\<not> admitted_request (sys_config st) r call"
    using dependencies_pass [of "sys_config st" r call "()"] by simp
  with Inl show ?thesis by (simp only: admin_route_def sum.case settled_simps sum.disc if_False simp_thms)
next
  case (Inr u)
  with handler_guarded [of r call st ext] show ?thesis
    using dependencies_pass [of "sys_config st" r call u]
    by (auto simp: admin_route_def handler_tables untouched_def)
qed

end
