(* ===== verification/Audit_Log.thy ===== *)
theory Audit_Log
  imports Admin_Routes
begin

text \<open>
  The audit records of the program: \<open>_log_upload_audit\<close> and its callers in \<open>services/upload_service.py\<close>, the export
  records of \<open>routers/admin_support.py\<close>, the settings records of \<open>routers/admin.py\<close>, the login records of
  \<open>services/auth_service.py\<close> and the request records of \<open>clients/vworld_client.py\<close>, with the line that
  \<open>logging_utils.py\<close> makes of a record. An audited operation returns the records it writes beside its result; that its result is that of
  the operation itself is a lemma. A record has no time: the logging library adds it.
\<close>

section \<open>Records\<close>

record audit_record =
  au_event :: pystr
  au_request_id :: pystr
  au_actor :: pystr
  au_ip :: pystr
  au_status :: int
  au_extra :: payload

definition int_or_dash :: "int option \<Rightarrow> json" where
  "int_or_dash x = (case x of None \<Rightarrow> JStr [45] | Some i \<Rightarrow> JInt i)"

definition str_or_dash :: "pystr option \<Rightarrow> json" where
  "str_or_dash x = (case x of None \<Rightarrow> JStr [45] | Some s \<Rightarrow> JStr (if s = [] then [45] else s))"

section \<open>Uploads\<close>

definition log_upload_audit ::
  "RequestContext \<Rightarrow> UploadContext \<Rightarrow> pystr \<Rightarrow> int \<Rightarrow> int option \<Rightarrow> pystr option \<Rightarrow> int option \<Rightarrow> int option \<Rightarrow> int option \<Rightarrow>
   audit_record" where
  "log_upload_audit rc ctx event code size_bytes reason row_count failed_rows job =
     \<lparr>au_event = event, au_request_id = request_id rc, au_actor = actor rc, au_ip = client_ip rc, au_status = code,
      au_extra =
        [(asc ''upload_filename'', JStr (if ctx_original_filename ctx \<noteq> [] then ctx_original_filename ctx else ctx_filename ctx)),
         (asc ''content_type'', JStr (ctx_content_type ctx)), (asc ''file_size_bytes'', int_or_dash size_bytes),
         (asc ''requested_sheet'', JStr (ctx_requested_sheet ctx)), (asc ''reason'', str_or_dash reason),
         (asc ''row_count'', int_or_dash row_count), (asc ''failed_rows'', int_or_dash failed_rows),
         (asc ''geom_job_id'', int_or_dash job)]\<rparr>"

definition log_upload_rejection ::
  "RequestContext \<Rightarrow> UploadContext \<Rightarrow> string \<Rightarrow> int option \<Rightarrow> int option \<Rightarrow> int option \<Rightarrow> audit_record" where
  "log_upload_rejection rc ctx reason size_bytes row_count failed_rows =
     log_upload_audit rc ctx (asc ''admin.upload.rejected'') 400 size_bytes (Some (asc reason)) row_count failed_rows None"

text \<open>The record of the last \<open>except\<close>; it has no counts.\<close>

definition log_upload_failure :: "RequestContext \<Rightarrow> UploadContext \<Rightarrow> int option \<Rightarrow> audit_record" where
  "log_upload_failure rc ctx size_bytes =
     \<lparr>au_event = asc ''admin.upload.failed'', au_request_id = request_id rc, au_actor = actor rc, au_ip = client_ip rc, au_status = 500,
      au_extra =
        [(asc ''upload_filename'', JStr (if ctx_original_filename ctx \<noteq> [] then ctx_original_filename ctx else ctx_filename ctx)),
         (asc ''content_type'', JStr (ctx_content_type ctx)), (asc ''file_size_bytes'', int_or_dash size_bytes),
         (asc ''requested_sheet'', JStr (ctx_requested_sheet ctx)), (asc ''reason'', JStr (asc ''unexpected_exception''))]\<rparr>"

definition validate_upload_request_audited ::
  "RequestContext \<Rightarrow> UploadCommand \<Rightarrow> UploadedFileInput \<Rightarrow> UploadContext \<Rightarrow> engine result \<times> audit_record list" where
  "validate_upload_request_audited rc command file_input ctx =
     (let file_size = int (length (file_bytes file_input));
          size_limit = msg_size_limit_1 @ str_of_int (ctx_max_upload_size_mb ctx) @ msg_size_limit_2
      in if \<not> up_csrf_valid command then (Inl (AuthError 403 msg_csrf_failed), [])
      else if \<not> (endswith (ctx_filename ctx) (asc ''.xlsx'') \<or> endswith (ctx_filename ctx) (asc ''.xls''))
      then (Inl (ValidationError 400 msg_excel_only), [log_upload_rejection rc ctx ''invalid_extension'' None None None])
      else if ctx_max_upload_size_mb ctx * 1024 * 1024 < file_size
      then (Inl (ValidationError 400 size_limit), [log_upload_rejection rc ctx ''file_too_large'' (Some file_size) None None])
      else if \<not> check_excel_magic_bytes (take 8 (file_bytes file_input)) (ctx_filename ctx)
      then (Inl (ValidationError 400 msg_bad_magic), [log_upload_rejection rc ctx ''invalid_magic_bytes'' (Some file_size) None None])
      else if ctx_content_type ctx \<noteq> [] \<and> ctx_content_type ctx \<notin> ALLOWED_CONTENT_TYPES
      then (Inl (ValidationError 400 msg_bad_content_type), [log_upload_rejection rc ctx ''unsupported_content_type'' (Some file_size) None None])
      else (Inr (if endswith (ctx_filename ctx) (asc ''.xls'') then xlrd else openpyxl), []))"

definition load_upload_dataframe_audited ::
  "excel_reader \<Rightarrow> RequestContext \<Rightarrow> UploadedFileInput \<Rightarrow> UploadContext \<Rightarrow> engine \<Rightarrow> dataframe result \<times> audit_record list" where
  "load_upload_dataframe_audited reader rc file_input ctx eng =
     (load_upload_dataframe reader file_input ctx eng,
      [log_upload_audit rc ctx (asc ''admin.upload.started'') 202 (Some (int (length (file_bytes file_input)))) None None None None])"

definition validate_upload_dataframe_audited ::
  "pylib \<Rightarrow> RequestContext \<Rightarrow> int \<Rightarrow> dataframe \<Rightarrow> UploadContext \<Rightarrow>
   (upload_result + land_row list \<times> int) result \<times> audit_record list" where
  "validate_upload_dataframe_audited lib rc file_size df ctx =
     (let row_count = int (length (df_rows df)); missing = validate_required_columns df in
      if missing \<noteq> []
      then (Inl (ValidationError 400 (msg_missing_columns @ join (asc '', '') missing)),
            [log_upload_rejection rc ctx ''missing_required_columns'' (Some file_size) (Some row_count) None])
      else if ctx_max_upload_rows ctx < row_count
      then (Inl (ValidationError 400 (msg_rows_limit_1 @ str_of_int (ctx_max_upload_rows ctx) @ msg_rows_limit_2)),
            [log_upload_rejection rc ctx ''row_count_exceeded'' (Some file_size) (Some row_count) None])
      else case normalize_upload_rows lib df of
             Inl e \<Rightarrow> (Inl e, [])
           | Inr (normalized_rows, errors, total_errors) \<Rightarrow>
               if total_errors \<noteq> 0
               then (Inr (Inl (UploadRejected 400
                       [(asc ''success'', JBool False), (asc ''message'', JStr msg_validation_failed),
                        (asc ''failed'', JInt total_errors), (asc ''errors'', JList (map row_error_json errors))])),
                     [log_upload_rejection rc ctx ''row_validation_failed'' (Some file_size) (Some row_count) (Some total_errors)])
               else (Inr (Inr (normalized_rows, row_count)), []))"

definition finalize_upload_audited ::
  "bool \<Rightarrow> pystr \<Rightarrow> RequestContext \<Rightarrow> UploadContext \<Rightarrow> int \<Rightarrow> int \<Rightarrow> database \<Rightarrow>
   (upload_result result \<times> audit_record list) \<times> database" where
  "finalize_upload_audited locked ts rc ctx file_size row_count d =
     (if locked then ((Inl (OtherErr (asc ''OperationalError'')), []), d)
      else let (i, d) = enqueue_geom_update_job ts d
      in ((Inr (UploadSuccess
             [(asc ''success'', JBool True), (asc ''rows'', JInt row_count), (asc ''message'', JStr msg_upload_done),
              (asc ''geomJobId'', JInt i)] True i),
           [log_upload_audit rc ctx (asc ''admin.upload.succeeded'') 200 (Some file_size) None (Some row_count) None (Some i)]), d))"

text \<open>What the handlers of \<open>handle_excel_upload\<close> add for an exception; the size is known once the request is validated.\<close>

definition upload_error_log :: "RequestContext \<Rightarrow> UploadContext \<Rightarrow> int option \<Rightarrow> exn \<Rightarrow> audit_record list" where
  "upload_error_log rc ctx size_bytes e =
     (case e of
        ServiceError AuthClass _ _ \<Rightarrow> []
      | ServiceError ValidationClass _ _ \<Rightarrow> []
      | _ \<Rightarrow> [log_upload_failure rc ctx size_bytes])"

definition handle_excel_upload_audited ::
  "excel_reader \<Rightarrow> pylib \<Rightarrow> pystr \<Rightarrow> bool \<Rightarrow> RequestContext \<Rightarrow> UploadCommand \<Rightarrow> UploadedFileInput \<Rightarrow> database \<Rightarrow>
   (upload_result result \<times> audit_record list) \<times> database" where
  "handle_excel_upload_audited reader lib ts locked rc command file_input d =
     (let ctx = build_upload_context command file_input; file_size = int (length (file_bytes file_input));
          handled = (\<lambda>e size_bytes records d. ((upload_error e, records @ upload_error_log rc ctx size_bytes e), d))
      in case validate_upload_request_audited rc command file_input ctx of
        (Inl e, l) \<Rightarrow> handled e None l d
      | (Inr eng, l) \<Rightarrow>
      case load_upload_dataframe_audited reader rc file_input ctx eng of
        (Inl e, l') \<Rightarrow> handled e (Some file_size) (l @ l') d
      | (Inr df, l') \<Rightarrow>
      case validate_upload_dataframe_audited lib rc file_size df ctx of
        (Inl e, l'') \<Rightarrow> handled e (Some file_size) (l @ l' @ l'') d
      | (Inr (Inl rejected), l'') \<Rightarrow> ((Inr rejected, l @ l' @ l''), d)
      | (Inr (Inr (rows, row_count)), l'') \<Rightarrow>
      case replace_land_data lib rows d of
        (Inl e, d) \<Rightarrow> handled e (Some file_size) (l @ l' @ l'') d
      | (Inr _, d) \<Rightarrow>
      case finalize_upload_audited locked ts rc ctx file_size row_count d of
        ((Inl e, l'''), d) \<Rightarrow> handled e (Some file_size) (l @ l' @ l'' @ l''') d
      | ((Inr r, l'''), d) \<Rightarrow> ((Inr r, l @ l' @ l'' @ l'''), d))"

lemma validate_upload_request_audited_fst:
  "fst (validate_upload_request_audited rc command f ctx) = validate_upload_request command f ctx"
  by (simp add: validate_upload_request_audited_def validate_upload_request_def Let_def)

lemma validate_upload_dataframe_audited_fst:
  "fst (validate_upload_dataframe_audited lib rc n df ctx) = validate_upload_dataframe lib df ctx"
  by (auto simp: validate_upload_dataframe_audited_def validate_upload_dataframe_def Let_def bindR_def split: sum.splits)

text \<open>The audited upload is the upload.\<close>

lemma handle_excel_upload_audited_result:
  "handle_excel_upload reader lib ts locked command f d =
     (case handle_excel_upload_audited reader lib ts locked rc command f d of ((r, _), d') \<Rightarrow> (r, d'))"
  unfolding handle_excel_upload_def handle_excel_upload_audited_def
    validate_upload_request_audited_fst [of rc, symmetric] validate_upload_dataframe_audited_fst [of _ rc "int (length (file_bytes f))", symmetric]
  by (auto simp: Let_def load_upload_dataframe_audited_def finalize_upload_audited_def finalize_upload_def bindR_def
      split: sum.splits prod.splits)

section \<open>Logins\<close>

definition login_record :: "LoginCommand \<Rightarrow> string \<Rightarrow> int \<Rightarrow> audit_record" where
  "login_record command event code =
     \<lparr>au_event = asc event, au_request_id = request_id (cmd_context command),
      au_actor = (if cmd_username command \<noteq> [] then cmd_username command else asc ''anonymous''),
      au_ip = client_ip (cmd_context command), au_status = code, au_extra = []\<rparr>"

definition login_audited :: "checkpw \<Rightarrow> LoginCommand \<Rightarrow> LoginResult result \<times> audit_record list" where
  "login_audited checkpw command =
     (let rec = login_record command in
      if limiter_blocked command then (Inr (login_failure 429 msg_login_blocked no_action), [rec ''auth.login.blocked'' 429])
      else if \<not> csrf_valid (cmd_context command) then (Inr (login_failure 403 msg_bad_request no_action), [])
      else case compare_digest (cmd_username command) (cmd_admin_id command) of
        Inl e \<Rightarrow> (Inl e, [])
      | Inr is_id_match \<Rightarrow>
        (case check_password checkpw (cmd_password command) (admin_password_hash command) of
           Inl (ValueErr _) \<Rightarrow> (Inr (login_failure 500 msg_auth_config no_action), [rec ''auth.login.error'' 500])
         | Inl _ \<Rightarrow> (Inr (login_failure 500 msg_auth_backend no_action), [rec ''auth.login.error'' 500])
         | Inr is_pw_match \<Rightarrow>
             if is_id_match \<and> is_pw_match
             then (Inr \<lparr>login_success = True, login_status = 200, login_message = None, limiter_action = reset_action\<rparr>,
                   [rec ''auth.login.success'' 200])
             else (Inr (login_failure 401 msg_wrong_credentials register_failure_action), [rec ''auth.login.failed'' 401])))"

lemma login_audited_fst: "fst (login_audited checkpw command) = login checkpw command"
  by (simp add: login_audited_def login_def Let_def bindR_def split: sum.split exn.split)

text \<open>Every login that is answered leaves one record of its status, but for the one with a wrong token, which leaves none.\<close>

lemma login_trail:
  assumes "login_audited checkpw command = (Inr res, l)"
  shows "if login_status res = 403 then l = [] else \<exists>event. l = [login_record command event (login_status res)]"
  using assms
  by (auto simp: login_audited_def Let_def login_failure_def split: if_splits sum.splits exn.splits)

section \<open>The line of a record\<close>

text \<open>
  \<open>logging_utils.py\<close>: the filter gives a record the attributes it lacks, the formatter puts them on the line by their texts. The
  attributes of a record are a dictionary of texts; an attribute that is missing is a \<open>KeyError\<close> of the formatter.
\<close>

definition LOG_ATTRIBUTES :: "pystr list" where
  "LOG_ATTRIBUTES = map asc [''request_id'', ''event'', ''actor'', ''ip'', ''status'', ''latency_ms'']"

definition request_id_filter :: "(pystr \<times> pystr) list \<Rightarrow> (pystr \<times> pystr) list" where
  "request_id_filter attrs = fold (\<lambda>k. setdefault k [45]) LOG_ATTRIBUTES attrs"

definition format_line :: "pystr \<Rightarrow> pystr \<Rightarrow> pystr \<Rightarrow> pystr \<Rightarrow> (pystr \<times> pystr) list \<Rightarrow> pystr result" where
  "format_line asctime levelname logger_name message attrs =
     bindR (mapR (\<lambda>k. case map_of attrs k of None \<Rightarrow> Inl KeyErr | Some v \<Rightarrow> Inr v) LOG_ATTRIBUTES) (\<lambda>vs.
       Inr (asctime @ [32] @ levelname @ asc '' ['' @ logger_name @ asc '']'' @
            concat (map2 (\<lambda>label v. asc label @ v @ asc '']'')
              ['' [req:'', '' [event:'', '' [actor:'', '' [ip:'', '' [status:'', '' [latency_ms:''] vs) @ [32] @ message))"

definition record_attributes :: "audit_record \<Rightarrow> (pystr \<times> pystr) list" where
  "record_attributes a =
     [(asc ''request_id'', au_request_id a), (asc ''event'', au_event a), (asc ''actor'', au_actor a), (asc ''ip'', au_ip a),
      (asc ''status'', str_of_int (au_status a))]"

text \<open>After the filter every record has a line.\<close>

lemma filtered_attributes: "map_of (request_id_filter attrs) k =
    (case map_of attrs k of Some v \<Rightarrow> Some v | None \<Rightarrow> if k \<in> set LOG_ATTRIBUTES then Some [45] else None)"
proof -
  have "map_of (fold (\<lambda>k. setdefault k [45 :: nat]) ks attrs) k =
      (case map_of attrs k of Some v \<Rightarrow> Some v | None \<Rightarrow> if k \<in> set ks then Some [45] else None)" for ks attrs
    by (induction ks arbitrary: attrs) (auto simp: map_of_setdefault split: option.splits)
  then show ?thesis by (simp add: request_id_filter_def)
qed

lemma filtered_line: "isr (format_line asctime levelname logger_name message (request_id_filter attrs))"
proof -
  have "isr (mapR (\<lambda>k. case map_of (request_id_filter attrs) k of None \<Rightarrow> Inl KeyErr | Some v \<Rightarrow> Inr v) ks)" if "set ks \<subseteq> set LOG_ATTRIBUTES" for ks
    using that by (induction ks) (auto simp: filtered_attributes bindR_def split: option.splits sum.splits)
  from this [OF order_refl] show ?thesis by (auto simp: format_line_def bindR_def split: sum.split)
qed

text \<open>
  The text of a user name is put on the line as it is: what follows a line break in it is a line of its own, before anyone has
  logged in.
\<close>

lemma log_line_injection:
  assumes "login_audited checkpw command = (Inr res, l)" "login_status res = 401" "cmd_username command = name @ [10] @ forged"
  shows "\<exists>a before after. l = [a] \<and>
    format_line asctime levelname logger_name message (request_id_filter (record_attributes a)) = Inr (before @ [10] @ forged @ after)"
proof -
  from assms(1,2) obtain event where l: "l = [login_record command event 401]"
    using login_trail [OF assms(1)] by auto
  let ?rc = "cmd_context command"
  have "format_line asctime levelname logger_name message (request_id_filter (record_attributes (login_record command event 401))) =
      Inr ((asctime @ [32] @ levelname @ asc '' ['' @ logger_name @ asc ''] [req:'' @ request_id ?rc @ asc ''] [event:'' @ asc event @
             asc ''] [actor:'' @ name) @ [10] @ forged @
           (asc ''] [ip:'' @ client_ip ?rc @ asc ''] [status:'' @ str_of_int 401 @ asc ''] [latency_ms:-] '' @ message))"
    by (simp add: format_line_def LOG_ATTRIBUTES_def filtered_attributes record_attributes_def login_record_def assms(3) asc_Cons)
  with l show ?thesis by blast
qed

section \<open>Boundary requests\<close>

text \<open>\<open>JSONDecodeError\<close> and \<open>KeyError\<close> are named by the source; an \<open>IndexError\<close> or an \<open>AttributeError\<close> is none of them.\<close>

fun classify_vworld_outcome :: "exn \<Rightarrow> string" where
  "classify_vworld_outcome Timeout = ''timeout''"
| "classify_vworld_outcome ConnectionErr = ''transport_error''"
| "classify_vworld_outcome (HTTPStatusErr _) = ''upstream_error''"
| "classify_vworld_outcome (NonRetryableHTTPError _) = ''upstream_error''"
| "classify_vworld_outcome JSONDecodeErr = ''invalid_payload''"
| "classify_vworld_outcome KeyErr = ''invalid_payload''"
| "classify_vworld_outcome (ValueErr _) = ''invalid_payload''"
| "classify_vworld_outcome TypeErr = ''invalid_payload''"
| "classify_vworld_outcome _ = ''upstream_error''"

text \<open>A record of a request: its step, outcome and status; the latency is the clock's.\<close>

type_synonym request_log = "(string \<times> string \<times> int) list"

definition get_parcel_geometry_logged ::
  "pylib \<Rightarrow> http \<Rightarrow> VWorldClient \<Rightarrow> pystr \<Rightarrow> nat \<Rightarrow> (pystr option result \<times> nat) \<times> request_log" where
  "get_parcel_geometry_logged lib http c addr n =
     (case quote_plus addr of Inl e \<Rightarrow> ((Inl e, n), []) | Inr encoded_address \<Rightarrow>
      let (r, n) = request_json c http (geocoder_url c encoded_address) n in
      case bindR r (\<lambda>res. bindR (geocoder_status res) (\<lambda>st. Inr (res, st = JStr (asc ''OK'')))) of
        Inl e \<Rightarrow> ((Inr None, n), [(''geocoder'', classify_vworld_outcome e, 500)])
      | Inr (res, ok) \<Rightarrow>
          let geocoded = (''geocoder'', if ok then ''success'' else ''not_found'', 200) in
          if \<not> ok then ((Inr None, n), [geocoded])
          else case geocoder_point res of
            Inl _ \<Rightarrow> ((Inr None, n), [geocoded])
          | Inr (x, y) \<Rightarrow>
              let (w, n) = request_json c http (wfs_url c (py_str (lib_str lib) x) (py_str (lib_str lib) y)) n in
              case w of
                Inl e \<Rightarrow> ((Inr None, n), [geocoded, (''wfs'', classify_vworld_outcome e, 500)])
              | Inr wfs_res \<Rightarrow>
                  ((bindR (wfs_geometry lib wfs_res x y) (\<lambda>g. Inr (Some g)), n), [geocoded, (''wfs'', ''success'', 200)]))"

lemma get_parcel_geometry_logged_fst: "fst (get_parcel_geometry_logged lib http c addr n) = get_parcel_geometry lib http c addr n"
  by (auto simp: get_parcel_geometry_logged_def get_parcel_geometry_def Let_def split: sum.split prod.split)

text \<open>A boundary was found only after two successes; the second request is made only after the first succeeded.\<close>

lemma geometry_log_shape:
  assumes "get_parcel_geometry_logged lib http c addr n = ((r, n'), l)"
  shows "length l \<le> 2 \<and> (\<forall>g. r = Inr (Some g) \<longrightarrow> l = [(''geocoder'', ''success'', 200), (''wfs'', ''success'', 200)]) \<and>
    (length l = 2 \<longrightarrow> hd l = (''geocoder'', ''success'', 200))"
  using assms
  by (auto simp: get_parcel_geometry_logged_def Let_def split: sum.splits prod.splits if_splits)

section \<open>Exports\<close>

text \<open>The part that the three records of an export share.\<close>

definition raw_query_export_log_context ::
  "pystr \<Rightarrow> pystr option \<Rightarrow> pystr option \<Rightarrow> int \<Rightarrow> pystr \<Rightarrow> payload" where
  "raw_query_export_log_context event_type date_from date_to limit filename =
     [(asc ''event_type_filter'', JStr event_type), (asc ''date_from'', str_or_dash date_from), (asc ''date_to'', str_or_dash date_to),
      (asc ''requested_limit'', JInt limit), (asc ''export_filename'', JStr filename)]"

definition request_record :: "request \<Rightarrow> string \<Rightarrow> int \<Rightarrow> payload \<Rightarrow> audit_record" where
  "request_record r event code extra =
     (let rc = request_context r True
      in \<lparr>au_event = asc event, au_request_id = request_id rc, au_actor = actor rc, au_ip = client_ip rc, au_status = code, au_extra = extra\<rparr>)"

definition log_raw_query_export_rejected :: "request \<Rightarrow> payload \<Rightarrow> int \<Rightarrow> pystr \<Rightarrow> audit_record" where
  "log_raw_query_export_rejected r ctx code message =
     request_record r ''admin.raw_queries_export.rejected'' code
       (ctx @ [(asc ''effective_limit'', JStr [45]), (asc ''exported_row_count'', JStr [45]),
               (asc ''reason'', JStr (if message \<noteq> [] then message else asc ''invalid_request''))])"

definition log_raw_query_export_failed :: "request \<Rightarrow> payload \<Rightarrow> audit_record" where
  "log_raw_query_export_failed r ctx =
     request_record r ''admin.raw_queries_export.failed'' 500
       (ctx @ [(asc ''effective_limit'', JStr [45]), (asc ''exported_row_count'', JStr [45]), (asc ''reason'', JStr (asc ''unexpected_exception''))])"

definition log_raw_query_export_succeeded :: "request \<Rightarrow> payload \<Rightarrow> int \<Rightarrow> int \<Rightarrow> audit_record" where
  "log_raw_query_export_succeeded r ctx eff_limit row_count =
     request_record r ''admin.raw_queries_export.succeeded'' 200
       (ctx @ [(asc ''effective_limit'', JInt eff_limit), (asc ''exported_row_count'', JInt row_count)])"

definition export_raw_queries_audited ::
  "libraries \<Rightarrow> request \<Rightarrow> bool \<Rightarrow> pystr \<Rightarrow> pystr option \<Rightarrow> pystr option \<Rightarrow> int \<Rightarrow> pystr \<Rightarrow> system \<Rightarrow> outcome \<times> audit_record list" where
  "export_raw_queries_audited ext r interrupted event_type date_from date_to limit today st =
     (let filename = raw_query_export_filename today;
          ctx = raw_query_export_log_context event_type date_from date_to limit filename;
          (a, st') = with_settings ext st (\<lambda>settings.
            export_raw_query_csv interrupted
              \<lparr>ec_event_type = event_type, ec_date_from = date_from, ec_date_to = date_to, ec_limit = limit,
               ec_max_rows = raw_query_export_max_rows settings\<rparr> (sys_events st))
      in case a of
           Inl (ServiceError _ code message) \<Rightarrow>
             (settled r (Inl (HTTPException code message)) st', [log_raw_query_export_rejected r ctx code message])
         | Inl e \<Rightarrow> (settled r (Inl e) st', [log_raw_query_export_failed r ctx])
         | Inr res \<Rightarrow>
             (settled r (Inr (raw_query_export_response res filename)) st',
              [log_raw_query_export_succeeded r ctx (export_effective_limit res) (export_row_count res)]))"

lemma export_raw_queries_audited_fst:
  "fst (export_raw_queries_audited ext r i et df dt n today st) = export_raw_queries ext r i et df dt n today st"
proof (cases "with_settings ext st (\<lambda>settings. export_raw_query_csv i
    \<lparr>ec_event_type = et, ec_date_from = df, ec_date_to = dt, ec_limit = n, ec_max_rows = raw_query_export_max_rows settings\<rparr> (sys_events st))")
  case (Pair a st')
  then show ?thesis
    by (cases a) (auto simp: export_raw_queries_audited_def export_raw_queries_def http_result_def Let_def split: exn.split)
qed

section \<open>The administration\<close>

definition update_record :: "request \<Rightarrow> string \<Rightarrow> outcome \<Rightarrow> audit_record list" where
  "update_record r event out = (case out_answer out of Inl _ \<Rightarrow> [] | Inr _ \<Rightarrow> [request_record r event 303 []])"

definition upload_excel_audit :: "libraries \<Rightarrow> request \<Rightarrow> pystr \<Rightarrow> UploadedFileInput \<Rightarrow> pystr \<Rightarrow> bool \<Rightarrow> system \<Rightarrow> audit_record list" where
  "upload_excel_audit ext r csrf_token f ts locked st =
     (case build_request_context r csrf_token of
        Inl e \<Rightarrow> []
      | Inr ctx \<Rightarrow>
          snd (fst (handle_excel_upload_audited (ext_reader ext) (ext_lib ext) ts locked ctx
             \<lparr>up_csrf_valid = csrf_valid ctx, up_requested_sheet = UPLOAD_SHEET_NAME (sys_config st),
              up_max_size_mb = MAX_UPLOAD_SIZE_MB (sys_config st), up_max_rows = MAX_UPLOAD_ROWS (sys_config st)\<rparr>
             f (sys_db st))))"

text \<open>The records of a route: nothing is recorded of a request that its dependencies refuse.\<close>

fun handler_audit :: "libraries \<Rightarrow> request \<Rightarrow> admin_call \<Rightarrow> system \<Rightarrow> audit_record list" where
  "handler_audit ext r (UploadExcel csrf_token f ts locked) st = upload_excel_audit ext r csrf_token f ts locked st"
| "handler_audit ext r (UpdateSettings form_data) st =
     update_record r ''admin.settings.updated'' (update_settings ext r form_data st)"
| "handler_audit ext r (UpdatePassword csrf_token current new confirm) st =
     update_record r ''admin.password.updated'' (update_password ext r csrf_token current new confirm st)"
| "handler_audit ext r (ExportRawQueries interrupted event_type date_from date_to limit today) st =
     snd (export_raw_queries_audited ext r interrupted event_type date_from date_to limit today st)"
| "handler_audit ext r _ st = []"

definition admin_audit :: "libraries \<Rightarrow> request \<Rightarrow> admin_call \<Rightarrow> system \<Rightarrow> audit_record list" where
  "admin_audit ext r call st =
     (case admin_dependencies (sys_config st) r call of Inl _ \<Rightarrow> [] | Inr _ \<Rightarrow> handler_audit ext r call st)"

section \<open>One closing record\<close>

definition signed :: "RequestContext \<Rightarrow> audit_record \<Rightarrow> bool" where
  "signed rc a \<longleftrightarrow> au_request_id a = request_id rc \<and> au_actor a = actor rc \<and> au_ip a = client_ip rc"

fun exn_status :: "exn \<Rightarrow> int" where
  "exn_status (HTTPException code _) = code"
| "exn_status (ServiceError _ code _) = code"
| "exn_status _ = 500"

definition upload_status :: "upload_result result \<Rightarrow> int" where
  "upload_status r = (case r of Inl e \<Rightarrow> exn_status e | Inr (UploadRejected code _) \<Rightarrow> code | Inr (UploadSuccess _ _ _) \<Rightarrow> 200)"

definition ending :: "int \<Rightarrow> string" where
  "ending code = (if code = 200 then ''admin.upload.succeeded'' else if code = 400 then ''admin.upload.rejected'' else ''admin.upload.failed'')"

text \<open>At most a start, then exactly one record that closes the upload and agrees with the answer.\<close>

definition closed_trail :: "RequestContext \<Rightarrow> int \<Rightarrow> audit_record list \<Rightarrow> bool" where
  "closed_trail rc code l \<longleftrightarrow>
     (\<exists>begun final. l = begun @ [final] \<and> map au_event begun \<in> {[], [asc ''admin.upload.started'']} \<and>
        list_all (signed rc) l \<and> au_status final = code \<and> au_event final = asc (ending code))"

definition foreign_reader :: "excel_reader \<Rightarrow> bool" where
  "foreign_reader reader \<longleftrightarrow>
     (\<forall>bs eng. case reader bs eng of
        Inl e \<Rightarrow> \<not> is_service_error e
      | Inr (names, read_sheet) \<Rightarrow> (\<forall>s e. read_sheet s = Inl e \<longrightarrow> \<not> is_service_error e))"

lemma load_error:
  assumes "foreign_reader reader" "load_upload_dataframe reader f ctx eng = Inl e"
  shows "\<not> is_service_error e"
  using assms spec [OF spec [OF assms(1) [unfolded foreign_reader_def], of "file_bytes f"], of eng]
  by (auto simp: load_upload_dataframe_def bindR_def split: sum.splits if_splits list.splits)

lemma normalize_row_error: "normalize_row lib idx row acc = Inl e \<Longrightarrow> \<not> is_service_error e"
  by (auto simp: normalize_row_def parse_area_def Let_def bindR_def
      split: prod.splits if_splits sum.splits option.splits exn.splits dest!: cell_float_errors)

lemma normalize_rows_error: "normalize_rows_from lib idx rows acc = Inl e \<Longrightarrow> \<not> is_service_error e"
  by (induction rows arbitrary: idx acc) (auto simp: bindR_Inl_iff dest: normalize_row_error)

lemma py_float_error: "py_float s = Inl e \<Longrightarrow> e = ValueErr None"
  by (auto simp: py_float_def Let_def split: if_splits option.splits prod.splits)

lemma insert_rows_error: "fst (insert_rows lib known rows c) = Inl e \<Longrightarrow> e = ValueErr None"
  by (induction rows arbitrary: c) (auto split: sum.splits dest: py_float_error)

lemma replace_error: "replace_land_data lib rows d = (Inl e, d') \<Longrightarrow> \<not> is_service_error e"
  using insert_rows_error [of lib "fetch_geom_by_address (poi d)" rows "on_poi delete_all \<lparr>work = d, disk = d\<rparr>" e]
  by (auto simp: replace_land_data_def store_rows_def db_connection_def split: prod.splits sum.splits)

lemma upload_error_foreign:
  "\<not> is_service_error e \<Longrightarrow> upload_status (upload_error e) = 500 \<and> upload_error_log rc ctx n e = [log_upload_failure rc ctx n]"
  by (cases e) (auto simp: upload_error_def upload_error_log_def upload_status_def)

lemma upload_error_validation:
  "upload_status (upload_error (ValidationError 400 m)) = 400 \<and> upload_error_log rc ctx n (ValidationError 400 m) = []"
  by (simp add: upload_error_def upload_error_log_def upload_status_def)

lemma record_simps [simp]:
  "signed rc (log_upload_rejection rc ctx reason n m k)" "au_status (log_upload_rejection rc ctx reason n m k) = 400"
  "au_event (log_upload_rejection rc ctx reason n m k) = asc ''admin.upload.rejected''"
  "signed rc (log_upload_failure rc ctx n)" "au_status (log_upload_failure rc ctx n) = 500"
  "au_event (log_upload_failure rc ctx n) = asc ''admin.upload.failed''"
  "signed rc (log_upload_audit rc ctx ev code n why m k j)" "au_status (log_upload_audit rc ctx ev code n why m k j) = code"
  "au_event (log_upload_audit rc ctx ev code n why m k j) = ev"
  by (simp_all add: signed_def log_upload_rejection_def log_upload_failure_def log_upload_audit_def)

lemma closed_trail_one:
  "closed_trail rc code [final] \<longleftrightarrow> signed rc final \<and> au_status final = code \<and> au_event final = asc (ending code)"
  by (auto simp: closed_trail_def)

lemma closed_trail_two:
  "closed_trail rc code [start, final] \<longleftrightarrow> au_event start = asc ''admin.upload.started'' \<and>
     signed rc start \<and> signed rc final \<and> au_status final = code \<and> au_event final = asc (ending code)"
proof -
  have "[start, final] = begun @ [f] \<longleftrightarrow> begun = [start] \<and> f = final" for begun f
    by (cases begun rule: rev_cases) auto
  then show ?thesis by (auto simp: closed_trail_def)
qed

lemmas closed_trails = closed_trail_one closed_trail_two

lemma validate_request_trail:
  assumes "up_csrf_valid command" "validate_upload_request_audited rc command f ctx = (r, l)"
  shows "case r of Inl e \<Rightarrow> (\<exists>m. e = ValidationError 400 m) \<and> closed_trail rc 400 l | Inr _ \<Rightarrow> l = []"
  using assms by (auto simp: validate_upload_request_audited_def Let_def closed_trails ending_def split: if_splits)

lemma validate_dataframe_trail:
  assumes "validate_upload_dataframe_audited lib rc n df ctx = (r, l)"
  shows "case r of
      Inl e \<Rightarrow> \<not> is_service_error e \<and> l = [] \<or> (\<exists>m. e = ValidationError 400 m) \<and> closed_trail rc 400 l \<and> length l = 1
    | Inr (Inl rejected) \<Rightarrow> upload_status (Inr rejected) = 400 \<and> closed_trail rc 400 l \<and> length l = 1
    | Inr (Inr _) \<Rightarrow> l = []"
  using assms normalize_rows_error [of lib 0 "df_rows df" "([], [], 0)"]
  by (auto simp: validate_upload_dataframe_audited_def Let_def closed_trails ending_def upload_status_def normalize_upload_rows_def
      split: if_splits sum.splits prod.splits)

lemma closed_after_start:
  assumes "closed_trail rc code l" "length l = 1" "signed rc a" "au_event a = asc ''admin.upload.started''"
  shows "closed_trail rc code (a # l)"
  using assms by (cases l) (auto simp: closed_trails)

text \<open>The same for a sheet that passed: stored and accepted, or failed in the table, or stored without a job.\<close>

lemma stored_trail:
  assumes run: "handle_excel_upload_audited reader lib ts locked rc command f d = ((r, l), d')"
    and passed: "validate_upload_request_audited rc command f (build_upload_context command f) = (Inr eng, [])"
      "load_upload_dataframe reader f (build_upload_context command f) eng = Inr df"
      "validate_upload_dataframe_audited lib rc (int (length (file_bytes f))) df (build_upload_context command f) =
         (Inr (Inr (rows, row_count)), [])"
  shows "closed_trail rc (upload_status r) l \<and> (d' \<noteq> d \<longrightarrow> upload_status r = (if locked then 500 else 200))"
proof (cases "replace_land_data lib rows d")
  case (Pair s d1)
  let ?ctx = "build_upload_context command f" and ?n = "int (length (file_bytes f))"
  let ?start = "log_upload_audit rc ?ctx (asc ''admin.upload.started'') 202 (Some ?n) None None None None"
  note unroll = handle_excel_upload_audited_def Let_def load_upload_dataframe_audited_def passed Pair
  show ?thesis
  proof (cases s)
    case (Inl e)
    with Pair have e: "\<not> is_service_error e" "d1 = d" using replace_error replace_land_data_atomic by blast+
    from run Inl have "r = upload_error e" "l = [?start] @ upload_error_log rc ?ctx (Some ?n) e" "d' = d1" by (auto simp: unroll)
    with upload_error_foreign [OF e(1), of rc ?ctx "Some ?n"] e(2) show ?thesis by (simp add: closed_trails ending_def)
  next
    case (Inr u)
    show ?thesis
    proof (cases locked)
      case True
      with run Inr have "r = upload_error (OtherErr (asc ''OperationalError''))"
          "l = [?start] @ upload_error_log rc ?ctx (Some ?n) (OtherErr (asc ''OperationalError''))"
        by (auto simp: unroll finalize_upload_audited_def)
      with True upload_error_foreign [of "OtherErr (asc ''OperationalError'')" rc ?ctx "Some ?n"] show ?thesis
        by (simp add: closed_trails ending_def)
    next
      case False
      with run Inr show ?thesis
        by (auto simp: unroll finalize_upload_audited_def upload_status_def closed_trails ending_def split: prod.splits)
    qed
  qed
qed

lemma upload_trail:
  assumes reader: "foreign_reader reader" and csrf: "up_csrf_valid command"
    and run: "handle_excel_upload_audited reader lib ts locked rc command f d = ((r, l), d')"
  shows "closed_trail rc (upload_status r) l \<and> (d' \<noteq> d \<longrightarrow> upload_status r = (if locked then 500 else 200))"
proof -
  let ?ctx = "build_upload_context command f" and ?n = "int (length (file_bytes f))"
  let ?start = "log_upload_audit rc ?ctx (asc ''admin.upload.started'') 202 (Some ?n) None None None None"
  note unroll = handle_excel_upload_audited_def Let_def load_upload_dataframe_audited_def
  have failed: "closed_trail rc 500 [?start, log_upload_failure rc ?ctx (Some ?n)]" by (simp add: closed_trails ending_def)
  note foreign = upload_error_foreign [where rc = rc and ctx = ?ctx and n = "Some ?n"]
  obtain q l1 where req: "validate_upload_request_audited rc command f ?ctx = (q, l1)" by fastforce
  note trail1 = validate_request_trail [OF csrf req]
  show ?thesis
  proof (cases q)
    case (Inl e)
    with trail1 obtain m where "e = ValidationError 400 m" "closed_trail rc 400 l1" by auto
    with run req Inl show ?thesis using upload_error_validation [of m rc ?ctx None] by (auto simp: unroll)
  next
    case (Inr eng)
    with trail1 req have req: "validate_upload_request_audited rc command f ?ctx = (Inr eng, [])" by simp
    show ?thesis
    proof (cases "load_upload_dataframe reader f ?ctx eng")
      case (Inl e)
      with run req have "r = upload_error e" "l = [?start] @ upload_error_log rc ?ctx (Some ?n) e" "d' = d" by (auto simp: unroll)
      with foreign [OF load_error [OF reader Inl]] failed show ?thesis by simp
    next
      case (Inr df)
      obtain v l2 where val: "validate_upload_dataframe_audited lib rc ?n df ?ctx = (v, l2)" by fastforce
      note trail2 = validate_dataframe_trail [OF val]
      consider e where "v = Inl e" | rejected where "v = Inr (Inl rejected)" | rows n where "v = Inr (Inr (rows, n))"
        by (metis sum.exhaust surj_pair)
      then show ?thesis
      proof cases
        case (1 e)
        with run req Inr val have "r = upload_error e" "l = ?start # l2 @ upload_error_log rc ?ctx (Some ?n) e" "d' = d"
          by (auto simp: unroll)
        with trail2 1 foreign [of e] failed show ?thesis by (auto simp: upload_error_validation intro: closed_after_start)
      next
        case (2 rejected)
        with run req Inr val have "r = Inr rejected" "l = ?start # l2" "d' = d" by (auto simp: unroll)
        with trail2 2 show ?thesis by (auto intro: closed_after_start)
      next
        case (3 rows n)
        with trail2 val show ?thesis by (intro stored_trail [OF run req Inr]) simp
      qed
    qed
  qed
qed

section \<open>Property\<close>

text \<open>The answer of a route as a status, and whether the program owes a record of it.\<close>

fun reply_status :: "reply \<Rightarrow> int" where
  "reply_status (JSONResponse code _) = code"
| "reply_status (RedirectResponse code _) = code"
| "reply_status _ = 200"

definition answer_status :: "admin_answer result \<Rightarrow> int" where
  "answer_status a = (case a of Inl e \<Rightarrow> exn_status e | Inr (Reply r _) \<Rightarrow> reply_status r | Inr _ \<Rightarrow> 200)"

definition owes_record :: "request \<Rightarrow> admin_call \<Rightarrow> outcome \<Rightarrow> bool" where
  "owes_record r call out \<longleftrightarrow>
     (case call of
        UploadExcel _ _ _ _ \<Rightarrow> csrf_ok r call
      | ExportRawQueries _ _ _ _ _ _ \<Rightarrow> True
      | UpdateSettings _ \<Rightarrow> isr (out_answer out)
      | UpdatePassword _ _ _ _ \<Rightarrow> isr (out_answer out)
      | _ \<Rightarrow> False)"

definition trail_of :: "request \<Rightarrow> int \<Rightarrow> audit_record list \<Rightarrow> bool" where
  "trail_of r code l \<longleftrightarrow>
     (\<exists>begun final. l = begun @ [final] \<and> map au_event begun \<in> {[], [asc ''admin.upload.started'']} \<and>
        list_all (signed (request_context r True)) l \<and> au_status final = code)"

lemma trail_of_one: "signed (request_context r True) a \<Longrightarrow> trail_of r (au_status a) [a]"
  by (auto simp: trail_of_def)

lemma signed_request: "signed (request_context r v) = signed (request_context r True)"
  by (simp add: signed_def request_context_def fun_eq_iff)

lemma closed_trail_of: "closed_trail (request_context r v) code l \<Longrightarrow> trail_of r code l"
  by (auto simp: closed_trail_def trail_of_def signed_request [of r v])

lemma closed_trail_last: "closed_trail rc code l \<Longrightarrow> au_event (last l) = asc (ending code)"
  by (auto simp: closed_trail_def)

lemma request_record_simps [simp]:
  "signed (request_context r True) (request_record r event code extra)" "au_status (request_record r event code extra) = code"
  by (simp_all add: signed_def request_record_def Let_def)

lemma unsigned_upload:
  "\<not> up_csrf_valid command \<Longrightarrow> snd (fst (handle_excel_upload_audited reader lib ts locked rc command f d)) = []"
  by (simp add: handle_excel_upload_audited_def validate_upload_request_audited_def upload_error_log_def Let_def)

lemma csrf_ok_upload:
  "csrf_ok r (UploadExcel t f ts locked) \<longleftrightarrow> build_request_context r t = Inr (request_context r True)"
  by (cases "validate_csrf_token (session r) (Some t)")
    (auto simp: csrf_ok_def build_request_context_def request_context_def)

lemma upload_audit_refused:
  "\<not> csrf_ok r (UploadExcel t f ts locked) \<Longrightarrow> upload_excel_audit ext r t f ts locked st = []"
  using csrf_cases [of r t]
  by (auto simp: csrf_ok_def upload_excel_audit_def unsigned_upload)

lemma exn_status_raised [simp]: "exn_status (raise_http_from_service_error e) = exn_status e"
  by (cases e) simp_all

lemma upload_excel_settled:
  assumes "build_request_context r t = Inr ctx"
    and "handle_excel_upload (ext_reader ext) (ext_lib ext) ts locked
      \<lparr>up_csrf_valid = csrf_valid ctx, up_requested_sheet = UPLOAD_SHEET_NAME (sys_config st),
       up_max_size_mb = MAX_UPLOAD_SIZE_MB (sys_config st), up_max_rows = MAX_UPLOAD_ROWS (sys_config st)\<rparr> f (sys_db st) = (res, d)"
  shows "answer_status (out_answer (upload_excel ext r t f ts locked st)) = upload_status res"
    and "sys_db (out_system (upload_excel ext r t f ts locked st)) = d"
proof -
  have "answer_status (out_answer (upload_excel ext r t f ts locked st)) = upload_status res \<and>
      sys_db (out_system (upload_excel ext r t f ts locked st)) = d"
  proof (cases res)
    case (Inl e)
    then show ?thesis by (simp add: upload_excel_def assms Let_def http_result_def answer_status_def upload_status_def)
  next
    case (Inr u)
    then show ?thesis
      by (cases u) (simp_all add: upload_excel_def assms Let_def http_result_def answer_status_def upload_status_def ok_json_def)
  qed
  then show "answer_status (out_answer (upload_excel ext r t f ts locked st)) = upload_status res"
    "sys_db (out_system (upload_excel ext r t f ts locked st)) = d" by simp_all
qed

lemma upload_excel_trail:
  assumes "foreign_reader (ext_reader ext)" "csrf_ok r (UploadExcel t f ts locked)"
    and out: "out = upload_excel ext r t f ts locked st" and l: "l = upload_excel_audit ext r t f ts locked st"
  shows "trail_of r (answer_status (out_answer out)) l \<and> au_event (last l) = asc (ending (answer_status (out_answer out))) \<and>
    (sys_db (out_system out) \<noteq> sys_db st \<longrightarrow> answer_status (out_answer out) = (if locked then 500 else 200))"
proof -
  let ?rc = "request_context r True"
  let ?command = "\<lparr>up_csrf_valid = csrf_valid ?rc, up_requested_sheet = UPLOAD_SHEET_NAME (sys_config st),
       up_max_size_mb = MAX_UPLOAD_SIZE_MB (sys_config st), up_max_rows = MAX_UPLOAD_ROWS (sys_config st)\<rparr>"
  have ctx: "build_request_context r t = Inr ?rc" using assms(2) by (simp add: csrf_ok_upload)
  obtain res l' d where run: "handle_excel_upload_audited (ext_reader ext) (ext_lib ext) ts locked ?rc ?command f (sys_db st) = ((res, l'), d)"
    by (metis surj_pair)
  then have "handle_excel_upload (ext_reader ext) (ext_lib ext) ts locked ?command f (sys_db st) = (res, d)"
    by (simp add: handle_excel_upload_audited_result [where rc = ?rc])
  note settled = upload_excel_settled [OF ctx this, folded out]
  have l': "l = l'" using run by (simp add: l upload_excel_audit_def ctx)
  have "closed_trail ?rc (upload_status res) l' \<and> (d \<noteq> sys_db st \<longrightarrow> upload_status res = (if locked then 500 else 200))"
    by (rule upload_trail [OF assms(1) _ run]) simp
  then show ?thesis
    using closed_trail_of closed_trail_last [of ?rc "upload_status res" l'] by (auto simp: settled l')
qed

text \<open>
  An exception of the web framework comes from the routes only: what reads the settings or the logs raises none.
\<close>

named_theorems internal_intros

definition internal :: "'a result \<Rightarrow> bool" where
  "internal m \<longleftrightarrow> (\<forall>code text. m \<noteq> Inl (HTTPException code text))"

lemma internal_Inr [internal_intros]: "internal (Inr x)"
  by (simp add: internal_def)

lemma internal_errors [internal_intros]:
  "internal (Inl (ServiceError c n m))" "internal (Inl (SettingsError m))" "internal (Inl (ValueErr v))" "internal (Inl OverflowErr)"
  by (simp_all add: internal_def)

lemma internal_bindR [internal_intros]: "internal m \<Longrightarrow> (\<And>x. internal (f x)) \<Longrightarrow> internal (bindR m f)"
  by (cases m) (auto simp: internal_def)

lemma internal_if [internal_intros]: "internal a \<Longrightarrow> internal b \<Longrightarrow> internal (if c then a else b)"
  by simp

lemma internal_option [internal_intros]: "internal a \<Longrightarrow> (\<And>x. internal (f x)) \<Longrightarrow> internal (case v of None \<Rightarrow> a | Some x \<Rightarrow> f x)"
  by (simp split: option.split)

lemma internal_mapR [internal_intros]: "(\<And>x. internal (f x)) \<Longrightarrow> internal (mapR f xs)"
  by (induction xs) (auto intro: internal_intros)

lemma internal_settings_error [internal_intros]: "internal m \<Longrightarrow> internal (settings_error_of m msg)"
  by (cases m) (auto simp: internal_def settings_error_of_def split: exn.split)

lemma internal_decode [internal_intros]: "internal (decode_utf8 bs)"
proof (induction bs rule: length_induct)
  case (1 bs)
  then show ?case
    by (cases bs) (auto simp: Let_def split: option.split intro!: internal_intros)
qed

lemma internal_parsers [internal_intros]: "internal (py_int s)" "internal (py_float s)" "internal (ip_network s)"
  by (auto simp: py_int_def py_float_def ip_network_def Let_def internal_def split: prod.splits option.splits)

lemma internal_settings [internal_intros]:
  "internal (get_required_env e k)" "internal (validate_admin_hash h)" "internal (parse_allowed_ips s)" "internal (parse_network_list s)"
  "internal (parse_bool_env e k d)" "internal (parse_session_cookie_name v)" "internal (parse_session_namespace v)"
  "internal (parse_allowed_exts s)" "internal (parse_allowed_web_track_paths s)"
  unfolding get_required_env_def validate_admin_hash_def parse_allowed_ips_def parse_network_list_def parse_bool_env_def
    parse_session_cookie_name_def parse_session_namespace_def parse_allowed_exts_def parse_allowed_web_track_paths_def Let_def
  by (intro internal_intros)+

lemma internal_build_settings [internal_intros]: "internal (build_settings basedir e)"
  unfolding build_settings_def by (intro internal_intros)

lemma internal_get_settings [internal_intros]: "internal (fst (get_settings ld basedir p))"
proof (cases "settings_cache p")
  case None
  have "internal (read_text (env_path basedir) (stored p))"
    unfolding read_text_def by (intro internal_intros)
  with None internal_build_settings [of basedir] show ?thesis
    by (auto simp: get_settings_def Let_def internal_def split: sum.splits)
qed (simp add: get_settings_def internal_Inr)

lemma internal_export [internal_intros]: "internal (export_raw_query_csv interrupted command d)"
  unfolding export_raw_query_csv_def validate_raw_query_export_command_def parse_date_start_def parse_date_end_exclusive_def
    fetch_raw_query_export_rows_def fetch_raw_query_logs_def
  by (intro internal_intros | (simp add: internal_intros split: sum.split))+

lemma internal_with_settings: "(\<And>s. internal (f s)) \<Longrightarrow> internal (fst (with_settings ext st f))"
  using internal_get_settings [of "ext_dotenv ext" "ext_base_dir ext" "sys_process st"]
  by (auto simp: with_settings_def split_beta intro: internal_bindR)

lemma export_trail:
  "trail_of r (answer_status (out_answer (export_raw_queries ext r i et df dt n today st)))
     (snd (export_raw_queries_audited ext r i et df dt n today st))"
proof (cases "with_settings ext st (\<lambda>settings. export_raw_query_csv i
    \<lparr>ec_event_type = et, ec_date_from = df, ec_date_to = dt, ec_limit = n, ec_max_rows = raw_query_export_max_rows settings\<rparr> (sys_events st))")
  case (Pair a st')
  have "internal (fst (with_settings ext st (\<lambda>settings. export_raw_query_csv i
      \<lparr>ec_event_type = et, ec_date_from = df, ec_date_to = dt, ec_limit = n, ec_max_rows = raw_query_export_max_rows settings\<rparr> (sys_events st))))"
    by (rule internal_with_settings) (rule internal_export)
  then have "internal a" by (simp add: Pair)
  with Pair show ?thesis
    unfolding export_raw_queries_audited_fst [symmetric]
    by (cases a)
      (auto simp: internal_def export_raw_queries_audited_def Let_def answer_status_def raw_query_export_response_def log_raw_query_export_rejected_def
        log_raw_query_export_failed_def log_raw_query_export_succeeded_def trail_of_def split: exn.split)
qed

lemma rebuild_after_status: "isr (out_answer (rebuild_after ext r rp st)) \<Longrightarrow> answer_status (out_answer (rebuild_after ext r rp st)) = 303"
  by (auto simp: rebuild_after_def Let_def answer_status_def split: sum.splits prod.splits)

lemma update_status:
  "isr (out_answer (update_settings ext r form_data st)) \<Longrightarrow> answer_status (out_answer (update_settings ext r form_data st)) = 303"
  "isr (out_answer (update_password ext r t current new confirm st)) \<Longrightarrow>
     answer_status (out_answer (update_password ext r t current new confirm st)) = 303"
  by (auto simp: update_settings_def update_password_def rebuild_after_status split: sum.splits)

lemma update_trail:
  assumes "isr (out_answer out) \<Longrightarrow> answer_status (out_answer out) = 303"
  shows "if isr (out_answer out) then trail_of r (answer_status (out_answer out)) (update_record r event out)
    else update_record r event out = []"
  using assms by (cases "out_answer out") (auto simp: update_record_def trail_of_def)

lemma handler_trail:
  assumes "foreign_reader (ext_reader ext)"
    and out: "out = admin_handler ext r call st" and l: "l = handler_audit ext r call st"
  shows "if owes_record r call out
    then trail_of r (answer_status (out_answer out)) l \<and>
         (case call of
            UploadExcel t f ts locked \<Rightarrow>
              au_event (last l) = asc (ending (answer_status (out_answer out))) \<and>
              (sys_db (out_system out) \<noteq> sys_db st \<longrightarrow> answer_status (out_answer out) = (if locked then 500 else 200))
          | _ \<Rightarrow> True)
    else l = []"
proof (cases call)
  case (UploadExcel t f ts locked)
  then show ?thesis
    using upload_excel_trail [OF assms(1), of r t f ts locked out st l] upload_audit_refused [of r t f ts locked ext st]
    by (simp add: out l owes_record_def)
next
  case (UpdateSettings form_data)
  then show ?thesis
    using update_trail [OF update_status(1) [of ext r form_data st], of r "''admin.settings.updated''"]
    by (simp add: owes_record_def l out)
next
  case (UpdatePassword t current new confirm)
  then show ?thesis
    using update_trail [OF update_status(2) [of ext r t current new confirm st], of r "''admin.password.updated''"]
    by (simp add: owes_record_def l out)
next
  case (ExportRawQueries i et df dt n today)
  then show ?thesis using export_trail by (simp add: out l owes_record_def)
qed (simp_all add: owes_record_def l)

text \<open>
  C37. The audit trail. Of a request that passes the dependencies, an upload with the CSRF token of its session and an export
  of raw queries always leave a trail, a settings or password update does when it succeeds: at most the record of a start,
  then exactly one record whose status is that of the answer, all of them with the request id, the user and the address of
  the request. The last record of an upload says accepted, rejected or failed as its status says; an upload that changed the
  parcels or the jobs was accepted, unless the creation of its job raised, when it is recorded as failed. Every other request
  leaves no record, and that includes an upload with a wrong token: \<open>_validate_upload_request\<close> raises for it without a record,
  although \<open>docs/architecture.md\<close> lists the token among the checks whose rejections are logged. The reader of sheets raises none
  of the program's own exceptions.
\<close>

theorem audit_trail:
  assumes "foreign_reader (ext_reader ext)"
  shows "case (admin_route ext r call st, admin_audit ext r call st) of (out, records) \<Rightarrow>
    if admitted_request (sys_config st) r call \<and> owes_record r call out
    then (\<exists>begun final. records = begun @ [final] \<and> map au_event begun \<in> {[], [asc ''admin.upload.started'']} \<and>
            list_all (signed (request_context r True)) records \<and> au_status final = answer_status (out_answer out)) \<and>
         (case call of
            UploadExcel t f ts locked \<Rightarrow>
              au_event (last records) =
                asc (if answer_status (out_answer out) = 200 then ''admin.upload.succeeded''
                     else if answer_status (out_answer out) = 400 then ''admin.upload.rejected'' else ''admin.upload.failed'') \<and>
              (sys_db (out_system out) \<noteq> sys_db st \<longrightarrow> answer_status (out_answer out) = (if locked then 500 else 200))
          | _ \<Rightarrow> True)
    else records = []"
proof (cases "admin_dependencies (sys_config st) r call")
  case (Inl e)
  then have "\<not> admitted_request (sys_config st) r call"
    using dependencies_pass [of "sys_config st" r call "()"] by simp
  with Inl show ?thesis by (simp add: admin_audit_def)
next
  case (Inr u)
  then have "admitted_request (sys_config st) r call" using dependencies_pass by blast
  moreover have "admin_route ext r call st = admin_handler ext r call st" "admin_audit ext r call st = handler_audit ext r call st"
    using Inr by (simp_all add: admin_route_def admin_audit_def)
  ultimately show ?thesis
    unfolding trail_of_def [symmetric] ending_def [symmetric] using handler_trail [OF assms refl refl, of r call st] by (simp only: prod.case simp_thms)
qed

text \<open>An administrator who exports, with a reader that cannot read.\<close>

definition sample_ext :: libraries where
  "sample_ext = \<lparr>ext_checkpw = (\<lambda>_ _. Inr False), ext_hashpw = (\<lambda>_. Inr []), ext_dotenv = (\<lambda>_ _. None),
     ext_lib = \<lparr>lib_str = (\<lambda>_. []), lib_dumps = (\<lambda>_. []), lib_dumps_raw = (\<lambda>_. []), lib_loads = (\<lambda>_. Inr JNull)\<rparr>,
     ext_download = \<lparr>lib_sha256 = (\<lambda>_. []), lib_dumps_indent = (\<lambda>_. [])\<rparr>, ext_reader = (\<lambda>_ _. Inl TypeErr), ext_base_dir = asc ''/srv''\<rparr>"

definition sample_admin :: request where
  "sample_admin = \<lparr>client_host = Some (asc ''127.0.0.1''), forwarded_for = [], state_request_id = Some (asc ''id''),
     session = [asc ''user'' \<mapsto> admin_id sample_settings, SESSION_NAMESPACE_KEY \<mapsto> session_namespace sample_settings]\<rparr>"

definition sample_system :: system where
  "sample_system = \<lparr>sys_app = initial_app_state sample_settings,
     sys_process = \<lparr>environ = Map.empty, stored = Map.empty, settings_cache = Some sample_settings\<rparr>,
     sys_db = \<lparr>poi = empty_poi, jobs = empty_jobs\<rparr>, sys_events = empty_event_db, sys_visits = \<lparr>wv_rows = [], wv_seq = 0\<rparr>\<rparr>"

definition sample_export_call :: admin_call where
  "sample_export_call = ExportRawQueries False (asc ''all'') None None 5 (asc ''20250101'')"

lemma sample_admin_admitted: "admitted_request (sys_config sample_system) sample_admin sample_export_call"
proof -
  have "ensure_internal_network (sys_config sample_system) sample_admin = Inr ()" by code_simp
  moreover have "is_authenticated (sys_config sample_system) sample_admin" by code_simp
  ultimately show ?thesis by (simp add: admitted_request_def)
qed

lemma audit_trail_witness:
  "admin_audit sample_ext sample_admin sample_export_call sample_system \<noteq> [] \<and>
   list_all (signed (request_context sample_admin True)) (admin_audit sample_ext sample_admin sample_export_call sample_system)"
proof -
  have reader: "foreign_reader (ext_reader sample_ext)" by (simp add: foreign_reader_def sample_ext_def)
  have owed: "owes_record sample_admin sample_export_call out" for out by (simp add: owes_record_def sample_export_call_def)
  show ?thesis
    using audit_trail [OF reader, where r = sample_admin and call = sample_export_call and st = sample_system] sample_admin_admitted owed by auto
qed

end
