(* ===== verification/Startup.thy ===== *)
theory Startup
  imports Admin_Settings Geo_Service
begin

text \<open>
  What \<open>app/main.py\<close> does before it serves (\<open>lifespan\<close>) and its health check: the seed of an empty table
  (\<open>app/services/seed_service.py\<close>), the recovery of interrupted jobs, and
  \<open>app/services/health_service.py\<close>. The schema exists.
\<close>

section \<open>The seed\<close>

definition seed_row :: "pylib \<Rightarrow> json \<Rightarrow> database conn \<Rightarrow> unit result \<times> database conn" where
  "seed_row lib row c =
     (let column = (\<lambda>k. bindR (json_item row k) (\<lambda>v. Inr (py_str (lib_str lib) v))) in
      case bindR (column ''address'') (\<lambda>addr.
           bindR (column ''land_type'') (\<lambda>ltype.
           bindR (bindR (json_item row ''area'') float_of_json) (\<lambda>ar.
           bindR (column ''adm_property'') (\<lambda>adm.
           bindR (column ''gen_property'') (\<lambda>gen.
           bindR (column ''contact'') (\<lambda>cont.
           bindR (bindR (json_get row ''geom'' JNull) (\<lambda>g.
                  if truthy g then bindR (column ''geom'') (\<lambda>s. Inr (Some s)) else Inr None)) (\<lambda>g.
           bindR (bind_texts [Some addr, Some ltype, Some adm, Some gen, Some cont, g]) (\<lambda>_.
             Inr (insert_land addr ltype ar adm gen cont g))))))))) of
        Inl e \<Rightarrow> (Inl e, c)
      | Inr ins \<Rightarrow> (Inr (), on_poi ins c))"

fun seed_rows :: "pylib \<Rightarrow> json list \<Rightarrow> database conn \<Rightarrow> unit result \<times> database conn" where
  "seed_rows lib [] c = (Inr (), c)"
| "seed_rows lib (row # rows) c =
     (case seed_row lib row c of (Inl e, c) \<Rightarrow> (Inl e, c) | (Inr _, c) \<Rightarrow> seed_rows lib rows c)"

definition seed_lands_if_empty :: "pylib \<Rightarrow> pystr \<Rightarrow> file_store \<Rightarrow> database \<Rightarrow> int result \<times> database" where
  "seed_lands_if_empty lib seed_path fs d =
     (case bindR (read_text seed_path fs) (\<lambda>content.
             case content of None \<Rightarrow> Inr None | Some s \<Rightarrow> bindR (lib_loads lib s) (\<lambda>v. Inr (Some v))) of
        Inl e \<Rightarrow> (Inl e, d)
      | Inr None \<Rightarrow> (Inr 0, d)
      | Inr (Some v) \<Rightarrow>
          db_connection (\<lambda>c.
            if 0 < count_all_lands (poi (work c)) then (Inr 0, c)
            else case json_items v of
                   Inl e \<Rightarrow> (Inl e, c)
                 | Inr rows \<Rightarrow>
                     (case seed_rows lib rows c of
                        (Inl e, c) \<Rightarrow> (Inl e, c)
                      | (Inr _, c) \<Rightarrow> (Inr (int (length rows)), commit c))) d)"

section \<open>Startup\<close>

text \<open>The job that the startup schedules, if it comes through.\<close>

definition lifespan :: "pylib \<Rightarrow> Settings \<Rightarrow> pystr \<Rightarrow> file_store \<Rightarrow> database \<Rightarrow> int option result \<times> database" where
  "lifespan lib settings ts fs d =
     (let (r, d) = (if seed_lands_on_empty settings
                    then seed_lands_if_empty lib
                           (path_join (path_join (base_dir settings) (asc ''seed'')) (asc ''lands.json'')) fs d
                    else (Inr 0, d))
      in case r of
           Inl e \<Rightarrow> (Inl e, d)
         | Inr _ \<Rightarrow> (let (job, d) = recover_interrupted_geom_jobs ts d in (Inr job, d)))"

section \<open>Health\<close>

definition evaluate_health_checks ::
  "dotenv \<Rightarrow> pystr \<Rightarrow> http \<Rightarrow> int \<Rightarrow> nat \<Rightarrow> process \<Rightarrow> payload result \<times> process \<times> nat" where
  "evaluate_health_checks load_dotenv basedir http deep n p =
     (let checks = [(asc ''db'', JStr (asc ''ok''))] in
      if deep \<noteq> 1 then (Inr checks, p, n)
      else let (s, p) = get_settings load_dotenv basedir p in
           case s of
             Inl e \<Rightarrow> (Inl e, p, n)
           | Inr settings \<Rightarrow>
               let (r, n) = check_geocoder_health http
                     \<lparr>api_key = vworld_geocoder_key settings, client_timeout_s = vworld_timeout_s settings, client_retries = 1,
                      client_backoff_s = vworld_backoff_s settings\<rparr> n;
                   vworld = (case r of Inr True \<Rightarrow> asc ''ok'' | _ \<Rightarrow> asc ''degraded'')
               in (Inr (checks @ [(asc ''vworld'', JStr vworld)]), p, n))"

definition healthcheck ::
  "dotenv \<Rightarrow> pystr \<Rightarrow> http \<Rightarrow> RuntimeConfig \<Rightarrow> request \<Rightarrow> int \<Rightarrow> nat \<Rightarrow> process \<Rightarrow> payload result \<times> process \<times> nat" where
  "healthcheck load_dotenv basedir http config r deep n p =
     (case (if deep = 1 then ensure_internal_network config r else Inr ()) of
        Inl e \<Rightarrow> (Inl e, p, n)
      | Inr _ \<Rightarrow>
          let rid = request_id_of r;
              (checks, p, n) = evaluate_health_checks load_dotenv basedir http deep n p
          in (bindR checks (\<lambda>checks. Inr [(asc ''status'', JStr (asc ''ok'')), (asc ''request_id'', JStr rid), (asc ''checks'', JObj checks)]),
              p, n))"

section \<open>The seed is all or nothing\<close>

lemma disk_on_poi: "disk (on_poi f c) = disk c"
  by (simp add: on_poi_def execute_def)

lemma seed_row_table:
  "case seed_row lib row c of (r, c') \<Rightarrow> disk c' = disk c \<and>
     (case r of Inl _ \<Rightarrow> c' = c | Inr _ \<Rightarrow> (\<exists>a t x m g k b. c' = on_poi (insert_land a t x m g k b) c))"
  by (auto simp: seed_row_def Let_def disk_on_poi bindR_Inr_iff split: sum.splits) blast+

lemma seed_rows_table:
  "case seed_rows lib rows c of (r, c') \<Rightarrow> disk c' = disk c \<and>
     (\<forall>u. r = Inr u \<longrightarrow> jobs (work c') = jobs (work c) \<and>
        length (poi_rows (poi (work c'))) = length (poi_rows (poi (work c))) + length rows \<and>
        (poi_ok (poi (work c)) \<longrightarrow> poi_ok (poi (work c'))))"
proof (induction rows arbitrary: c)
  case (Cons row rows)
  obtain r c1 where one: "seed_row lib row c = (r, c1)" by fastforce
  show ?case
  proof (cases r)
    case (Inr u)
    with seed_row_table [where lib = lib and row = row and c = c] one obtain a t x m g k b
      where c1: "c1 = on_poi (insert_land a t x m g k b) c" and d: "disk c1 = disk c" by auto
    from Cons.IH [of c1] show ?thesis
      by (auto simp: one Inr d c1 on_poi_def insert_land_def poi_ok_insert_land [unfolded insert_land_def] split: prod.splits)
  qed (use seed_row_table [where lib = lib and row = row and c = c] one in auto)
qed simp

text \<open>A seed that fails, or that finds the table in use, changes nothing; one that goes through stores every row.\<close>

lemma seed_atomic:
  "case seed_lands_if_empty lib path fs d of (r, d') \<Rightarrow>
     (case r of
        Inl _ \<Rightarrow> d' = d
      | Inr n \<Rightarrow> d' = d \<and> n = 0 \<or>
          poi_rows (poi d) = [] \<and> jobs d' = jobs d \<and> int (length (poi_rows (poi d'))) = n \<and> (poi_ok (poi d) \<longrightarrow> poi_ok (poi d')))"
  using seed_rows_table [where lib = lib and c = "\<lparr>work = d, disk = d\<rparr>"]
  by (auto simp: seed_lands_if_empty_def db_connection_def count_all_lands_def Let_def split_beta
      split: sum.splits option.splits prod.splits)

text \<open>A deep check is refused outside the internal network before it spends a request.\<close>

lemma deep_check_gated:
  assumes "ensure_internal_network config r = Inl e"
  shows "healthcheck ld basedir http config r 1 n p = (Inl e, p, n)"
  by (simp add: healthcheck_def assms)

end
