(* ===== verification/Service.thy ===== *)
theory Service
  imports Audit_Log Startup
begin

text \<open>
  The service over its whole life, from the first start on: starts and restarts (\<open>app/main.py\<close>), the requests that
  change anything, and the boundary jobs, which work between the requests. What every component keeps on its own is here
  an invariant of them all together.
\<close>

section \<open>The running service\<close>

text \<open>
  Besides the system: the jobs handed to the background and not yet at their end, in the order they were created, and
  whether the settings are settled, that is, no update has failed half-way since the last start or success.
\<close>

record service =
  sv_system :: system
  sv_queue :: "int list"
  sv_settled :: bool

abbreviation sv_db :: "service \<Rightarrow> database" where
  "sv_db w \<equiv> sys_db (sv_system w)"

definition on_db :: "(database \<Rightarrow> database) \<Rightarrow> service \<Rightarrow> service" where
  "on_db f w = w\<lparr>sv_system := (sv_system w)\<lparr>sys_db := f (sv_db w)\<rparr>\<rparr>"

definition waiting :: "int option \<Rightarrow> int list" where
  "waiting job = (case job of None \<Rightarrow> [] | Some i \<Rightarrow> [i])"

text \<open>
  A start over what an earlier run left on disk: the import of \<open>app.main\<close> reads the settings, \<open>lifespan\<close> seeds and
  recovers. If it raises, nothing is served and nothing has changed.
\<close>

definition boot :: "libraries \<Rightarrow> env \<Rightarrow> pystr \<Rightarrow> system \<Rightarrow> service result" where
  "boot ext vars ts st =
     (let (s, p) = get_settings (ext_dotenv ext) (ext_base_dir ext)
                     \<lparr>environ = vars, stored = stored (sys_process st), settings_cache = None\<rparr>
      in bindR s (\<lambda>settings.
           case lifespan (ext_lib ext) settings ts (stored p) (sys_db st) of
             (Inl e, d) \<Rightarrow> Inl e
           | (Inr job, d) \<Rightarrow>
               Inr \<lparr>sv_system = st\<lparr>sys_app := initial_app_state settings, sys_process := p, sys_db := d\<rparr>,
                    sv_queue = waiting job, sv_settled = True\<rparr>))"

text \<open>A request of a route that changes anything; the other routes only read.\<close>

datatype visit =
    ReportMapEvent request payload "rat \<times> rat" pystr
  | ReportWebEvent request "pystr option" payload "rat \<times> rat" int
  | FetchDownload request rat
  | Login login_event
  | Administer request admin_call

definition settled_answer :: "'a result \<Rightarrow> bool \<Rightarrow> bool" where
  "settled_answer a b = (case a of Inr _ \<Rightarrow> True | Inl (HTTPException _ _) \<Rightarrow> b | Inl _ \<Rightarrow> False)"

definition settled_after :: "admin_call \<Rightarrow> outcome \<Rightarrow> bool \<Rightarrow> bool" where
  "settled_after call out b =
     (case call of
        UpdateSettings _ \<Rightarrow> settled_answer (out_answer out) b
      | UpdatePassword _ _ _ _ \<Rightarrow> settled_answer (out_answer out) b
      | _ \<Rightarrow> b)"

fun serve :: "libraries \<Rightarrow> visit \<Rightarrow> service \<Rightarrow> service" where
  "serve ext (ReportMapEvent r payload clock stamp) w =
     (let st = sv_system w;
          (_, rl, d) = post_map_event (ext_lib ext) r payload clock stamp (app_event_limiter (sys_app st), sys_events st)
      in w\<lparr>sv_system := st\<lparr>sys_app := (sys_app st)\<lparr>app_event_limiter := rl\<rparr>, sys_events := d\<rparr>\<rparr>)"
| "serve ext (ReportWebEvent r user_agent payload clock now) w =
     (let st = sv_system w;
          (_, rl, d) = post_web_event (ext_lib ext) (sys_config st) r user_agent payload clock now
                         (app_event_limiter (sys_app st), sys_visits st)
      in w\<lparr>sv_system := st\<lparr>sys_app := (sys_app st)\<lparr>app_event_limiter := rl\<rparr>, sys_visits := d\<rparr>\<rparr>)"
| "serve ext (FetchDownload r now) w =
     (let st = sv_system w;
          (_, rl) = get_public_download (ext_lib ext) (sys_config st) (stored (sys_process st)) r now (app_event_limiter (sys_app st))
      in w\<lparr>sv_system := st\<lparr>sys_app := (sys_app st)\<lparr>app_event_limiter := rl\<rparr>\<rparr>\<rparr>)"
| "serve ext (Login ev) w =
     (let st = sv_system w;
          (_, _, limiter) = guarded_login (ext_checkpw ext) (sys_config st) ev (app_login_limiter (sys_app st))
      in w\<lparr>sv_system := st\<lparr>sys_app := (sys_app st)\<lparr>app_login_limiter := limiter\<rparr>\<rparr>\<rparr>)"
| "serve ext (Administer r call) w =
     (let out = admin_route ext r call (sv_system w)
      in \<lparr>sv_system = out_system out, sv_queue = sv_queue w @ waiting (out_job out),
          sv_settled = settled_after call out (sv_settled w)\<rparr>)"

text \<open>The transactions of a job in the background: its start, each boundary it stores, its end.\<close>

definition job_begins :: "libraries \<Rightarrow> int \<Rightarrow> pystr \<Rightarrow> service \<Rightarrow> service" where
  "job_begins ext i ts w =
     on_db (change_jobs (mark_geom_job_running i ts))
       (w\<lparr>sv_system := snd (with_settings ext (sv_system w) Inr)\<rparr>)"

definition store_geom :: "int \<Rightarrow> pystr \<Rightarrow> database \<Rightarrow> database" where
  "store_geom item_id g d = snd (db_connection (\<lambda>c. ((), commit (on_poi (update_geom item_id g) c))) d)"

definition job_ends :: "int \<Rightarrow> pystr + int \<times> int \<Rightarrow> pystr \<Rightarrow> service \<Rightarrow> service" where
  "job_ends i res ts w =
     (on_db (change_jobs (case res of
                Inr (updated, failed) \<Rightarrow> mark_geom_job_done i updated failed ts
              | Inl message \<Rightarrow> mark_geom_job_failed i 0 0 (take 2000 message) ts)) w)
       \<lparr>sv_queue := filter (\<lambda>j. j \<noteq> i) (sv_queue w)\<rparr>"

definition fresh :: "system \<Rightarrow> bool" where
  "fresh st \<longleftrightarrow> sys_db st = \<lparr>poi = empty_poi, jobs = empty_jobs\<rparr> \<and> sys_events st = empty_event_db \<and>
     sys_visits st = \<lparr>wv_rows = [], wv_seq = 0\<rparr>"

text \<open>A restart may come at any time, in the middle of a job too.\<close>

inductive service_run :: "libraries \<Rightarrow> service \<Rightarrow> bool" for ext where
  first: "fresh st \<Longrightarrow> boot ext vars ts st = Inr w \<Longrightarrow> service_run ext w"
| again: "service_run ext w \<Longrightarrow> boot ext vars ts (sv_system w) = Inr w' \<Longrightarrow> service_run ext w'"
| request: "service_run ext w \<Longrightarrow> service_run ext (serve ext v w)"
| begins: "service_run ext w \<Longrightarrow> i \<in> set (sv_queue w) \<Longrightarrow> service_run ext (job_begins ext i ts w)"
| stores: "service_run ext w \<Longrightarrow> sv_queue w \<noteq> [] \<Longrightarrow> service_run ext (on_db (store_geom item_id g) w)"
| ends: "service_run ext w \<Longrightarrow> i \<in> set (sv_queue w) \<Longrightarrow> service_run ext (job_ends i res ts w)"

section \<open>Jobs and parcels\<close>

text \<open>What an operation makes of the tables, and the job it leaves waiting.\<close>

definition tables_ok :: "database \<Rightarrow> bool" where
  "tables_ok d \<longleftrightarrow> poi_ok (poi d) \<and> jobs_ok (jobs d)"

definition advances :: "int list \<Rightarrow> database \<Rightarrow> database \<Rightarrow> bool" where
  "advances new d d' \<longleftrightarrow>
     (tables_ok d \<longrightarrow> tables_ok d' \<and> map job_id (active_jobs d') = map job_id (active_jobs d) @ new)"

lemma advances_refl [simp]: "advances [] d d"
  by (simp add: advances_def)

lemma advances_enqueue: "enqueue_geom_update_job ts d = (i, d') \<Longrightarrow> advances [i] d d'"
  by (auto simp: enqueue_eq advances_def tables_ok_def active_jobs_def active_created intro: inv_intros)

lemma replace_ok:
  assumes "tables_ok d" "replace_land_data lib rows d = (r, d')"
  shows "tables_ok d' \<and> jobs d' = jobs d"
proof -
  have "db_connection (store_rows lib (fetch_geom_by_address (poi d)) rows) d = (r, d')"
    using assms(2) by (simp add: replace_land_data_def db_connection_def)
  from store_rows_stored [OF this] assms(1) show ?thesis by (cases r) (auto simp: tables_ok_def)
qed

lemma active_jobs_cong: "jobs d' = jobs d \<Longrightarrow> active_jobs d' = active_jobs d"
  by (simp add: active_jobs_def)

lemma advances_after:
  assumes "advances new d1 d2" "tables_ok d \<Longrightarrow> tables_ok d1 \<and> jobs d1 = jobs d"
  shows "advances new d d2"
  using assms active_jobs_cong [of d1 d] by (auto simp: advances_def)

text \<open>The job an upload schedules.\<close>

definition scheduled :: "upload_result result \<Rightarrow> int list" where
  "scheduled r = (case r of Inr (UploadSuccess _ True job) \<Rightarrow> [job] | _ \<Rightarrow> [])"

lemma scheduled_simps [simp]:
  "scheduled (upload_error e) = []" "scheduled (Inr (UploadRejected code kvs)) = []" "scheduled (Inl e) = []"
  "scheduled (Inr (UploadSuccess kvs True job)) = [job]"
  by (cases e rule: exn.exhaust; simp add: scheduled_def upload_error_def split: service_class.split)+

lemma rejected_frame: "validate_upload_dataframe lib df ctx = Inr (Inl x) \<Longrightarrow> scheduled (Inr x) = []"
  by (auto simp: validate_upload_dataframe_def Let_def bindR_Inr_iff split: if_splits prod.splits)

lemma upload_advances:
  assumes "handle_excel_upload reader lib ts locked command f d = (r, d')"
  shows "advances (scheduled r) d d'"
proof (cases "bindR (validate_upload_request command f (build_upload_context command f)) (\<lambda>eng.
      bindR (load_upload_dataframe reader f (build_upload_context command f) eng) (\<lambda>df.
      validate_upload_dataframe lib df (build_upload_context command f)))")
  case (Inl e)
  with assms show ?thesis by (auto simp: handle_excel_upload_def Let_def)
next
  case (Inr v)
  show ?thesis
  proof (cases v)
    case (Inl rejected)
    with Inr have "scheduled (Inr rejected) = []" by (auto simp: bindR_Inr_iff dest: rejected_frame)
    with assms Inr Inl show ?thesis by (auto simp: handle_excel_upload_def Let_def)
  next
    case inner: (Inr p)
    obtain rows n s d1 where p: "p = (rows, n)" and d1: "replace_land_data lib rows d = (s, d1)" by (metis surj_pair)
    show ?thesis
    proof (cases s)
      case (Inl e)
      with d1 replace_land_data_atomic have "d1 = d" by blast
      with assms Inr inner p d1 Inl show ?thesis by (auto simp: handle_excel_upload_def Let_def)
    next
      case stored: (Inr u)
      obtain i d2 where q: "enqueue_geom_update_job ts d1 = (i, d2)" by fastforce
      then have "advances [i] d d2" using advances_after [OF advances_enqueue] replace_ok [OF _ d1] by blast
      moreover have "advances [] d d1" using advances_after [OF advances_refl] replace_ok [OF _ d1] by blast
      ultimately show ?thesis
        using assms Inr inner p d1 stored q
        by (cases locked) (auto simp: handle_excel_upload_def Let_def finalize_upload_def)
    qed
  qed
qed


lemma refresh_advances:
  assumes "start_geom_refresh_job csrf ts d = (r, d')"
  shows "advances (case r of Inr res \<Rightarrow> if refresh_started res then [refresh_job_id res] else [] | _ \<Rightarrow> []) d d'"
proof (cases "csrf \<and> find_active_job d = None")
  case True
  obtain i d1 where q: "enqueue_geom_update_job ts d = (i, d1)" by fastforce
  with assms True advances_enqueue [OF q] show ?thesis by (auto simp: start_geom_refresh_job_def)
qed (use assms in \<open>auto simp: start_geom_refresh_job_def split: option.splits if_splits\<close>)

text \<open>After the recovery the only active job is the one it hands out.\<close>

lemma recovery_tables:
  assumes ok: "tables_ok d" and run: "recover_interrupted_geom_jobs ts d = (job, d')"
  shows "tables_ok d' \<and> map job_id (active_jobs d') = waiting job"
proof -
  obtain n js where m: "mark_stale_geom_jobs_interrupted ts (jobs d) = (n, js)" by fastforce
  obtain i js' where cr: "create_geom_update_job ts js = (i, js')" by fastforce
  have none: "filter is_active (job_rows js) = []" using no_active_marked [of ts "jobs d"] m by simp
  have act: "map job_id (filter is_active (job_rows js')) = [i]"
    using cr none by (auto simp: create_geom_update_job_def is_active_def)
  have js: "jobs_ok js" using jobs_ok_marks(4) [of "jobs d" ts] ok m by (simp add: tables_ok_def)
  then have js': "jobs_ok js'" using jobs_ok_create [of js ts] cr by simp
  have quiet: "n = 0 \<Longrightarrow> active_jobs d = []" using m by (auto simp: mark_stale_geom_jobs_interrupted_def active_jobs_def)
  have "recover_interrupted_geom_jobs ts d =
      (if n = 0 then (None, d) else if 0 < count_missing_geom (poi d) then (Some i, d\<lparr>jobs := js'\<rparr>) else (None, d\<lparr>jobs := js\<rparr>))"
    using m cr by (simp add: recover_interrupted_geom_jobs_def db_connection_def on_jobs_def)
  with run ok js js' act none quiet show ?thesis
    by (auto simp: waiting_def tables_ok_def active_jobs_def split: if_splits)
qed

lemma lifespan_tables:
  assumes ok: "tables_ok d" and run: "lifespan lib settings ts fs d = (Inr job, d')"
  shows "tables_ok d' \<and> map job_id (active_jobs d') = waiting job"
proof -
  define path where "path = path_join (path_join (base_dir settings) (asc ''seed'')) (asc ''lands.json'')"
  obtain r d1 where seed: "(if seed_lands_on_empty settings then seed_lands_if_empty lib path fs d else (Inr 0, d)) = (r, d1)" by fastforce
  have "case r of Inl e \<Rightarrow> True | Inr n \<Rightarrow> tables_ok d1"
    using seed_atomic [where lib = lib and path = path and fs = fs and d = d] seed ok
    by (auto simp: tables_ok_def split: if_splits sum.splits)
  with run seed recovery_tables [where d = d1 and ts = ts] show ?thesis
    unfolding lifespan_def path_def [symmetric] by (auto split: sum.splits prod.splits)
qed

lemma store_geom_tables: "tables_ok d \<Longrightarrow> tables_ok (store_geom i g d) \<and> jobs (store_geom i g d) = jobs d"
  by (simp add: store_geom_def db_connection_def on_poi_def tables_ok_def inv_intros)

lemma change_jobs_eq: "change_jobs f d = d\<lparr>jobs := f (jobs d)\<rparr>"
  by (simp add: change_jobs_def db_connection_def on_jobs_def)

text \<open>A mark that keeps a job active, and one that ends it.\<close>

lemma active_unique:
  assumes "tables_ok d" "i \<in> job_id ` set (active_jobs d)" "j \<in> set (job_rows (jobs d))" "job_id j = i"
  shows "is_active j"
proof -
  have "distinct (map job_id (job_rows (jobs d)))"
    using assms(1) by (auto simp: tables_ok_def jobs_ok_def sorted_wrt_map [symmetric] strict_sorted_iff)
  with assms(2-4) show ?thesis by (auto simp: active_jobs_def distinct_map dest: inj_onD)
qed

lemma active_running:
  assumes "tables_ok d" "i \<in> job_id ` set (active_jobs d)"
  shows "map job_id (active_jobs (change_jobs (mark_geom_job_running i ts) d)) = map job_id (active_jobs d)"
proof -
  have "map job_id (filter is_active (map (\<lambda>j. if job_id j = i
            then j\<lparr>status := Running, job_attempts := job_attempts j + 1, updated_at := ts\<rparr> else j) js)) =
      map job_id (filter is_active js)" if "\<And>j. j \<in> set js \<Longrightarrow> job_id j = i \<Longrightarrow> is_active j" for js
    using that by (induction js) (auto simp: is_active_def)
  with active_unique [OF assms] show ?thesis
    by (simp add: change_jobs_eq active_jobs_def mark_geom_job_running_def update_jobs_def)
qed

lemma active_ended:
  "map job_id (active_jobs (change_jobs (mark_geom_job_done i u f ts) d)) = filter (\<lambda>j. j \<noteq> i) (map job_id (active_jobs d))"
  "map job_id (active_jobs (change_jobs (mark_geom_job_failed i u f m ts) d)) = filter (\<lambda>j. j \<noteq> i) (map job_id (active_jobs d))"
proof -
  have ended: "map job_id (filter is_active (map (\<lambda>j. if job_id j = i then g j else j) js)) =
      filter (\<lambda>j. j \<noteq> i) (map job_id (filter is_active js))" if "\<And>j. \<not> is_active (g j)" for g js
    using that by (induction js) auto
  show "map job_id (active_jobs (change_jobs (mark_geom_job_done i u f ts) d)) = filter (\<lambda>j. j \<noteq> i) (map job_id (active_jobs d))"
    "map job_id (active_jobs (change_jobs (mark_geom_job_failed i u f m ts) d)) = filter (\<lambda>j. j \<noteq> i) (map job_id (active_jobs d))"
    by (simp_all add: change_jobs_eq active_jobs_def mark_geom_job_done_def mark_geom_job_failed_def update_jobs_def ended is_active_def)
qed

lemma marked_tables:
  assumes "tables_ok d"
  shows "tables_ok (change_jobs (mark_geom_job_running i ts) d)" "tables_ok (change_jobs (mark_geom_job_done i u f ts) d)"
    "tables_ok (change_jobs (mark_geom_job_failed i u f m ts) d)"
  using assms by (simp_all add: change_jobs_eq tables_ok_def inv_intros)


section \<open>Events\<close>

text \<open>Every event has its raw query log beside it, and the identifiers count the rows.\<close>

definition events_ok :: "event_db \<Rightarrow> bool" where
  "events_ok d \<longleftrightarrow> list_all2 event_pair_ok (me_rows d) (rq_rows d) \<and> 0 \<le> me_seq d \<and> rq_seq d = me_seq d \<and>
     map me_id (me_rows d) = [1..me_seq d] \<and> map rq_id (rq_rows d) = [1..me_seq d]"

definition visits_ok :: "web_db \<Rightarrow> bool" where
  "visits_ok d \<longleftrightarrow> (\<forall>v \<in> set (wv_rows d). \<exists>now allowed. visit_ok now allowed v) \<and> 0 \<le> wv_seq d \<and>
     map wv_id (wv_rows d) = [1..wv_seq d]"

lemma upto_snoc: "0 \<le> n \<Longrightarrow> [1..n + 1] = [1..n] @ [n + 1]" for n :: int
  by (simp add: upto_rec2)

lemma events_ok_recorded: "events_ok d \<Longrightarrow> events_ok (snd (record_map_event lib ts command d))"
  using record_map_event_spec [where lib = lib and ts = ts and command = command and d = d]
  by (auto simp: events_ok_def upto_snoc list_all2_appendI split: prod.splits sum.splits)

lemma visits_ok_recorded: "visits_ok d \<Longrightarrow> visits_ok (snd (record_web_visit_event now lib c d))"
  using record_web_visit_event_spec [where now = now and lib = lib and c = c and d = d]
  by (auto simp: visits_ok_def upto_snoc split: prod.splits sum.splits) blast

lemma rate_limited_table:
  "snd (snd (handle_rate_limited_event r pre limit clock f (rl, d))) \<in> {d, snd (f d)}"
  by (auto simp: handle_rate_limited_event_def split: prod.splits sum.splits option.splits)

lemma events_ok_posted: "events_ok d \<Longrightarrow> events_ok (snd (snd (post_map_event lib r payload clock stamp (rl, d))))"
  using rate_limited_table [of r "''events''" EVENT_LIMIT_PER_MINUTE clock "record_map_event lib stamp (build_map_event_command lib payload)" rl d]
    events_ok_recorded [of d]
  by (auto simp: post_map_event_def)

lemma visits_ok_posted: "visits_ok d \<Longrightarrow> visits_ok (snd (snd (post_web_event lib config r user_agent payload clock now (rl, d))))"
  using rate_limited_table [of r "''web-events''" WEB_EVENT_LIMIT_PER_MINUTE clock
      "record_web_visit_event now lib (build_web_visit_event_command payload (build_web_visit_context config user_agent))" rl d]
    visits_ok_recorded [of d]
  by (auto simp: post_web_event_def Let_def)

section \<open>The settings in force\<close>

text \<open>The cached settings are those that the environment denotes, and the configuration is theirs.\<close>

definition in_force :: "libraries \<Rightarrow> system \<Rightarrow> bool" where
  "in_force ext st \<longleftrightarrow>
     (\<exists>s. settings_cache (sys_process st) = Some s \<and> build_settings (ext_base_dir ext) (environ (sys_process st)) = Inr s \<and>
          sys_config st = runtime_config s)"

lemma get_settings_cached:
  assumes "get_settings ld basedir p = (Inr s, p')" "settings_cache p = None"
  shows "settings_cache p' = Some s \<and> build_settings basedir (environ p') = Inr s"
  using assms by (auto simp: get_settings_def Let_def split: sum.splits)

lemma in_force_cached:
  "in_force ext st \<Longrightarrow> snd (with_settings ext st f) = st"
  by (auto simp: in_force_def with_settings_def get_settings_def)

lemma rebuild_config [simp]: "app_config (rebuild_runtime_state app s) = runtime_config s"
  by (simp add: rebuild_runtime_state_def Let_def)

lemma boot_in_force:
  assumes "boot ext vars ts st = Inr w"
  shows "in_force ext (sv_system w) \<and> app_consistent (sys_app (sv_system w)) \<and> sys_events (sv_system w) = sys_events st \<and>
    sys_visits (sv_system w) = sys_visits st \<and> sv_settled w"
proof -
  let ?p = "\<lparr>environ = vars, stored = stored (sys_process st), settings_cache = None\<rparr>"
  obtain s p where g: "get_settings (ext_dotenv ext) (ext_base_dir ext) ?p = (Inr s, p)"
    using assms by (cases "get_settings (ext_dotenv ext) (ext_base_dir ext) ?p") (auto simp: boot_def bindR_Inr_iff)
  with assms get_settings_cached [OF g] show ?thesis
    by (auto simp: boot_def in_force_def app_consistent_initial [simplified initial_app_state_def] initial_app_state_def split: prod.splits sum.splits)
qed

text \<open>An exception of the files or the environment is none that the routes answer.\<close>

lemma decode_foreign: "decode_utf8 bs = Inl e \<Longrightarrow> e = ValueErr None"
proof (induction bs arbitrary: e rule: decode_utf8.induct)
  case (2 b bs)
  from 2(2) show ?case
    by (auto simp: Let_def bindR_Inl_iff dest: 2(1) [OF _ refl refl refl refl] split: option.splits if_splits)
qed simp

lemma encode_foreign: "encode_utf8 s = Inl e \<Longrightarrow> e = ValueErr None"
proof -
  have "mapR utf8_char s = Inl e \<Longrightarrow> e = ValueErr None" for s
    by (induction s) (auto simp: utf8_char_def bindR_Inl_iff split: if_splits)
  then show "encode_utf8 s = Inl e \<Longrightarrow> e = ValueErr None" by (auto simp: encode_utf8_def bindR_Inl_iff)
qed

lemma put_environ_foreign: "put_environ us e = (Inl x, e') \<Longrightarrow> x = ValueErr None"
  by (induction us arbitrary: e) (auto split: if_splits)

lemma persist_foreign: "persist_updates basedir us p = (Inl e, p') \<Longrightarrow> e = ValueErr None"
  by (auto simp: persist_updates_def update_env_file_def read_text_def write_text_def bindR_Inl_iff Let_def
      dest: decode_foreign encode_foreign put_environ_foreign split: sum.splits prod.splits option.splits)


lemma settings_update_errors:
  "apply_settings_update checkpw command p = (Inl e, p') \<Longrightarrow> p' = p \<or> e = ValueErr None"
  by (auto simp: apply_settings_update_def dest: persist_foreign split: if_splits sum.splits bool.splits exn.splits option.splits prod.splits)

lemma password_update_errors:
  "apply_password_update checkpw hashpw command p = (Inl e, p') \<Longrightarrow> p' = p \<or> e = ValueErr None"
  by (auto simp: apply_password_update_def dest: persist_foreign split: if_splits sum.splits bool.splits prod.splits)

lemma persisted_cache: "persist_updates basedir us p = (Inr u, p') \<Longrightarrow> settings_cache p' = None"
  by (auto simp: persist_updates_def split: prod.splits sum.splits)

text \<open>What every handler keeps, for the state before and the flag of the settings.\<close>

definition kept :: "libraries \<Rightarrow> system \<Rightarrow> bool \<Rightarrow> outcome \<Rightarrow> bool" where
  "kept ext st b out \<longleftrightarrow>
     (b \<longrightarrow> in_force ext (out_system out)) \<and> app_consistent (sys_app (out_system out)) \<and>
     advances (waiting (out_job out)) (sys_db st) (sys_db (out_system out))"

lemma waiting_simps [simp]: "waiting None = []" "waiting (Some i) = [i]"
  by (simp_all add: waiting_def)

lemma kept_settled:
  assumes "b \<Longrightarrow> in_force ext st" "app_consistent (sys_app st)"
  shows "kept ext st b (settled r a st)"
  using assms by (simp add: kept_def)

lemma settled_answer_Inl: "settled_answer (Inl e) b \<Longrightarrow> b"
  by (cases e) (simp_all add: settled_answer_def)

lemma refused_kept:
  assumes "b \<Longrightarrow> in_force ext st" "app_consistent (sys_app st)"
  shows "kept ext st (settled_answer (Inl e :: admin_answer result) b) (settled r (Inl e) st)"
  using assms settled_answer_Inl [of e b] by (auto simp: kept_def)

lemma get_settings_internal: "get_settings ld basedir p = (Inl e, p') \<Longrightarrow> \<not> settled_answer (Inl e) b"
  using internal_get_settings [of ld basedir p] by (cases e) (auto simp: internal_def settled_answer_def)

lemma rebuild_kept:
  assumes "b \<Longrightarrow> in_force ext st" "app_consistent (sys_app st)"
    and ok: "\<And>x. res = Inr x \<Longrightarrow> settings_cache p = None"
    and err: "\<And>e. res = Inl e \<Longrightarrow> p = sys_process st \<or> e = ValueErr None"
    and out: "out = rebuild_after ext r (res, p) st"
  shows "kept ext st (settled_answer (out_answer out) b) out"
proof (cases res)
  case (Inl e)
  show ?thesis
  proof (cases "p = sys_process st")
    case True
    with Inl assms(1,2) show ?thesis
      by (auto simp: out rebuild_after_def http_result_def kept_def dest: settled_answer_Inl)
  next
    case False
    with err [OF Inl] Inl assms(2) show ?thesis
      by (auto simp: out rebuild_after_def http_result_def kept_def settled_answer_def)
  qed
next
  case (Inr x)
  obtain g q where get: "get_settings (ext_dotenv ext) (ext_base_dir ext) p = (g, q)" by fastforce
  show ?thesis
  proof (cases g)
    case (Inl e)
    have "\<not> settled_answer (Inl e :: admin_answer result) b"
      by (rule get_settings_internal) (use get Inl in simp)
    with Inl Inr get assms(2) show ?thesis
      by (simp add: out rebuild_after_def http_result_def with_settings_def kept_def)
  next
    case settings: (Inr s)
    with get_settings_cached [of "ext_dotenv ext" "ext_base_dir ext" p s q] get ok [OF Inr] Inr assms(2) show ?thesis
      by (simp add: out rebuild_after_def http_result_def with_settings_def kept_def in_force_def app_consistent_rebuild)
  qed
qed


lemma reading_kept:
  assumes "b \<Longrightarrow> in_force ext st" "app_consistent (sys_app st)"
  shows "kept ext st b (settled r a (snd (with_settings ext st f)))"
  using assms in_force_cached [of ext st f] with_settings_data [of st ext f] by (auto simp: kept_def same_data_def)

lemma upload_kept:
  assumes "b \<Longrightarrow> in_force ext st" "app_consistent (sys_app st)"
  shows "kept ext st b (upload_excel ext r t f ts locked st)"
proof (cases "build_request_context r t")
  case (Inr ctx)
  let ?command = "\<lparr>up_csrf_valid = csrf_valid ctx, up_requested_sheet = UPLOAD_SHEET_NAME (sys_config st),
      up_max_size_mb = MAX_UPLOAD_SIZE_MB (sys_config st), up_max_rows = MAX_UPLOAD_ROWS (sys_config st)\<rparr>"
  obtain res d where run: "handle_excel_upload (ext_reader ext) (ext_lib ext) ts locked ?command f (sys_db st) = (res, d)" by fastforce
  have st: "b \<Longrightarrow> in_force ext (st\<lparr>sys_db := d\<rparr>)" using assms(1) by (simp add: in_force_def)
  have "kept ext st b (upload_excel ext r t f ts locked st)" if "res = Inr (UploadSuccess kvs schedule job)" for kvs schedule job
    using upload_advances [OF run] assms(2) st
    by (cases schedule) (simp_all add: that upload_excel_def Inr run http_result_def kept_def scheduled_def settled_def)
  moreover have "kept ext st b (upload_excel ext r t f ts locked st)" if "res = Inr (UploadRejected code kvs)" for code kvs
    using upload_advances [OF run] assms(2) st by (simp add: that upload_excel_def Inr run http_result_def kept_def)
  moreover have "kept ext st b (upload_excel ext r t f ts locked st)" if "res = Inl e" for e
    using upload_advances [OF run] assms(2) st by (simp add: that upload_excel_def Inr run http_result_def kept_def)
  ultimately show ?thesis by (metis sum.exhaust upload_result.exhaust)
qed (simp add: upload_excel_def kept_settled assms)

lemma refresh_kept:
  assumes "b \<Longrightarrow> in_force ext st" "app_consistent (sys_app st)"
  shows "kept ext st b (start_land_geom_refresh r t ts st)"
proof (cases "build_request_context r t")
  case (Inr ctx)
  obtain res d where run: "start_geom_refresh_job (csrf_valid ctx) ts (sys_db st) = (res, d)" by fastforce
  have st: "b \<Longrightarrow> in_force ext (st\<lparr>sys_db := d\<rparr>)" using assms(1) by (simp add: in_force_def)
  with refresh_advances [OF run] assms(2) show ?thesis
    by (cases res) (auto simp: start_land_geom_refresh_def Inr run http_result_def kept_def settled_def)
qed (simp add: start_land_geom_refresh_def kept_settled assms)

lemma download_upload_kept:
  assumes "b \<Longrightarrow> in_force ext st" "app_consistent (sys_app st)"
  shows "kept ext st b (upload_public_download_file ext r t f now st)"
  using assms
  by (auto simp: upload_public_download_file_def kept_def in_force_def Let_def split: sum.split prod.split)

lemma root_kept:
  assumes "b \<Longrightarrow> in_force ext st" "app_consistent (sys_app st)"
  shows "kept ext st b (admin_root ext r fresh_token updated st)"
proof -
  have "kept ext st b \<lparr>out_answer = a, out_session = s, out_job = None, out_system = snd (with_settings ext st f)\<rparr>" for a s and f :: "Settings \<Rightarrow> admin_answer result"
    using reading_kept [OF assms, where r = r and f = f] by (simp add: kept_def settled_def)
  then show ?thesis using assms kept_settled [OF assms]
    by (auto simp: admin_root_def Let_def split_beta)
qed

lemma settings_kept:
  assumes "b \<Longrightarrow> in_force ext st" "app_consistent (sys_app st)"
  shows "kept ext st (settled_answer (out_answer (update_settings ext r form_data st)) b) (update_settings ext r form_data st)"
proof (cases "build_request_context r (form_get form_data (asc ''csrf_token''))")
  case (Inl e)
  then have out: "update_settings ext r form_data st = settled r (Inl e) st" by (simp only: update_settings_def sum.case)
  show ?thesis unfolding out settled_simps by (rule refused_kept) (use assms in simp_all)
next
  case (Inr ctx)
  let ?command = "\<lparr>su_context = ctx, settings_password = form_get form_data (asc ''settings_password''),
      su_current_password_hash = ADMIN_PW_HASH (sys_config st), su_base_dir = BASE_DIR (sys_config st),
      su_updates = collect_settings_updates form_data\<rparr>"
  obtain res p where run: "apply_settings_update (ext_checkpw ext) ?command (sys_process st) = (res, p)" by fastforce
  have out: "update_settings ext r form_data st = rebuild_after ext r (res, p) st" by (simp add: update_settings_def Inr run)
  show ?thesis
  proof (rule rebuild_kept [OF _ assms(2) _ _ out])
    show "settings_cache p = None" if "res = Inr x" for x
      by (rule persisted_cache [OF settings_update_result(5)]) (use run that in simp)
    show "p = sys_process st \<or> e = ValueErr None" if "res = Inl e" for e
      by (rule settings_update_errors) (use run that in simp)
  qed (rule assms(1))
qed

lemma password_kept:
  assumes "b \<Longrightarrow> in_force ext st" "app_consistent (sys_app st)"
  shows "kept ext st (settled_answer (out_answer (update_password ext r t current new confirm st)) b)
    (update_password ext r t current new confirm st)"
proof (cases "build_request_context r t")
  case (Inl e)
  then have out: "update_password ext r t current new confirm st = settled r (Inl e) st" by (simp only: update_password_def sum.case)
  show ?thesis unfolding out settled_simps by (rule refused_kept) (use assms in simp_all)
next
  case (Inr ctx)
  let ?command = "\<lparr>pu_context = ctx, current_password = current, new_password = new, new_password_confirm = confirm,
      pu_current_password_hash = ADMIN_PW_HASH (sys_config st), pu_base_dir = BASE_DIR (sys_config st)\<rparr>"
  obtain res p where run: "apply_password_update (ext_checkpw ext) (ext_hashpw ext) ?command (sys_process st) = (res, p)" by fastforce
  have out: "update_password ext r t current new confirm st = rebuild_after ext r (res, p) st" by (simp add: update_password_def Inr run)
  show ?thesis
  proof (rule rebuild_kept [OF _ assms(2) _ _ out])
    show "settings_cache p = None" if "res = Inr x" for x
      by (rule persisted_cache [OF password_update_result(6)]) (use run that in simp)
    show "p = sys_process st \<or> e = ValueErr None" if "res = Inl e" for e
      by (rule password_update_errors) (use run that in simp)
  qed (rule assms(1))
qed

lemma handler_kept:
  assumes "b \<Longrightarrow> in_force ext st" "app_consistent (sys_app st)"
  shows "kept ext st (settled_after call (admin_handler ext r call st) b) (admin_handler ext r call st)"
  by (cases call)
     (simp_all add: settled_after_def kept_settled upload_kept refresh_kept download_upload_kept root_kept settings_kept password_kept
       assms reading_kept web_stats_route_def export_raw_queries_def split_beta)


section \<open>The invariant\<close>

definition service_ok :: "libraries \<Rightarrow> service \<Rightarrow> bool" where
  "service_ok ext w \<longleftrightarrow>
     (sv_settled w \<longrightarrow> in_force ext (sv_system w)) \<and> app_consistent (sys_app (sv_system w)) \<and>
     tables_ok (sv_db w) \<and> map job_id (active_jobs (sv_db w)) = sv_queue w \<and>
     events_ok (sys_events (sv_system w)) \<and> visits_ok (sys_visits (sv_system w))"

lemma boot_ok:
  assumes "boot ext vars ts st = Inr w" "tables_ok (sys_db st)" "events_ok (sys_events st)" "visits_ok (sys_visits st)"
  shows "service_ok ext w"
proof -
  let ?p = "\<lparr>environ = vars, stored = stored (sys_process st), settings_cache = None\<rparr>"
  obtain s p where g: "get_settings (ext_dotenv ext) (ext_base_dir ext) ?p = (Inr s, p)"
    using assms(1) by (cases "get_settings (ext_dotenv ext) (ext_base_dir ext) ?p") (auto simp: boot_def bindR_Inr_iff)
  obtain r d where l: "lifespan (ext_lib ext) s ts (stored p) (sys_db st) = (r, d)" by fastforce
  with assms(1) g obtain job where "r = Inr job" by (cases r) (simp_all add: boot_def)
  with assms(1) g l have "lifespan (ext_lib ext) s ts (stored p) (sys_db st) = (Inr job, d)" "sv_db w = d" "sv_queue w = waiting job"
    by (auto simp: boot_def)
  with lifespan_tables [OF assms(2)] boot_in_force [OF assms(1)] assms(3,4) show ?thesis
    by (simp add: service_ok_def)
qed

lemma guarded_login_limiter:
  "max_attempts (snd (snd (guarded_login checkpw config ev l))) = max_attempts l"
  "cooldown_seconds (snd (snd (guarded_login checkpw config ev l))) = cooldown_seconds l"
  by (auto simp: guarded_login_def login_parts Let_def frame_simps split_beta split: sum.split)

lemma route_kept:
  assumes "b \<Longrightarrow> in_force ext st" "app_consistent (sys_app st)"
  shows "kept ext st (settled_after call (admin_route ext r call st) b) (admin_route ext r call st)"
proof (cases "admin_dependencies (sys_config st) r call")
  case (Inl e)
  then show ?thesis using refused_kept [where r = r and e = e, OF assms] kept_settled [where r = r and a = "Inl e", OF assms]
    by (cases call) (simp_all add: admin_route_def settled_after_def)
qed (simp add: admin_route_def handler_kept assms)

lemma route_tables:
  "sys_events (out_system (admin_route ext r call st)) = sys_events st" "sys_visits (out_system (admin_route ext r call st)) = sys_visits st"
  by (simp_all add: admin_route_def handler_tables split: sum.split)

lemma serve_ok:
  assumes "service_ok ext w"
  shows "service_ok ext (serve ext v w)"
proof (cases v)
  case (ReportMapEvent r payload clock stamp)
  with assms show ?thesis
    using events_ok_posted [of "sys_events (sv_system w)" "ext_lib ext" r payload clock stamp "app_event_limiter (sys_app (sv_system w))"]
    by (auto simp: service_ok_def in_force_def app_consistent_def Let_def split_beta)
next
  case (ReportWebEvent r user_agent payload clock now)
  with assms show ?thesis
    using visits_ok_posted [of "sys_visits (sv_system w)" "ext_lib ext" "sys_config (sv_system w)" r user_agent payload clock now
      "app_event_limiter (sys_app (sv_system w))"]
    by (auto simp: service_ok_def in_force_def app_consistent_def Let_def split_beta)
next
  case (FetchDownload r now)
  with assms show ?thesis by (auto simp: service_ok_def in_force_def app_consistent_def Let_def split_beta)
next
  case (Login ev)
  with assms show ?thesis
    by (auto simp: service_ok_def in_force_def app_consistent_def Let_def split_beta guarded_login_limiter)
next
  case (Administer r call)
  have "kept ext (sv_system w) (settled_after call (admin_route ext r call (sv_system w)) (sv_settled w))
      (admin_route ext r call (sv_system w))"
    using assms by (intro route_kept) (auto simp: service_ok_def)
  with assms show ?thesis
    by (auto simp: Administer service_ok_def kept_def advances_def Let_def route_tables)
qed

lemma on_db_ok:
  assumes "service_ok ext w" "tables_ok (f (sv_db w))" "map job_id (active_jobs (f (sv_db w))) = queue"
  shows "service_ok ext ((on_db f w)\<lparr>sv_queue := queue\<rparr>)"
  using assms by (auto simp: service_ok_def on_db_def in_force_def)

lemma reading_ok: "service_ok ext w \<Longrightarrow> service_ok ext (w\<lparr>sv_system := snd (with_settings ext (sv_system w) f)\<rparr>)"
  using in_force_cached [of ext "sv_system w" f] with_settings_data [of "sv_system w" ext f]
  by (auto simp: service_ok_def same_data_def)

lemma service_run_ok: "service_run ext w \<Longrightarrow> service_ok ext w"
proof (induction rule: service_run.induct)
  case (first st vars ts w)
  note st = first(1) [unfolded fresh_def]
  have "tables_ok (sys_db st)" using st by (simp add: tables_ok_def inv_intros)
  moreover have "events_ok (sys_events st)" "visits_ok (sys_visits st)"
    using st by (simp_all add: events_ok_def visits_ok_def empty_event_db_def)
  ultimately show ?case by (rule boot_ok [OF first(2)])
next
  case (again w vars ts w')
  then have "tables_ok (sv_db w)" "events_ok (sys_events (sv_system w))" "visits_ok (sys_visits (sv_system w))"
    by (simp_all add: service_ok_def)
  then show ?case by (rule boot_ok [OF again.hyps(2)])
next
  case (request w v)
  then show ?case by (simp add: serve_ok)
next
  case (begins w i ts)
  let ?w = "w\<lparr>sv_system := snd (with_settings ext (sv_system w) Inr)\<rparr>"
  have ok: "service_ok ext ?w" by (rule reading_ok) (rule begins.IH)
  then have q: "map job_id (active_jobs (sv_db ?w)) = sv_queue w" "tables_ok (sv_db ?w)" by (auto simp: service_ok_def)
  then have "i \<in> job_id ` set (active_jobs (sv_db ?w))" using begins.hyps(2) by (metis list.set_map)
  with on_db_ok [OF ok, where f = "change_jobs (mark_geom_job_running i ts)" and queue = "sv_queue w"] marked_tables(1) [OF q(2), of i ts]
    active_running [OF q(2), of i ts] q(1)
  show ?case by (simp add: job_begins_def on_db_def)
next
  case (stores w item_id g)
  then have "tables_ok (sv_db w)" "map job_id (active_jobs (sv_db w)) = sv_queue w" by (auto simp: service_ok_def)
  with on_db_ok [OF stores.IH, of "store_geom item_id g" "sv_queue w"] store_geom_tables [of "sv_db w" item_id g]
  show ?case by (simp add: active_jobs_def on_db_def)
next
  case (ends w i res ts)
  then have "tables_ok (sv_db w)" "map job_id (active_jobs (sv_db w)) = sv_queue w" by (auto simp: service_ok_def)
  with on_db_ok [OF ends.IH] show ?case
    by (cases res) (auto simp: job_ends_def marked_tables active_ended split: prod.split)
qed

section \<open>A job is a run of its transactions\<close>

text \<open>
  \<open>run_geom_update_job\<close> with the client and the pauses of the settings, as the background calls it; the settings may fail
  it before it asks for a boundary.
\<close>

definition run_scheduled_job ::
  "libraries \<Rightarrow> http \<Rightarrow> (exn \<Rightarrow> pystr) \<Rightarrow> pystr \<Rightarrow> pystr \<Rightarrow> nat \<Rightarrow> int \<Rightarrow> service \<Rightarrow> service" where
  "run_scheduled_job ext http str_of_exn ts1 ts2 n i w =
     (let (s, st) = with_settings ext (sv_system w) Inr; w = w\<lparr>sv_system := st, sv_queue := filter (\<lambda>j. j \<noteq> i) (sv_queue w)\<rparr>
      in case s of
           Inl e \<Rightarrow> on_db (\<lambda>d. change_jobs (mark_geom_job_failed i 0 0 (take 2000 (str_of_exn e)) ts2)
                              (change_jobs (mark_geom_job_running i ts1) d)) w
         | Inr settings \<Rightarrow>
             let client = \<lparr>api_key = vworld_geocoder_key settings, client_timeout_s = vworld_timeout_s settings,
                           client_retries = vworld_retries settings, client_backoff_s = vworld_backoff_s settings\<rparr>
             in on_db (\<lambda>d. snd (run_geom_update_job str_of_exn (\<lambda>n addr. get_parcel_geometry (ext_lib ext) http client addr n)
                                 (vworld_backoff_s settings) ts1 ts2 i 5 n d)) w)"


text \<open>A scan commits some boundaries, one after the other, and nothing else.\<close>

definition store_all :: "(int \<times> pystr) list \<Rightarrow> database \<Rightarrow> database" where
  "store_all us = fold (\<lambda>(i, g). store_geom i g) us"

definition synced :: "database \<Rightarrow> 'w scan \<Rightarrow> bool" where
  "synced d s \<longleftrightarrow> disk (sc_conn s) = work (sc_conn s) \<and> (\<exists>us. work (sc_conn s) = store_all us d)"

lemma store_geom_eq: "store_geom i g d = d\<lparr>poi := update_geom i g (poi d)\<rparr>"
  by (simp add: store_geom_def db_connection_def on_poi_def)

lemma synced_after [simp]: "synced d (s\<lparr>sc_after := a\<rparr>) = synced d s"
  by (simp add: synced_def)

lemma synced_item:
  assumes "synced d s"
  shows "synced d (snd (geom_item client b k item s))"
proof -
  obtain us where us: "work (sc_conn s) = store_all us d" and sync: "disk (sc_conn s) = work (sc_conn s)"
    using assms by (auto simp: synced_def)
  have "store_all us d\<lparr>poi := update_geom i g (poi (store_all us d))\<rparr> = store_all (us @ [(i, g)]) d" for i g
    by (simp add: store_all_def store_geom_eq)
  with us sync show ?thesis
    by (auto simp: synced_def geom_item_def on_poi_def Let_def split: sum.split prod.split)
qed

lemma synced_batch: "synced d s \<Longrightarrow> synced d (snd (geom_batch client b k xs s))"
proof (induction xs arbitrary: s)
  case (Cons item xs)
  from Cons.IH synced_item [OF Cons.prems, of client b k item] show ?case
    by (auto split: sum.split prod.split)
qed simp

lemma synced_scan: "synced d s \<Longrightarrow> synced d (snd (geom_scan client b k s))"
proof (induction client b k s rule: geom_scan.induct)
  case (1 client b k s)
  let ?batch = "fetch_missing_geom (scan_poi s) (Some GEOM_BATCH_SIZE) (sc_after s)"
  obtain r s1 where run: "geom_batch client b k ?batch s = (r, s1)" by fastforce
  then have s1: "synced d s1" using synced_batch [OF 1(2), of client b k ?batch] by simp
  show ?case
  proof (cases "?batch = [] \<or> isl r")
    case True
    with run s1 1(2) show ?thesis by (auto simp: geom_scan.simps [of client b k s] Let_def split: sum.split)
  next
    case False
    then obtain u where r: "r = Inr u" by (cases r) auto
    with False run have "geom_scan client b k s = geom_scan client b k s1"
      by (simp add: geom_scan.simps [of client b k s] Let_def)
    moreover have "synced d (snd (geom_scan client b k s1))"
      by (rule 1(1) [OF refl _ run [symmetric] r s1]) (use False in simp)
    ultimately show ?thesis by simp
  qed
qed

lemma synced_attempts: "synced d s \<Longrightarrow> synced d (snd (geom_attempts client b ks s))"
proof (induction ks arbitrary: s)
  case (Cons k ks)
  from Cons.IH synced_scan [of d "s\<lparr>sc_after := 0\<rparr>" client b k] Cons.prems show ?case
    by (auto split: sum.split prod.split)
qed simp

lemma update_geoms_stores: "\<exists>us. snd (update_geoms client b m w d) = store_all us d"
proof -
  have "synced d \<lparr>sc_conn = \<lparr>work = d, disk = d\<rparr>, sc_after = 0, sc_updated = 0, sc_world = w\<rparr>"
    by (auto simp: synced_def store_all_def intro: exI [of _ "[]"])
  from synced_attempts [OF this, of client b "[1..m]"] show ?thesis
    by (auto simp: synced_def update_geoms_def db_connection_def split_beta Let_def)
qed

lemma job_is_steps:
  "\<exists>us res. snd (run_geom_update_job str_of_exn client b ts1 ts2 i m w d) =
     change_jobs (case res of Inr (updated, failed) \<Rightarrow> mark_geom_job_done i updated failed ts2
                  | Inl message \<Rightarrow> mark_geom_job_failed i 0 0 (take 2000 message) ts2)
       (store_all us (change_jobs (mark_geom_job_running i ts1) d))"
proof -
  let ?d = "change_jobs (mark_geom_job_running i ts1) d"
  obtain r w' d' where u: "update_geoms client b m w ?d = ((r, w'), d')" by (metis prod.collapse)
  with update_geoms_stores [of client b m w ?d] obtain us where d': "d' = store_all us ?d" by auto
  show ?thesis
  proof (cases r)
    case (Inl e)
    with u d' show ?thesis
      by (intro exI [of _ us] exI [of _ "Inl (str_of_exn e)"]) (simp add: run_geom_update_job_def)
  next
    case (Inr p)
    with u d' show ?thesis
      by (intro exI [of _ us] exI [of _ "Inr p"]) (simp add: run_geom_update_job_def split: prod.split)
  qed
qed

lemma store_all_run:
  assumes "service_run ext w" "sv_queue w \<noteq> []"
  shows "service_run ext (on_db (store_all us) w)"
  using assms
proof (induction us arbitrary: w)
  case Nil
  then show ?case by (simp add: on_db_def store_all_def)
next
  case (Cons u us)
  obtain i g where u: "u = (i, g)" by fastforce
  have "service_run ext (on_db (store_all us) (on_db (store_geom i g) w))"
    by (rule Cons.IH [OF service_run.stores [OF Cons.prems]]) (use Cons.prems(2) in \<open>simp add: on_db_def\<close>)
  then show ?case by (simp add: u on_db_def store_all_def)
qed

lemma scheduled_job_run:
  assumes run: "service_run ext w" and i: "i \<in> set (sv_queue w)"
  shows "service_run ext (run_scheduled_job ext http str_of_exn ts1 ts2 n i w)"
proof -
  let ?w1 = "job_begins ext i ts1 w"
  have w1: "service_run ext ?w1" by (rule service_run.begins [OF run i])
  have q: "sv_queue ?w1 = sv_queue w" by (simp add: job_begins_def on_db_def)
  have steps: "service_run ext (job_ends i res ts2 (on_db (store_all us) ?w1))" for us res
    by (rule service_run.ends [OF store_all_run [OF w1]]) (use i q in \<open>auto simp: on_db_def\<close>)
  obtain s st where ws: "with_settings ext (sv_system w) Inr = (s, st)" by fastforce
  show ?thesis
  proof (cases s)
    case (Inl e)
    have "run_scheduled_job ext http str_of_exn ts1 ts2 n i w = job_ends i (Inl (str_of_exn e)) ts2 (on_db (store_all []) ?w1)"
      by (simp add: run_scheduled_job_def ws Inl job_ends_def job_begins_def on_db_def store_all_def)
    with steps show ?thesis by simp
  next
    case (Inr settings)
    let ?client = "\<lparr>api_key = vworld_geocoder_key settings, client_timeout_s = vworld_timeout_s settings,
        client_retries = vworld_retries settings, client_backoff_s = vworld_backoff_s settings\<rparr>"
    obtain us res where job: "snd (run_geom_update_job str_of_exn (\<lambda>n addr. get_parcel_geometry (ext_lib ext) http ?client addr n)
        (vworld_backoff_s settings) ts1 ts2 i 5 n (sys_db st)) =
      change_jobs (case res of Inr (updated, failed) \<Rightarrow> mark_geom_job_done i updated failed ts2
                  | Inl message \<Rightarrow> mark_geom_job_failed i 0 0 (take 2000 message) ts2)
        (store_all us (change_jobs (mark_geom_job_running i ts1) (sys_db st)))"
      using job_is_steps by metis
    have "run_scheduled_job ext http str_of_exn ts1 ts2 n i w = job_ends i res ts2 (on_db (store_all us) ?w1)"
      by (simp add: run_scheduled_job_def ws Inr job job_ends_def job_begins_def on_db_def)
    with steps show ?thesis by simp
  qed
qed

section \<open>Property\<close>

text \<open>
  C2. Over the whole life of the service, whatever its visitors and administrators send, whenever it is restarted and
  however its boundary jobs interleave with the requests: the active jobs of the table are exactly those waiting or running in
  the background, in the order they were created, so none is forgotten and none lingers; unless an update of settings failed
  half-way, the cached settings are the ones the environment denotes and the configuration in force is theirs; the
  login limiter runs with the parameters of that configuration; identifiers are unique; and every row of the event tables is
  within its bounds, each event with its raw query log beside it.
\<close>

theorem service_invariant:
  assumes "service_run ext w"
  shows "let st = sv_system w in
    map job_id (active_jobs (sys_db st)) = sv_queue w \<and>
    (sv_settled w \<longrightarrow> (\<exists>s. settings_cache (sys_process st) = Some s \<and>
       build_settings (ext_base_dir ext) (environ (sys_process st)) = Inr s \<and> sys_config st = runtime_config s)) \<and>
    max_attempts (app_login_limiter (sys_app st)) = LOGIN_MAX_ATTEMPTS (sys_config st) \<and>
    cooldown_seconds (app_login_limiter (sys_app st)) = LOGIN_COOLDOWN_SECONDS (sys_config st) \<and>
    poi_ok (poi (sys_db st)) \<and> jobs_ok (jobs (sys_db st)) \<and>
    list_all2 event_pair_ok (me_rows (sys_events st)) (rq_rows (sys_events st)) \<and>
    map me_id (me_rows (sys_events st)) = [1..me_seq (sys_events st)] \<and>
    map rq_id (rq_rows (sys_events st)) = [1..me_seq (sys_events st)] \<and>
    map wv_id (wv_rows (sys_visits st)) = [1..wv_seq (sys_visits st)] \<and>
    (\<forall>v \<in> set (wv_rows (sys_visits st)). \<exists>now allowed. visit_ok now allowed v)"
  using service_run_ok [OF assms]
  by (auto simp: Let_def service_ok_def in_force_def app_consistent_def tables_ok_def events_ok_def visits_ok_def)

text \<open>A first start from an environment, and an upload that schedules a job.\<close>

definition sample_environ :: env where
  "sample_environ = map_of
     [(asc ''MAP_CENTER_LON'', asc ''126''), (asc ''MAP_CENTER_LAT'', asc ''36''), (asc ''VWORLD_WMTS_KEY'', asc ''w''),
      (asc ''VWORLD_GEOCODER_KEY'', asc ''g''), (asc ''ADMIN_ID'', asc ''admin''),
      (asc ''ADMIN_PW_HASH'', asc ''$2b$12$abcdefghijklmnopqrstuuABCDEFGHIJKLMNOPQRSTUVWXYZ01234''),
      (asc ''SECRET_KEY'', asc ''s''), (asc ''VWORLD_TIMEOUT_S'', asc ''5''), (asc ''VWORLD_BACKOFF_S'', asc ''1''),
      (asc ''RAW_QUERY_EXPORT_TIMEOUT_S'', asc ''30'')]"

definition blank_system :: system where
  "blank_system = sample_system\<lparr>sys_process := \<lparr>environ = Map.empty, stored = Map.empty, settings_cache = None\<rparr>\<rparr>"

lemma sample_boot: "case boot sample_ext sample_environ [48] blank_system of Inr w \<Rightarrow> sv_settled w \<and> sv_queue w = [] | Inl _ \<Rightarrow> False"
  by code_simp


definition sample_refresh :: visit where
  "sample_refresh = Administer
     (sample_admin\<lparr>session := [asc ''user'' \<mapsto> asc ''admin'', asc ''csrf_token'' \<mapsto> asc ''t'',
        SESSION_NAMESPACE_KEY \<mapsto> asc ''idle-public-property'']\<rparr>) (GeomRefresh (asc ''t'') [49])"

lemma sample_service:
  "case boot sample_ext sample_environ [48] blank_system of
     Inr w \<Rightarrow> sv_settled w \<and> sv_queue (serve sample_ext sample_refresh w) = [1] | Inl _ \<Rightarrow> False"
  by code_simp

lemma case_Inr: "(case m of Inr x \<Rightarrow> P x | Inl _ \<Rightarrow> False) \<Longrightarrow> \<exists>x. m = Inr x \<and> P x"
  by (cases m) simp_all

lemma sample_service_run: "\<exists>w. service_run sample_ext w \<and> sv_queue w = [1]"
proof -
  obtain w where boot: "boot sample_ext sample_environ [48] blank_system = Inr w" and q: "sv_queue (serve sample_ext sample_refresh w) = [1]"
    using case_Inr [OF sample_service] by blast
  have "fresh blank_system" by (simp add: fresh_def blank_system_def sample_system_def)
  from service_run.request [OF service_run.first [OF this boot], of sample_refresh] q show ?thesis by blast
qed

lemma service_invariant_witness: "\<exists>w. service_run sample_ext w \<and> sv_queue w = [1] \<and> map job_id (active_jobs (sv_db w)) = [1]"
proof -
  obtain w where run: "service_run sample_ext w" and q: "sv_queue w = [1]" using sample_service_run by blast
  from service_invariant [OF run] have "map job_id (active_jobs (sv_db w)) = sv_queue w" unfolding Let_def by (elim conjE)
  with run q show ?thesis by auto
qed

end
