(* ===== verification/Main_App.thy ===== *)
theory Main_App
  imports Startup Admin_Routes
begin

text \<open>
  The middlewares of \<open>app/main.py\<close> and the exception handlers of \<open>app/exceptions.py\<close> around an
  application: the size limit on event bodies, the security headers and the request id. The framework's
  order is the documented one: the last middleware added is the outermost, the handlers of
  \<open>HTTPException\<close> run inside all of them, the handler of every other exception outside.
\<close>

section \<open>Scopes and headers\<close>

text \<open>A connection: its type, path and headers (names in lower case), and the id a middleware gave it.\<close>

record scope =
  scope_type :: pystr
  scope_path :: pystr
  scope_headers :: "(pystr \<times> pystr) list"
  scope_request_id :: "pystr option"

type_synonym 's application = "scope \<Rightarrow> 's \<Rightarrow> answer \<times> 's"

definition is_http :: "scope \<Rightarrow> bool" where
  "is_http scope \<longleftrightarrow> scope_type scope = asc ''http''"

text \<open>\<open>headers[name] = value\<close>: the first one is replaced and the others are dropped, or it is added at the end.\<close>

fun set_header :: "pystr \<Rightarrow> pystr \<Rightarrow> (pystr \<times> pystr) list \<Rightarrow> (pystr \<times> pystr) list" where
  "set_header k v [] = [(k, v)]"
| "set_header k v ((k', v') # hs) =
     (if k' = k then (k, v) # filter (\<lambda>(k', _). k' \<noteq> k) hs else (k', v') # set_header k v hs)"

definition with_headers :: "(pystr \<times> pystr) list \<Rightarrow> answer \<Rightarrow> answer" where
  "with_headers new a = bindR a (\<lambda>(r, hs). Inr (r, fold (\<lambda>(k, v). set_header k v) new hs))"

section \<open>Middlewares\<close>

definition MAX_EVENT_BODY_BYTES :: int where
  "MAX_EVENT_BODY_BYTES = 16 * 1024"

definition EVENT_BODY_LIMITED_PATHS :: "pystr set" where
  "EVENT_BODY_LIMITED_PATHS =
     {asc ''/api/events'', asc ''/api/web-events'', asc ''/api/v1/events'', asc ''/api/v1/web-events''}"

definition body_too_large :: answer where
  "body_too_large = Inr (JSONResponse 413 [(asc ''success'', JBool False), (asc ''message'', JStr msg_body_too_large)], [])"

definition event_body_limit :: "'s application \<Rightarrow> 's application" where
  "event_body_limit app scope s =
     (if is_http scope \<and> scope_path scope \<in> EVENT_BODY_LIMITED_PATHS
      then let raw_length = (case map_of (scope_headers scope) (asc ''content-length'') of None \<Rightarrow> [] | Some v \<Rightarrow> v)
           in if \<not> isdecimal raw_length then (body_too_large, s)
              else case py_int raw_length of
                     Inl e \<Rightarrow> (Inl e, s)
                   | Inr n \<Rightarrow> if MAX_EVENT_BODY_BYTES < n then (body_too_large, s) else app scope s
      else app scope s)"

definition security_policy :: "(pystr \<times> pystr) list" where
  "security_policy =
     [(asc ''x-frame-options'', asc ''DENY''),
      (asc ''x-content-type-options'', asc ''nosniff''),
      (asc ''content-security-policy'',
       asc ''default-src 'self' https://cdn.jsdelivr.net https://api.vworld.kr; '' @
       asc ''script-src 'self' https://cdn.jsdelivr.net https://api.vworld.kr; '' @
       asc ''style-src 'self' 'unsafe-inline' https://cdn.jsdelivr.net; '' @
       asc ''img-src 'self' data: https://api.vworld.kr https://xdworld.vworld.kr;'')]"

definition security_headers :: "'s application \<Rightarrow> 's application" where
  "security_headers app scope s =
     (if \<not> is_http scope then app scope s
      else let (a, s) = app scope s in (with_headers security_policy a, s))"

text \<open>\<open>fresh\<close> is the text of the random UUID.\<close>

definition request_id_for :: "pystr \<Rightarrow> scope \<Rightarrow> pystr" where
  "request_id_for fresh scope =
     (case map_of (scope_headers scope) (asc ''x-request-id'') of
        None \<Rightarrow> fresh | Some v \<Rightarrow> if v = [] then fresh else v)"

definition request_context_layer :: "pystr \<Rightarrow> 's application \<Rightarrow> 's application" where
  "request_context_layer fresh app scope s =
     (if \<not> is_http scope then app scope s
      else let rid = request_id_for fresh scope;
               (a, s) = app (scope\<lparr>scope_request_id := Some rid\<rparr>) s
           in (with_headers [(asc ''x-request-id'', rid)] a, s))"

section \<open>The record of a request\<close>

text \<open>
  A response is sent as messages: its start, then its body in parts. The middleware wraps \<open>send\<close>: it notes the status,
  adds its header to the start and records the request after the last part, with the variables \<open>status_code\<close> and
  \<open>request_logged\<close>. The latency in the record is the clock's.
\<close>

datatype asgi_message = ResponseStart int "(pystr \<times> pystr) list" | ResponseBody bool

record completed_request =
  rl_request_id :: pystr
  rl_ip :: pystr
  rl_method :: pystr
  rl_path :: pystr
  rl_status :: int
  rl_status_class :: pystr

record request_sender =
  sent_status :: "int option"
  request_logged :: bool

definition request_completed :: "pystr \<Rightarrow> pystr option \<Rightarrow> pystr \<Rightarrow> scope \<Rightarrow> int option \<Rightarrow> completed_request" where
  "request_completed rid peer verb scope code =
     (let resolved_status = (case code of None \<Rightarrow> 500 | Some c \<Rightarrow> if c = 0 then 500 else c)
      in \<lparr>rl_request_id = rid, rl_ip = (case peer of Some h \<Rightarrow> h | None \<Rightarrow> asc ''unknown''), rl_method = verb,
          rl_path = scope_path scope, rl_status = resolved_status,
          rl_status_class = str_of_int (resolved_status div 100) @ asc ''xx''\<rparr>)"

fun send_with_request_context ::
  "pystr \<Rightarrow> pystr option \<Rightarrow> pystr \<Rightarrow> scope \<Rightarrow> asgi_message \<Rightarrow> request_sender \<Rightarrow>
   (asgi_message \<times> completed_request list) \<times> request_sender" where
  "send_with_request_context rid peer verb scope (ResponseStart code hs) s =
     ((ResponseStart code (set_header (asc ''x-request-id'') rid hs), []), s\<lparr>sent_status := Some code\<rparr>)"
| "send_with_request_context rid peer verb scope (ResponseBody more_body) s =
     (if \<not> more_body \<and> \<not> request_logged s
      then ((ResponseBody more_body, [request_completed rid peer verb scope (sent_status s)]), s\<lparr>request_logged := True\<rparr>)
      else ((ResponseBody more_body, []), s))"

definition new_sender :: request_sender where
  "new_sender = \<lparr>sent_status = None, request_logged = False\<rparr>"

abbreviation "records_of outs \<equiv> concat (map snd outs)"

lemma logged_silent:
  "request_logged s \<Longrightarrow> records_of (fst (run_steps (send_with_request_context rid peer verb scope) ms s)) = []"
proof (induction ms arbitrary: s)
  case (Cons m ms)
  then show ?case by (cases m) (simp_all del: concat_eq_Nil_conv)
qed simp

lemma parts_silent:
  "\<forall>m \<in> set ms. m = ResponseBody True \<Longrightarrow>
   run_steps (send_with_request_context rid peer verb scope) ms s = (map (\<lambda>m. (m, [])) ms, s)"
  by (induction ms arbitrary: s) auto

text \<open>
  A response that comes to its end leaves exactly one record, with its status, whatever is sent after it; one that
  breaks off before its last part leaves none.
\<close>

lemma recorded_once:
  assumes parts: "\<forall>m \<in> set parts. m = ResponseBody True"
  shows "records_of (fst (run_steps (send_with_request_context rid peer verb scope)
      (ResponseStart code hs # parts @ ResponseBody False # rest) new_sender)) =
      [request_completed rid peer verb scope (Some code)]"
    and "records_of (fst (run_steps (send_with_request_context rid peer verb scope) (ResponseStart code hs # parts) new_sender)) = []"
  using logged_silent [of "\<lparr>sent_status = Some code, request_logged = True\<rparr>" rid peer verb scope rest]
  by (simp_all add: run_steps_append parts_silent [OF parts] new_sender_def comp_def del: concat_eq_Nil_conv) (simp_all add: concat_eq_Nil_conv)

lemma recorded_status:
  "100 \<le> code \<Longrightarrow> rl_status (request_completed rid peer verb scope (Some code)) = code"
  by (simp add: request_completed_def)

section \<open>Exception handlers\<close>

definition state_request_id_of :: "pystr option \<Rightarrow> pystr" where
  "state_request_id_of rid = (case rid of None \<Rightarrow> [45] | Some i \<Rightarrow> i)"

definition http_exception_handler :: "pystr option \<Rightarrow> int \<Rightarrow> pystr \<Rightarrow> reply" where
  "http_exception_handler rid status_code detail =
     JSONResponse status_code [(asc ''detail'', JStr detail), (asc ''request_id'', JStr (state_request_id_of rid))]"

definition unhandled_exception_handler :: "pystr option \<Rightarrow> reply" where
  "unhandled_exception_handler rid =
     JSONResponse 500 [(asc ''detail'', JStr msg_server_error), (asc ''request_id'', JStr (state_request_id_of rid))]"

definition exception_layer :: "'s application \<Rightarrow> 's application" where
  "exception_layer app scope s =
     (let (a, s) = app scope s
      in (case a of
            Inl (HTTPException status_code detail) \<Rightarrow>
              Inr (http_exception_handler (scope_request_id scope) status_code detail, [])
          | _ \<Rightarrow> a, s))"

text \<open>The whole stack. The scope is one object: the outermost handler reads the id the middleware gave it.\<close>

definition main_app :: "pystr \<Rightarrow> 's application \<Rightarrow> scope \<Rightarrow> 's \<Rightarrow> (reply \<times> (pystr \<times> pystr) list) \<times> 's" where
  "main_app fresh app scope s =
     (let (a, s) = request_context_layer fresh (security_headers (event_body_limit (exception_layer app))) scope s
      in case a of
           Inr response \<Rightarrow> (response, s)
         | Inl _ \<Rightarrow>
             ((unhandled_exception_handler
                 (if is_http scope then Some (request_id_for fresh scope) else scope_request_id scope), []), s))"

section \<open>Every response\<close>

definition header_values :: "pystr \<Rightarrow> (pystr \<times> pystr) list \<Rightarrow> pystr list" where
  "header_values k hs = map snd (filter (\<lambda>(k', _). k' = k) hs)"

lemma header_values_set:
  "header_values k (set_header k' v hs) = (if k = k' then [v] else header_values k hs)"
proof (induction k' v hs rule: set_header.induct)
  case (2 k' v k'' v' hs)
  have "filter (\<lambda>(l, _). l = k) (filter (\<lambda>(l, _). l \<noteq> k') hs) = (if k = k' then [] else filter (\<lambda>(l, _). l = k) hs)"
    by (induction hs) auto
  then show ?case using 2 by (auto simp: header_values_def split_beta)
qed (simp add: header_values_def)

lemma header_values_fold:
  "distinct (map fst new) \<Longrightarrow>
   header_values k (fold (\<lambda>(k, v). set_header k v) new hs) = (case map_of new k of Some v \<Rightarrow> [v] | None \<Rightarrow> header_values k hs)"
proof (induction new arbitrary: hs)
  case (Cons h new)
  obtain k' v where h: "h = (k', v)" by fastforce
  from Cons.prems have "map_of new k' = None" by (simp add: h map_of_eq_None_iff)
  with Cons show ?case by (auto simp: h header_values_set split: option.split)
qed simp

lemma policy_names_distinct: "distinct (map fst (security_policy))"
  by (simp add: security_policy_def)

text \<open>The length that a client declares, and whether the limit lets it through.\<close>

definition declared_length :: "scope \<Rightarrow> pystr" where
  "declared_length scope = (case map_of (scope_headers scope) (asc ''content-length'') of None \<Rightarrow> [] | Some v \<Rightarrow> v)"

definition body_stopped :: "scope \<Rightarrow> bool" where
  "body_stopped scope \<longleftrightarrow> scope_path scope \<in> EVENT_BODY_LIMITED_PATHS \<and>
     (isdecimal (declared_length scope) \<longrightarrow>
        (case py_int (declared_length scope) of Inl _ \<Rightarrow> True | Inr n \<Rightarrow> MAX_EVENT_BODY_BYTES < n))"

text \<open>The headers a client sees: the policy and the request id once each, the application's own otherwise.\<close>

definition decorated :: "pystr \<Rightarrow> (pystr \<times> pystr) list \<Rightarrow> (pystr \<times> pystr) list \<Rightarrow> bool" where
  "decorated rid own hs \<longleftrightarrow>
     (\<forall>k. header_values k hs =
        (if k = asc ''x-request-id'' then [rid]
         else case map_of security_policy k of Some v \<Rightarrow> [v] | None \<Rightarrow> header_values k own))"

lemma decorated_layers:
  "decorated rid own (set_header (asc ''x-request-id'') rid (fold (\<lambda>(k, v). set_header k v) security_policy own))"
  by (simp add: decorated_def header_values_set header_values_fold [OF policy_names_distinct])

text \<open>
  C38. Every HTTP response. A body that the limit stops never reaches the application, whose state stays as it was:
  the answer is 413 with the policy headers, or the plain 500 for a length of too many digits to read. Any other
  request runs the application once, with the request id in its scope, and keeps its effect on the state; its reply
  and an \<open>HTTPException\<close> come back with each policy header and the request id exactly once and every other header
  untouched, and any other exception becomes a 500 that names the request id in its body and has no header at all.
\<close>

theorem every_response:
  assumes http: "is_http scope"
  shows "let rid = request_id_for fresh scope in
     case main_app fresh app scope s of ((response, hs), s') \<Rightarrow>
     if body_stopped scope
     then s' = s \<and>
       (response = JSONResponse 413 [(asc ''success'', JBool False), (asc ''message'', JStr msg_body_too_large)] \<and> decorated rid [] hs \<or>
        (\<exists>e. py_int (declared_length scope) = Inl e) \<and> response = unhandled_exception_handler (Some rid) \<and> hs = [])
     else case app (scope\<lparr>scope_request_id := Some rid\<rparr>) s of (a, s'') \<Rightarrow> s' = s'' \<and>
       (case a of
          Inr (r, own) \<Rightarrow> response = r \<and> decorated rid own hs
        | Inl (HTTPException c detail) \<Rightarrow> response = http_exception_handler (Some rid) c detail \<and> decorated rid [] hs
        | Inl _ \<Rightarrow> response = unhandled_exception_handler (Some rid) \<and> hs = [])"
proof -
  define rid where "rid = request_id_for fresh scope"
  let ?scope = "scope\<lparr>scope_request_id := Some rid\<rparr>"
  have http': "is_http ?scope" using http by (simp add: is_http_def)
  have len: "declared_length ?scope = declared_length scope" by (simp add: declared_length_def)
  obtain a s'' where inner: "app ?scope s = (a, s'')" by fastforce
  show ?thesis
  proof (cases "body_stopped scope")
    case True
    then show ?thesis
      by (auto simp: main_app_def request_context_layer_def security_headers_def event_body_limit_def with_headers_def
          body_too_large_def body_stopped_def http http' len rid_def [symmetric] decorated_layers Let_def
          declared_length_def [symmetric] split: sum.splits if_splits)
  next
    case False
    then have run: "event_body_limit (exception_layer app) ?scope s = exception_layer app ?scope s"
      by (auto simp: event_body_limit_def body_stopped_def declared_length_def Let_def split: sum.splits)
    show ?thesis using False
      by (auto simp: main_app_def request_context_layer_def security_headers_def run with_headers_def
          exception_layer_def inner http http' rid_def [symmetric] decorated_layers Let_def split: sum.splits exn.splits)
  qed
qed

text \<open>An event without a declared length, an application that refuses, and one that answers with its own headers.\<close>

definition sample_scope :: "pystr \<Rightarrow> scope" where
  "sample_scope path = \<lparr>scope_type = asc ''http'', scope_path = path, scope_headers = [], scope_request_id = None\<rparr>"

definition sample_app :: "nat application" where
  "sample_app scope n =
     (if scope_path scope = asc ''/'' then (Inr (JSONResponse 200 [], [(asc ''x-frame-options'', asc ''SAMEORIGIN'')]), n + 1)
      else (Inl (HTTPException 404 (asc ''Not Found'')), n + 1))"

lemma every_response_witness:
  "snd (main_app (asc ''id'') sample_app (sample_scope (asc ''/api/events'')) 0) = 0 \<and>
   snd (main_app (asc ''id'') sample_app (sample_scope (asc ''/'')) 0) = 1"
proof -
  have http: "is_http (sample_scope path)" for path by (simp add: is_http_def sample_scope_def)
  have stopped: "body_stopped (sample_scope (asc ''/api/events''))" and runs: "\<not> body_stopped (sample_scope (asc ''/''))"
    by (code_simp, code_simp)
  show ?thesis
    using every_response [where scope = "sample_scope (asc ''/api/events'')" and fresh = "asc ''id''" and app = sample_app and s = 0, OF http]
      every_response [where scope = "sample_scope (asc ''/'')" and fresh = "asc ''id''" and app = sample_app and s = 0, OF http]
    by (simp add: Let_def stopped runs split_beta) (simp add: sample_app_def sample_scope_def)
qed

end
