(* ===== verification/Land_Seed.thy ===== *)
theory Land_Seed
  imports Startup
begin

text \<open>
  \<open>scripts/export_land_seed.py\<close>, the tool that writes the seed, against \<open>seed_lands_if_empty\<close>, the loader that
  reads it: an exported table comes back, renumbered, in an empty database.
\<close>

section \<open>The export\<close>

definition seed_object :: "land \<Rightarrow> json" where
  "seed_object r = JObj
     [(asc ''address'', JStr (address r)), (asc ''land_type'', JStr (land_type r)),
      (asc ''area'', case area r of None \<Rightarrow> JNull | Some x \<Rightarrow> JFloat x),
      (asc ''adm_property'', JStr (adm_property r)), (asc ''gen_property'', JStr (gen_property r)),
      (asc ''contact'', JStr (contact r)), (asc ''geom'', case geom r of None \<Rightarrow> JNull | Some g \<Rightarrow> JStr g)]"

definition seed_payload :: "poi_table \<Rightarrow> json" where
  "seed_payload t = JList (map seed_object (sort_key land_id (poi_rows t)))"

text \<open>\<open>dumps\<close> is \<open>json.dumps\<close> with \<open>ensure_ascii=False, indent=0\<close>.\<close>

definition export_land_seed :: "(json \<Rightarrow> pystr) \<Rightarrow> pystr \<Rightarrow> poi_table \<Rightarrow> file_store \<Rightarrow> unit result \<times> file_store" where
  "export_land_seed dumps root_dir t fs =
     write_text (path_join (path_join root_dir (asc ''seed'')) (asc ''lands.json'')) (dumps (seed_payload t) @ [10]) fs"

section \<open>Export and load\<close>

text \<open>What the columns of a parcel hold besides its identifier and its boundary.\<close>

definition contents :: "land \<Rightarrow> pystr \<times> pystr \<times> pyfloat option \<times> pystr \<times> pystr \<times> pystr \<times> pystr option" where
  "contents r = (address r, land_type r, area r, adm_property r, gen_property r, contact r, geom r)"

text \<open>A row with an area, no empty boundary, and texts that SQLite stores (no lone surrogate).\<close>

definition seedable :: "land \<Rightarrow> bool" where
  "seedable r \<longleftrightarrow> area r \<noteq> None \<and> area r \<noteq> Some NaN \<and> geom r \<noteq> Some [] \<and>
     bind_texts [Some (address r), Some (land_type r), Some (adm_property r), Some (gen_property r), Some (contact r), geom r] = Inr ()"

lemma column_names [simp]:
  "distinct (map asc [''address'', ''land_type'', ''area'', ''adm_property'', ''gen_property'', ''contact'', ''geom''])"
  by code_simp

lemma seed_columns:
  "json_item (seed_object r) ''address'' = Inr (JStr (address r))"
  "json_item (seed_object r) ''land_type'' = Inr (JStr (land_type r))"
  "json_item (seed_object r) ''area'' = Inr (case area r of None \<Rightarrow> JNull | Some x \<Rightarrow> JFloat x)"
  "json_item (seed_object r) ''adm_property'' = Inr (JStr (adm_property r))"
  "json_item (seed_object r) ''gen_property'' = Inr (JStr (gen_property r))"
  "json_item (seed_object r) ''contact'' = Inr (JStr (contact r))"
  "json_item (seed_object r) ''geom'' = Inr (case geom r of None \<Rightarrow> JNull | Some g \<Rightarrow> JStr g)"
  "json_get (seed_object r) ''geom'' JNull = Inr (case geom r of None \<Rightarrow> JNull | Some g \<Rightarrow> JStr g)"
  using column_names unfolding seed_object_def json_item_def json_get_def by (simp_all add: eq_commute [of "asc _" "asc _"])

lemma seed_row_object:
  assumes "seedable r"
  shows "seed_row lib (seed_object r) c =
    (Inr (), on_poi (insert_land (address r) (land_type r) (the (area r)) (adm_property r) (gen_property r) (contact r) (geom r)) c)"
  using assms by (auto simp: seed_row_def seed_columns seedable_def Let_def split: option.splits)

lemma seed_rows_objects:
  assumes "list_all seedable rs"
  shows "case seed_rows lib (map seed_object rs) c of (r, c') \<Rightarrow> r = Inr () \<and>
    map contents (poi_rows (poi (work c'))) = map contents (poi_rows (poi (work c))) @ map contents rs"
  using assms
proof (induction rs arbitrary: c)
  case (Cons r rs)
  from Cons.prems have r: "seedable r" and rs: "list_all seedable rs" by simp_all
  let ?c = "on_poi (insert_land (address r) (land_type r) (the (area r)) (adm_property r) (gen_property r) (contact r) (geom r)) c"
  have "map contents (poi_rows (poi (work ?c))) = map contents (poi_rows (poi (work c))) @ [contents r]"
    using r by (auto simp: on_poi_def insert_land_def contents_def seedable_def sql_real_def)
  then show ?case using Cons.IH [OF rs, of ?c] by (simp add: seed_row_object [OF r] split_beta)
qed simp

lemma contents_sorted:
  "sorted_wrt (\<lambda>r s. land_id r < land_id s) rs \<Longrightarrow> sort_key land_id rs = rs"
  by (rule sort_key_id_if_sorted) (auto simp: sorted_map elim: sorted_wrt_mono_rel [rotated])

lemma seed_objects_contents:
  "map contents rs = map contents rs' \<Longrightarrow> map seed_object rs = map seed_object rs'"
  by (induction rs rs' rule: list_induct2') (auto simp: contents_def seed_object_def)

lemma seed_payload_contents:
  assumes "poi_ok t" "poi_ok t'" "map contents (poi_rows t) = map contents (poi_rows t')"
  shows "seed_payload t = seed_payload t'"
proof -
  have "sort_key land_id (poi_rows t) = poi_rows t" "sort_key land_id (poi_rows t') = poi_rows t'"
    using assms(1,2) by (auto simp: poi_ok_def intro: contents_sorted)
  with seed_objects_contents [OF assms(3)] show ?thesis by (simp add: seed_payload_def)
qed

lemma seed_payload_rows: "poi_ok t \<Longrightarrow> seed_payload t = JList (map seed_object (poi_rows t))"
  by (simp add: seed_payload_def poi_ok_def contents_sorted)

text \<open>
  C39. Export and seed. The tool writes the parcels of a table to the seed file, and a start on an empty table loads
  that file: as many parcels as there were, with the same columns in the same order, and nothing else of the
  database changes. A second export from the seeded table writes the same bytes. \<open>json.loads\<close> reads what
  \<open>json.dumps\<close> wrote, and each parcel has an area and no empty boundary.
\<close>

theorem seed_roundtrip:
  assumes table: "poi_ok t" "list_all seedable (poi_rows t)"
    and json: "lib_loads lib (dumps (seed_payload t) @ [10]) = Inr (seed_payload t)"
    and utf8: "encode_utf8 (dumps (seed_payload t) @ [10]) = Inr bs" "unicode (dumps (seed_payload t) @ [10])"
    and empty: "poi_rows (poi d) = []" "poi_ok (poi d)"
  shows "case export_land_seed dumps base t fs of (r, fs') \<Rightarrow>
     case seed_lands_if_empty lib (path_join (path_join base (asc ''seed'')) (asc ''lands.json'')) fs' d of (n, d') \<Rightarrow>
       r = Inr () \<and> n = Inr (int (length (poi_rows t))) \<and>
       map contents (poi_rows (poi d')) = map contents (poi_rows t) \<and> jobs d' = jobs d \<and>
       export_land_seed dumps base (poi d') fs' = (Inr (), fs')"
proof -
  let ?path = "path_join (path_join base (asc ''seed'')) (asc ''lands.json'')"
  let ?c = "\<lparr>work = d, disk = d\<rparr>"
  let ?fs = "fs(?path \<mapsto> bs)"
  have written: "export_land_seed dumps base t fs = (Inr (), ?fs)"
    by (simp add: export_land_seed_def write_text_def utf8)
  have content: "read_text ?path ?fs = Inr (Some (dumps (seed_payload t) @ [10]))"
    by (simp add: read_text_def decode_encode_utf8 [OF utf8])
  obtain r c where rows: "seed_rows lib (map seed_object (poi_rows t)) ?c = (r, c)" by fastforce
  with seed_rows_objects [OF table(2), where lib = lib and c = ?c] empty(1)
  have r: "r = Inr ()" and cs: "map contents (poi_rows (poi (work c))) = map contents (poi_rows t)" by simp_all
  from seed_rows_table [where lib = lib and c = ?c and rows = "map seed_object (poi_rows t)"] rows r empty(2)
  have c: "jobs (work c) = jobs d" "poi_ok (poi (work c))" by auto
  have payload: "seed_payload t = JList (map seed_object (poi_rows t))" by (rule seed_payload_rows [OF table(1)])
  have seeded: "seed_lands_if_empty lib ?path ?fs d = (Inr (int (length (poi_rows t))), work c)"
    using rows r
    by (simp add: seed_lands_if_empty_def content json [unfolded payload] payload db_connection_def count_all_lands_def empty(1))
  have "seed_payload (poi (work c)) = seed_payload t" by (rule seed_payload_contents [OF c(2) table(1) cs])
  then have again: "export_land_seed dumps base (poi (work c)) ?fs = (Inr (), ?fs)"
    by (simp add: export_land_seed_def write_text_def utf8(1))
  show ?thesis by (simp add: written seeded cs c again)
qed

text \<open>A library that prints this payload as \<open>[0]\<close>, and reads that text as it.\<close>

definition seed_land :: land where
  "seed_land = \<lparr>land_id = 7, address = asc ''a'', land_type = asc ''b'', area = Some (Fin 2), adm_property = [], gen_property = [],
     contact = [], geom = None\<rparr>"

definition seed_poi :: poi_table where
  "seed_poi = \<lparr>poi_rows = [seed_land], poi_seq = 9\<rparr>"

definition seed_lib :: pylib where
  "seed_lib = \<lparr>lib_str = (\<lambda>_. []), lib_dumps = (\<lambda>_. asc ''[0]''), lib_dumps_raw = (\<lambda>_. asc ''[0]''),
     lib_loads = (\<lambda>s. if s = asc ''[0]'' @ [10] then Inr (seed_payload seed_poi) else Inl JSONDecodeErr)\<rparr>"

lemma seed_roundtrip_witness:
  "map contents (poi_rows (poi (snd (seed_lands_if_empty seed_lib
      (path_join (path_join [] (asc ''seed'')) (asc ''lands.json''))
      (snd (export_land_seed (\<lambda>_. asc ''[0]'') [] seed_poi (\<lambda>_. None))) \<lparr>poi = empty_poi, jobs = empty_jobs\<rparr>)))) = [contents seed_land]"
proof -
  have rows: "poi_ok seed_poi" "list_all seedable (poi_rows seed_poi)" "poi_ok (poi \<lparr>poi = empty_poi, jobs = empty_jobs\<rparr>)"
    by (auto simp: poi_ok_def seed_poi_def seed_land_def seedable_def empty_poi_def bind_texts_def asc_def encode_utf8_def utf8_char_def)
  have enc: "encode_utf8 (asc ''[0]'' @ [10]) = Inr [91, 48, 93, 10]" "unicode (asc ''[0]'' @ [10])" by code_simp+
  show ?thesis
    using seed_roundtrip [where t = seed_poi and lib = seed_lib and dumps = "\<lambda>_. asc ''[0]''" and base = "[]" and fs = "\<lambda>_. None"
        and d = "\<lparr>poi = empty_poi, jobs = empty_jobs\<rparr>", OF rows(1,2) _ enc _ rows(3)]
    by (simp add: seed_lib_def empty_poi_def seed_poi_def split_beta)
qed

end
