(* ===== verification/Assets.thy ===== *)
theory Assets
  imports Files
begin

text \<open>\<open>app/utils/assets.py\<close>: the files of the built front end, looked up in the manifest of the build.\<close>

definition manifest_candidates :: "pystr \<Rightarrow> pystr list" where
  "manifest_candidates base_dir =
     (let dist = path_join (path_join base_dir (asc ''static'')) (asc ''dist'')
      in [path_join (path_join dist (asc ''.vite'')) (asc ''manifest.json''), path_join dist (asc ''manifest.json'')])"

text \<open>The first candidate that exists is read; what it holds is not checked.\<close>

fun load_first :: "pylib \<Rightarrow> pystr list \<Rightarrow> file_store \<Rightarrow> json result" where
  "load_first lib [] fs = Inl (OtherErr (asc ''FileNotFoundError''))"
| "load_first lib (path # paths) fs =
     bindR (read_text path fs) (\<lambda>content.
       case content of Some s \<Rightarrow> lib_loads lib s | None \<Rightarrow> load_first lib paths fs)"

definition load_manifest :: "pylib \<Rightarrow> pystr \<Rightarrow> file_store \<Rightarrow> json result" where
  "load_manifest lib base_dir = load_first lib (manifest_candidates base_dir)"

definition removeprefix :: "pystr \<Rightarrow> pystr \<Rightarrow> pystr" where
  "removeprefix s p = (if startswith s p then drop (length p) s else s)"

text \<open>The keys an entry is looked up by, in this order.\<close>

definition entry_keys :: "pystr \<Rightarrow> pystr list" where
  "entry_keys entry = [entry, lstrip_chars [47] entry, removeprefix entry (asc ''frontend/'')]"

definition resolve_entry :: "(pystr \<times> json) list \<Rightarrow> pystr \<Rightarrow> json result" where
  "resolve_entry manifest entry =
     (case find (\<lambda>k. map_of manifest k \<noteq> None) (entry_keys entry) of
        Some k \<Rightarrow> Inr (the (map_of manifest k))
      | None \<Rightarrow> Inl KeyErr)"

text \<open>What \<open>key in manifest\<close>, \<open>manifest[key]\<close> and \<open>manifest.keys()\<close> raise on a manifest that is not an object.\<close>

fun not_an_object :: "json \<Rightarrow> pystr \<Rightarrow> exn" where
  "not_an_object (JList xs) entry = (if list_ex (\<lambda>k. JStr k \<in> set xs) (entry_keys entry) then TypeErr else AttributeErr)"
| "not_an_object (JStr s) entry = (if list_ex (\<lambda>k. contains_str k s) (entry_keys entry) then TypeErr else AttributeErr)"
| "not_an_object _ entry = TypeErr"

record ViteAssetBundle =
  bundle_js :: pystr
  bundle_css :: "pystr list"

definition dist_path :: "pylib \<Rightarrow> json \<Rightarrow> pystr" where
  "dist_path lib name = asc ''/static/dist/'' @ py_str (lib_str lib) name"

definition vite_assets :: "pylib \<Rightarrow> pystr \<Rightarrow> pystr \<Rightarrow> file_store \<Rightarrow> ViteAssetBundle result" where
  "vite_assets lib entry base_dir fs =
     bindR (load_manifest lib base_dir fs) (\<lambda>manifest.
     case manifest of
       JObj kvs \<Rightarrow>
         bindR (resolve_entry kvs entry) (\<lambda>item.
         bindR (json_get item ''file'' JNull) (\<lambda>js_file.
         if \<not> truthy js_file then Inl KeyErr
         else bindR (json_get item ''css'' (JList [])) (\<lambda>css_files.
              bindR (json_items css_files) (\<lambda>css.
              Inr \<lparr>bundle_js = dist_path lib js_file, bundle_css = map (dist_path lib) css\<rparr>))))
     | _ \<Rightarrow> Inl (not_an_object manifest entry))"

section \<open>The bundle\<close>

text \<open>
  An entry comes from the first of its keys that the manifest has, even when another key's item would do: the bundle
  is that item's, every path of it is under the served directory, and an item without a file is no bundle.
\<close>

lemma vite_assets_exact:
  assumes "load_manifest lib base_dir fs = Inr (JObj kvs)"
  shows "vite_assets lib entry base_dir fs = Inr b \<longleftrightarrow>
    (\<exists>k item js css files. find (\<lambda>k. map_of kvs k \<noteq> None) (entry_keys entry) = Some k \<and> map_of kvs k = Some item \<and>
       json_get item ''file'' JNull = Inr js \<and> truthy js \<and>
       json_get item ''css'' (JList []) = Inr css \<and> json_items css = Inr files \<and>
       b = \<lparr>bundle_js = dist_path lib js, bundle_css = map (dist_path lib) files\<rparr>)"
proof (cases "find (\<lambda>k. map_of kvs k \<noteq> None) (entry_keys entry)")
  case None
  then show ?thesis using assms by (simp add: vite_assets_def resolve_entry_def)
next
  case (Some k)
  then obtain item where "map_of kvs k = Some item" by (auto simp: find_Some_iff)
  with Some assms show ?thesis by (auto simp: vite_assets_def resolve_entry_def bindR_Inr_iff)
qed

end
