(* ===== verification/Schema.thy ===== *)
theory Schema
  imports Prelude
begin

text \<open>
  The schema creation of \<open>app/repositories/\<close>: what \<open>init_db\<close> runs at every start, on a new database or on one that an
  earlier version of the program created. A schema maps the name of a table to its columns (name and declaration) and
  the name of an index to its table and columns; names are compared as SQLite does, without ASCII case. A statement of
  data definition takes effect at once, so an error leaves what came before it.
\<close>

section \<open>Data definition\<close>

definition nocase :: "string \<Rightarrow> string" where
  "nocase = map (\<lambda>c. if 65 \<le> (of_char c :: nat) \<and> (of_char c :: nat) \<le> 90 then char_of ((of_char c :: nat) + 32) else c)"

type_synonym columns = "(string \<times> string) list"

record schema =
  tables :: "string \<rightharpoonup> columns"
  indexes :: "string \<rightharpoonup> string \<times> string list"

definition column_names :: "columns \<Rightarrow> string set" where
  "column_names cs = nocase ` fst ` set cs"

definition operational_error :: exn where
  "operational_error = OtherErr (asc ''OperationalError'')"

text \<open>\<open>CREATE TABLE IF NOT EXISTS\<close>\<close>

definition create_table :: "string \<Rightarrow> columns \<Rightarrow> schema \<Rightarrow> unit result \<times> schema" where
  "create_table t cs s =
     (Inr (), case tables s (nocase t) of None \<Rightarrow> s\<lparr>tables := (tables s)(nocase t \<mapsto> cs)\<rparr> | Some _ \<Rightarrow> s)"

text \<open>\<open>PRAGMA table_info\<close>: no rows for a table that does not exist.\<close>

definition table_info :: "string \<Rightarrow> schema \<Rightarrow> columns" where
  "table_info t s = (case tables s (nocase t) of None \<Rightarrow> [] | Some cs \<Rightarrow> cs)"

text \<open>\<open>ALTER TABLE ADD COLUMN\<close>\<close>

definition add_column :: "string \<Rightarrow> string \<times> string \<Rightarrow> schema \<Rightarrow> unit result \<times> schema" where
  "add_column t c s =
     (case tables s (nocase t) of
        None \<Rightarrow> (Inl operational_error, s)
      | Some cs \<Rightarrow>
          if nocase (fst c) \<in> column_names cs then (Inl operational_error, s)
          else (Inr (), s\<lparr>tables := (tables s)(nocase t \<mapsto> cs @ [c])\<rparr>))"

text \<open>\<open>CREATE INDEX IF NOT EXISTS\<close>\<close>

definition create_index :: "string \<Rightarrow> string \<Rightarrow> string list \<Rightarrow> schema \<Rightarrow> unit result \<times> schema" where
  "create_index i t ks s =
     (case indexes s (nocase i) of
        Some _ \<Rightarrow> (Inr (), s)
      | None \<Rightarrow>
          if tables s (nocase t) \<noteq> None \<and> nocase ` set ks \<subseteq> column_names (table_info t s)
          then (Inr (), s\<lparr>indexes := (indexes s)(nocase i \<mapsto> (t, ks))\<rparr>)
          else (Inl operational_error, s))"

text \<open>One statement after the other, up to the first that raises.\<close>

fun in_order :: "('s \<Rightarrow> unit result \<times> 's) list \<Rightarrow> 's \<Rightarrow> unit result \<times> 's" where
  "in_order [] s = (Inr (), s)"
| "in_order (f # fs) s = (case f s of (Inl e, s) \<Rightarrow> (Inl e, s) | (Inr _, s) \<Rightarrow> in_order fs s)"

section \<open>The tables of the program\<close>

definition POI_COLUMNS :: columns where
  "POI_COLUMNS =
     [(''id'', ''INTEGER PRIMARY KEY AUTOINCREMENT''), (''address'', ''TEXT''), (''land_type'', ''TEXT''), (''area'', ''REAL''),
      (''adm_property'', ''TEXT''), (''gen_property'', ''TEXT''), (''contact'', ''TEXT''), (''geom'', ''TEXT'')]"

definition JOB_COLUMNS :: columns where
  "JOB_COLUMNS =
     [(''id'', ''INTEGER PRIMARY KEY AUTOINCREMENT''), (''status'', ''TEXT NOT NULL DEFAULT 'pending'' @ [CHR 0x27]), (''attempts'', ''INTEGER NOT NULL DEFAULT 0''),
      (''updated_count'', ''INTEGER NOT NULL DEFAULT 0''), (''failed_count'', ''INTEGER NOT NULL DEFAULT 0''), (''error_message'', ''TEXT''),
      (''created_at'', ''TEXT NOT NULL DEFAULT CURRENT_TIMESTAMP''), (''updated_at'', ''TEXT NOT NULL DEFAULT CURRENT_TIMESTAMP'')]"

definition MAP_EVENT_COLUMNS :: columns where
  "MAP_EVENT_COLUMNS =
     [(''id'', ''INTEGER PRIMARY KEY AUTOINCREMENT''), (''event_type'', ''TEXT NOT NULL''), (''anon_id'', ''TEXT''), (''land_address'', ''TEXT''),
      (''region_name'', ''TEXT''), (''min_area_value'', ''REAL''), (''min_area_bucket'', ''TEXT''),
      (''region_source'', ''TEXT NOT NULL DEFAULT 'derived_address'' @ [CHR 0x27]), (''created_at'', ''TEXT NOT NULL DEFAULT CURRENT_TIMESTAMP'')]"

definition RAW_QUERY_COLUMNS :: columns where
  "RAW_QUERY_COLUMNS =
     [(''id'', ''INTEGER PRIMARY KEY AUTOINCREMENT''), (''event_type'', ''TEXT NOT NULL''), (''anon_id'', ''TEXT''), (''raw_region_query'', ''TEXT''),
      (''raw_min_area_input'', ''TEXT''), (''raw_max_area_input'', ''TEXT''), (''raw_rent_only_input'', ''TEXT''), (''raw_land_id_input'', ''TEXT''),
      (''raw_land_address_input'', ''TEXT''), (''raw_click_source_input'', ''TEXT''), (''raw_payload_json'', ''TEXT NOT NULL''),
      (''created_at'', ''TEXT NOT NULL DEFAULT CURRENT_TIMESTAMP'')]"

definition WEB_VISIT_COLUMNS :: columns where
  "WEB_VISIT_COLUMNS =
     [(''id'', ''INTEGER PRIMARY KEY AUTOINCREMENT''), (''anon_id'', ''TEXT NOT NULL''), (''session_id'', ''TEXT NOT NULL''), (''event_type'', ''TEXT NOT NULL''),
      (''page_path'', ''TEXT NOT NULL''), (''page_query'', ''TEXT''), (''occurred_at'', ''TEXT NOT NULL DEFAULT CURRENT_TIMESTAMP''), (''client_tz'', ''TEXT''),
      (''client_lang'', ''TEXT''), (''platform'', ''TEXT''), (''user_agent'', ''TEXT''), (''is_bot'', ''INTEGER NOT NULL DEFAULT 0''),
      (''referrer_url'', ''TEXT''), (''referrer_domain'', ''TEXT''), (''utm_source'', ''TEXT''), (''utm_medium'', ''TEXT''), (''utm_campaign'', ''TEXT''),
      (''utm_term'', ''TEXT''), (''utm_content'', ''TEXT''), (''screen_width'', ''INTEGER''), (''screen_height'', ''INTEGER''), (''viewport_width'', ''INTEGER''),
      (''viewport_height'', ''INTEGER''), (''browser_family'', ''TEXT''), (''device_type'', ''TEXT''), (''os_family'', ''TEXT'')]"

definition SCHEMA_COLUMNS :: columns where
  "SCHEMA_COLUMNS =
     [(''referrer_url'', ''TEXT''), (''referrer_domain'', ''TEXT''), (''utm_source'', ''TEXT''), (''utm_medium'', ''TEXT''), (''utm_campaign'', ''TEXT''),
      (''utm_term'', ''TEXT''), (''utm_content'', ''TEXT''), (''page_query'', ''TEXT''), (''client_lang'', ''TEXT''), (''platform'', ''TEXT''),
      (''screen_width'', ''INTEGER''), (''screen_height'', ''INTEGER''), (''viewport_width'', ''INTEGER''), (''viewport_height'', ''INTEGER''),
      (''browser_family'', ''TEXT''), (''device_type'', ''TEXT''), (''os_family'', ''TEXT'')]"

definition INDEX_STATEMENTS :: "(string \<times> string list) list" where
  "INDEX_STATEMENTS =
     [(''idx_web_visit_page_occurred'', [''page_path'', ''occurred_at'']), (''idx_web_visit_anon_occurred'', [''anon_id'', ''occurred_at'']),
      (''idx_web_visit_session_occurred'', [''session_id'', ''occurred_at'']), (''idx_web_visit_event_type_occurred'', [''event_type'', ''occurred_at'']),
      (''idx_web_visit_referrer_occurred'', [''referrer_domain'', ''occurred_at'']),
      (''idx_web_visit_device_browser_occurred'', [''device_type'', ''browser_family'', ''occurred_at'']),
      (''idx_web_visit_utm_source_occurred'', [''utm_source'', ''occurred_at''])]"

section \<open>Schema creation\<close>

definition init_land_schema :: "schema \<Rightarrow> unit result \<times> schema" where
  "init_land_schema = create_table ''poi'' POI_COLUMNS"

definition init_job_schema :: "schema \<Rightarrow> unit result \<times> schema" where
  "init_job_schema = create_table ''geom_update_jobs'' JOB_COLUMNS"

text \<open>A column is added when none has exactly its name.\<close>

definition ensure_column :: "string \<Rightarrow> string \<times> string \<Rightarrow> schema \<Rightarrow> unit result \<times> schema" where
  "ensure_column t c s = (if fst c \<in> fst ` set (table_info t s) then (Inr (), s) else add_column t c s)"

definition ensure_map_event_log_columns :: "schema \<Rightarrow> unit result \<times> schema" where
  "ensure_map_event_log_columns = ensure_column ''map_event_log'' (''region_source'', ''TEXT NOT NULL DEFAULT 'derived_address'' @ [CHR 0x27])"

definition ensure_raw_query_log_columns :: "schema \<Rightarrow> unit result \<times> schema" where
  "ensure_raw_query_log_columns = ensure_column ''raw_query_log'' (''raw_click_source_input'', ''TEXT'')"

definition init_event_schema :: "schema \<Rightarrow> unit result \<times> schema" where
  "init_event_schema = in_order
     [create_table ''map_event_log'' MAP_EVENT_COLUMNS, create_table ''raw_query_log'' RAW_QUERY_COLUMNS,
      ensure_map_event_log_columns, ensure_raw_query_log_columns,
      create_index ''idx_map_event_type_created'' ''map_event_log'' [''event_type'', ''created_at''],
      create_index ''idx_map_event_region'' ''map_event_log'' [''event_type'', ''region_name''],
      create_index ''idx_map_event_min_area_bucket'' ''map_event_log'' [''event_type'', ''min_area_bucket''],
      create_index ''idx_map_event_land_address'' ''map_event_log'' [''event_type'', ''land_address''],
      create_index ''idx_map_event_land_anon'' ''map_event_log'' [''event_type'', ''land_address'', ''anon_id''],
      create_index ''idx_raw_query_event_created'' ''raw_query_log'' [''event_type'', ''created_at''],
      create_index ''idx_raw_query_created'' ''raw_query_log'' [''created_at'']]"

text \<open>The columns there are were read once, before the loop.\<close>

fun add_missing :: "string set \<Rightarrow> string \<Rightarrow> columns \<Rightarrow> schema \<Rightarrow> unit result \<times> schema" where
  "add_missing existing t [] s = (Inr (), s)"
| "add_missing existing t (c # cs) s =
     (if fst c \<in> existing then add_missing existing t cs s
      else case add_column t c s of (Inl e, s) \<Rightarrow> (Inl e, s) | (Inr _, s) \<Rightarrow> add_missing existing t cs s)"

definition ensure_web_visit_columns :: "schema \<Rightarrow> unit result \<times> schema" where
  "ensure_web_visit_columns s =
     add_missing (fst ` set (table_info ''web_visit_event'' s)) ''web_visit_event'' SCHEMA_COLUMNS s"

definition ensure_web_visit_indexes :: "schema \<Rightarrow> unit result \<times> schema" where
  "ensure_web_visit_indexes = in_order (map (\<lambda>(i, ks). create_index i ''web_visit_event'' ks) INDEX_STATEMENTS)"

definition init_web_visit_schema :: "schema \<Rightarrow> unit result \<times> schema" where
  "init_web_visit_schema = in_order
     [create_table ''web_visit_event'' WEB_VISIT_COLUMNS, ensure_web_visit_columns, ensure_web_visit_indexes]"

definition init_app_schema :: "schema \<Rightarrow> unit result \<times> schema" where
  "init_app_schema = in_order [init_land_schema, init_job_schema, init_event_schema, init_web_visit_schema]"

text \<open>The connection of \<open>init_db\<close> has nothing left to commit.\<close>

definition init_db :: "schema \<Rightarrow> unit result \<times> schema" where
  "init_db = init_app_schema"

section \<open>Databases the program may find\<close>

text \<open>
  What the statements of the repositories need, written down apart from the code that creates it: the columns each
  table must have and the indexes there must be, with their tables and columns.
\<close>

definition required_tables :: "(string \<times> string list) list" where
  "required_tables =
     [(''poi'', [''id'', ''address'', ''land_type'', ''area'', ''adm_property'', ''gen_property'', ''contact'', ''geom'']),
      (''geom_update_jobs'', [''id'', ''status'', ''attempts'', ''updated_count'', ''failed_count'', ''error_message'', ''created_at'', ''updated_at'']),
      (''map_event_log'', [''id'', ''event_type'', ''anon_id'', ''land_address'', ''region_name'', ''min_area_value'', ''min_area_bucket'',
         ''region_source'', ''created_at'']),
      (''raw_query_log'', [''id'', ''event_type'', ''anon_id'', ''raw_region_query'', ''raw_min_area_input'', ''raw_max_area_input'',
         ''raw_rent_only_input'', ''raw_land_id_input'', ''raw_land_address_input'', ''raw_click_source_input'', ''raw_payload_json'', ''created_at'']),
      (''web_visit_event'', [''id'', ''anon_id'', ''session_id'', ''event_type'', ''page_path'', ''page_query'', ''occurred_at'', ''client_tz'',
         ''client_lang'', ''platform'', ''user_agent'', ''is_bot'', ''referrer_url'', ''referrer_domain'', ''utm_source'', ''utm_medium'',
         ''utm_campaign'', ''utm_term'', ''utm_content'', ''screen_width'', ''screen_height'', ''viewport_width'', ''viewport_height'',
         ''browser_family'', ''device_type'', ''os_family''])]"

definition event_indexes :: "(string \<times> string \<times> string list) list" where
  "event_indexes =
     [(''idx_map_event_type_created'', ''map_event_log'', [''event_type'', ''created_at'']),
      (''idx_map_event_region'', ''map_event_log'', [''event_type'', ''region_name'']),
      (''idx_map_event_min_area_bucket'', ''map_event_log'', [''event_type'', ''min_area_bucket'']),
      (''idx_map_event_land_address'', ''map_event_log'', [''event_type'', ''land_address'']),
      (''idx_map_event_land_anon'', ''map_event_log'', [''event_type'', ''land_address'', ''anon_id'']),
      (''idx_raw_query_event_created'', ''raw_query_log'', [''event_type'', ''created_at'']),
      (''idx_raw_query_created'', ''raw_query_log'', [''created_at''])]"

definition web_indexes :: "(string \<times> string \<times> string list) list" where
  "web_indexes =
     [(''idx_web_visit_page_occurred'', ''web_visit_event'', [''page_path'', ''occurred_at'']),
      (''idx_web_visit_anon_occurred'', ''web_visit_event'', [''anon_id'', ''occurred_at'']),
      (''idx_web_visit_session_occurred'', ''web_visit_event'', [''session_id'', ''occurred_at'']),
      (''idx_web_visit_event_type_occurred'', ''web_visit_event'', [''event_type'', ''occurred_at'']),
      (''idx_web_visit_referrer_occurred'', ''web_visit_event'', [''referrer_domain'', ''occurred_at'']),
      (''idx_web_visit_device_browser_occurred'', ''web_visit_event'', [''device_type'', ''browser_family'', ''occurred_at'']),
      (''idx_web_visit_utm_source_occurred'', ''web_visit_event'', [''utm_source'', ''occurred_at''])]"

definition required_indexes :: "(string \<times> string \<times> string list) list" where
  "required_indexes = event_indexes @ web_indexes"

text \<open>
  The columns of the earlier tables, again written down by name: the visits as the schema test of the repository
  creates them, the events and the searches before \<open>region_source\<close> and \<open>raw_click_source_input\<close>; the other two
  tables never changed.
\<close>

definition legacy_tables :: "(string \<times> string list) list" where
  "legacy_tables =
     [(''poi'', [''id'', ''address'', ''land_type'', ''area'', ''adm_property'', ''gen_property'', ''contact'', ''geom'']),
      (''geom_update_jobs'', [''id'', ''status'', ''attempts'', ''updated_count'', ''failed_count'', ''error_message'', ''created_at'', ''updated_at'']),
      (''map_event_log'', [''id'', ''event_type'', ''anon_id'', ''land_address'', ''region_name'', ''min_area_value'', ''min_area_bucket'', ''created_at'']),
      (''raw_query_log'', [''id'', ''event_type'', ''anon_id'', ''raw_region_query'', ''raw_min_area_input'', ''raw_max_area_input'',
         ''raw_rent_only_input'', ''raw_land_id_input'', ''raw_land_address_input'', ''raw_payload_json'', ''created_at'']),
      (''web_visit_event'', [''id'', ''anon_id'', ''session_id'', ''event_type'', ''page_path'', ''occurred_at'', ''client_tz'', ''user_agent'', ''is_bot''])]"

definition columns_in :: "(string \<times> string list) list \<Rightarrow> string \<Rightarrow> string set" where
  "columns_in spec t = (case map_of spec t of None \<Rightarrow> {} | Some cs \<Rightarrow> set cs)"

abbreviation base_columns :: "string \<Rightarrow> string set" where
  "base_columns \<equiv> columns_in legacy_tables"

abbreviation full_columns :: "string \<Rightarrow> string set" where
  "full_columns \<equiv> columns_in required_tables"

text \<open>
  A database an earlier version may have left: each table that is there, if it is one of the program's, has the
  earlier columns and perhaps more, all names are in lower case, and an index with one of the program's names is the
  program's.
\<close>

definition founded :: "schema \<Rightarrow> bool" where
  "founded s \<longleftrightarrow>
     (\<forall>t cs. tables s t = Some cs \<longrightarrow> (\<forall>c \<in> fst ` set cs. nocase c = c) \<and> base_columns t \<subseteq> fst ` set cs) \<and>
     (\<forall>i x. indexes s i = Some x \<longrightarrow> map_of required_indexes i \<in> {None, Some x})"

text \<open>Tables only get columns at their end, indexes stay.\<close>

definition grows :: "schema \<Rightarrow> schema \<Rightarrow> bool" where
  "grows s s' \<longleftrightarrow>
     (\<forall>t cs. tables s t = Some cs \<longrightarrow> (\<exists>more. tables s' t = Some (cs @ more))) \<and>
     (\<forall>i x. indexes s i = Some x \<longrightarrow> indexes s' i = Some x)"

definition has_columns :: "string \<Rightarrow> string set \<Rightarrow> schema \<Rightarrow> bool" where
  "has_columns t ns s \<longleftrightarrow> (\<exists>cs. tables s t = Some cs \<and> ns \<subseteq> fst ` set cs)"

definition has_index :: "string \<times> string \<times> string list \<Rightarrow> schema \<Rightarrow> bool" where
  "has_index = (\<lambda>(i, x) s. indexes s i = Some x)"

lemma grows_refl [simp]: "grows s s"
  by (simp add: grows_def)

lemma grows_trans: "grows s s' \<Longrightarrow> grows s' s'' \<Longrightarrow> grows s s''"
  by (fastforce simp: grows_def)

definition kept :: "(schema \<Rightarrow> bool) \<Rightarrow> bool" where
  "kept P \<longleftrightarrow> (\<forall>s s'. grows s s' \<longrightarrow> P s \<longrightarrow> P s')"

named_theorems kept_intros

lemma kept_columns [kept_intros]: "kept (has_columns t ns)"
  unfolding kept_def has_columns_def grows_def by fastforce

lemma kept_index [kept_intros]: "kept (has_index ix)"
  unfolding kept_def has_index_def grows_def by (cases ix) fastforce

lemma kept_conj [kept_intros]: "kept P \<Longrightarrow> kept Q \<Longrightarrow> kept (\<lambda>s. P s \<and> Q s)"
  by (simp add: kept_def)

lemma kept_True [kept_intros]: "kept (\<lambda>_. True)"
  by (simp add: kept_def)

lemma kept_list_all: "(\<And>x. x \<in> set xs \<Longrightarrow> kept (P x)) \<Longrightarrow> kept (\<lambda>s. list_all (\<lambda>x. P x s) xs)"
  unfolding kept_def list_all_iff by metis

section \<open>Steps\<close>

text \<open>From a founded schema with \<open>P\<close> the statement goes through, to a founded schema with \<open>Q\<close>.\<close>

definition step :: "(schema \<Rightarrow> bool) \<Rightarrow> (schema \<Rightarrow> unit result \<times> schema) \<Rightarrow> (schema \<Rightarrow> bool) \<Rightarrow> bool" where
  "step P f Q \<longleftrightarrow>
     (\<forall>s. founded s \<and> P s \<longrightarrow> (\<exists>s'. f s = (Inr (), s') \<and> grows s s' \<and> founded s' \<and> Q s'))"

lemma step_weaken: "step P f Q \<Longrightarrow> (\<And>s. P' s \<Longrightarrow> P s) \<Longrightarrow> (\<And>s. Q s \<Longrightarrow> Q' s) \<Longrightarrow> step P' f Q'"
  unfolding step_def by metis

lemma step_frame: "step P f Q \<Longrightarrow> kept R \<Longrightarrow> step (\<lambda>s. P s \<and> R s) f (\<lambda>s. Q s \<and> R s)"
  unfolding step_def kept_def by metis

lemma step_Nil: "step P (in_order []) P"
  by (simp add: step_def)

lemma step_Cons:
  assumes f: "step P f Q" and fs: "step Q (in_order fs) R"
  shows "step P (in_order (f # fs)) R"
  unfolding step_def
proof (intro allI impI)
  fix s assume s: "founded s \<and> P s"
  with f obtain s' where s': "f s = (Inr (), s')" "grows s s'" "founded s'" "Q s'" by (auto simp: step_def)
  with fs obtain s'' where "in_order fs s' = (Inr (), s'')" "grows s' s''" "founded s''" "R s''" by (auto simp: step_def)
  with s' show "\<exists>s'. in_order (f # fs) s = (Inr (), s') \<and> grows s s' \<and> founded s' \<and> R s'"
    by (auto intro: grows_trans)
qed

text \<open>Statements under one lasting condition, each with its own result.\<close>

lemma step_all:
  assumes "kept P" "list_all (\<lambda>(f, Q). step P f Q \<and> kept Q) fqs"
  shows "step P (in_order (map fst fqs)) (\<lambda>s. P s \<and> list_all (\<lambda>(f, Q). Q s) fqs)"
  using assms(2)
proof (induction fqs)
  case Nil
  show ?case by (simp add: step_def)
next
  case (Cons fq fqs)
  obtain f Q where fq: "fq = (f, Q)" by fastforce
  with Cons.prems have f: "step P f Q" and Q: "kept Q" and rest: "list_all (\<lambda>(f, Q). step P f Q \<and> kept Q) fqs" by simp_all
  have one: "step P f (\<lambda>s. P s \<and> Q s)"
    using step_frame [OF f assms(1)] by (rule step_weaken) auto
  have more: "step (\<lambda>s. P s \<and> Q s) (in_order (map fst fqs)) (\<lambda>s. (P s \<and> list_all (\<lambda>(f, Q). Q s) fqs) \<and> Q s)"
    by (rule step_frame [OF Cons.IH [OF rest] Q])
  have "step P (in_order (f # map fst fqs)) (\<lambda>s. P s \<and> Q s \<and> list_all (\<lambda>(f, Q). Q s) fqs)"
    by (rule step_weaken [OF step_Cons [OF one more]]) simp_all
  then show ?case by (simp add: fq del: in_order.simps)
qed

lemma step_create_table:
  assumes "nocase t = t" "\<forall>c \<in> fst ` set cs. nocase c = c" "base_columns t \<subseteq> fst ` set cs"
  shows "step (\<lambda>_. True) (create_table t cs) (has_columns t (base_columns t))"
  unfolding step_def
proof (intro allI impI)
  fix s assume s: "founded s \<and> True"
  show "\<exists>s'. create_table t cs s = (Inr (), s') \<and> grows s s' \<and> founded s' \<and> has_columns t (base_columns t) s'"
  proof (cases "tables s t")
    case None
    with s assms show ?thesis by (simp add: create_table_def grows_def founded_def has_columns_def)
  next
    case (Some old)
    with s have "has_columns t (base_columns t) s" by (simp add: founded_def has_columns_def)
    with Some s assms(1) show ?thesis by (simp add: create_table_def)
  qed
qed

lemma founded_columns:
  assumes "founded s" "tables s t = Some cs"
  shows "column_names cs = fst ` set cs"
proof -
  have "\<forall>c \<in> fst ` set cs. nocase c = c" using assms unfolding founded_def by blast
  then have "nocase ` fst ` set cs = (\<lambda>c. c) ` fst ` set cs" by (intro image_cong [OF refl]) (rule bspec)
  then show ?thesis by (simp add: column_names_def)
qed

lemma step_add_column:
  assumes "nocase t = t" "nocase (fst c) = fst c"
  shows "step (\<lambda>s. has_columns t ns s \<and> fst c \<notin> fst ` set (table_info t s)) (add_column t c) (has_columns t (insert (fst c) ns))"
  using assms
  by (auto simp: step_def add_column_def has_columns_def table_info_def grows_def founded_columns)
     (unfold founded_def, auto, fastforce)

lemma has_column_already:
  "has_columns t ns s \<Longrightarrow> nocase t = t \<Longrightarrow> n \<in> fst ` set (table_info t s) \<Longrightarrow> has_columns t (insert n ns) s"
  unfolding has_columns_def table_info_def by (elim exE conjE) simp

lemma step_ensure_column:
  assumes "nocase t = t" "nocase (fst c) = fst c"
  shows "step (has_columns t ns) (ensure_column t c) (has_columns t (insert (fst c) ns))"
  unfolding step_def
proof (intro allI impI)
  fix s assume s: "founded s \<and> has_columns t ns s"
  show "\<exists>s'. ensure_column t c s = (Inr (), s') \<and> grows s s' \<and> founded s' \<and> has_columns t (insert (fst c) ns) s'"
  proof (cases "fst c \<in> fst ` set (table_info t s)")
    case True
    with s assms(1) have "has_columns t (insert (fst c) ns) s" by (blast intro: has_column_already)
    with True s show ?thesis by (simp add: ensure_column_def)
  next
    case False
    with s step_add_column [OF assms, of ns] show ?thesis by (simp add: step_def ensure_column_def)
  qed
qed

lemma step_create_index:
  assumes "nocase i = i" "nocase t = t" "\<forall>k \<in> set ks. nocase k = k" "map_of required_indexes i = Some (t, ks)"
  shows "step (has_columns t (set ks)) (create_index i t ks) (has_index (i, t, ks))"
  unfolding step_def
proof (intro allI impI)
  fix s assume s: "founded s \<and> has_columns t (set ks) s"
  then obtain cs where cs: "tables s t = Some cs" "set ks \<subseteq> fst ` set cs" by (auto simp: has_columns_def)
  have "nocase ` set ks = set ks" using assms(3) by (auto simp: image_iff)
  with cs s have fits: "nocase ` set ks \<subseteq> column_names (table_info t s)"
    using founded_columns [of s t cs] assms(2) by (simp add: table_info_def)
  show "\<exists>s'. create_index i t ks s = (Inr (), s') \<and> grows s s' \<and> founded s' \<and> has_index (i, t, ks) s'"
  proof (cases "indexes s i")
    case None
    with s fits cs assms show ?thesis
      by (simp add: create_index_def has_index_def grows_def founded_def)
  next
    case (Some x)
    with s assms(4) have "x = (t, ks)" unfolding founded_def by fastforce
    with Some s assms(1) show ?thesis by (simp add: create_index_def has_index_def)
  qed
qed

lemma step_add_missing:
  assumes "nocase t = t" "\<forall>c \<in> fst ` set cs. nocase c = c" "distinct (map fst cs)"
  shows "step (\<lambda>s. has_columns t ns s \<and> existing \<inter> fst ` set cs = fst ` set (table_info t s) \<inter> fst ` set cs)
    (add_missing existing t cs) (has_columns t (ns \<union> fst ` set cs))"
  using assms(2,3)
proof (induction cs arbitrary: ns)
  case Nil
  show ?case by (simp add: step_def)
next
  case (Cons c cs)
  from Cons.prems have c: "nocase (fst c) = fst c" and cs: "\<forall>c \<in> fst ` set cs. nocase c = c" "distinct (map fst cs)"
    and new: "fst c \<notin> fst ` set cs" by auto
  have ih: "step (\<lambda>s. has_columns t (insert (fst c) ns) s \<and> existing \<inter> fst ` set cs = fst ` set (table_info t s) \<inter> fst ` set cs)
      (add_missing existing t cs) (has_columns t (insert (fst c) ns \<union> fst ` set cs))"
    by (rule Cons.IH [OF cs])
  show ?case
    unfolding step_def
  proof (intro allI impI)
    fix s
    assume s: "founded s \<and> has_columns t ns s \<and> existing \<inter> fst ` set (c # cs) = fst ` set (table_info t s) \<inter> fst ` set (c # cs)"
    then have same: "fst c \<in> existing \<longleftrightarrow> fst c \<in> fst ` set (table_info t s)"
      and rest: "existing \<inter> fst ` set cs = fst ` set (table_info t s) \<inter> fst ` set cs" by auto
    show "\<exists>s'. add_missing existing t (c # cs) s = (Inr (), s') \<and> grows s s' \<and> founded s' \<and> has_columns t (ns \<union> fst ` set (c # cs)) s'"
    proof (cases "fst c \<in> existing")
      case True
      with s same assms(1) have "has_columns t (insert (fst c) ns) s" by (blast intro: has_column_already)
      with True s rest ih show ?thesis by (simp add: step_def)
    next
      case False
      then obtain s1 where s1: "add_column t c s = (Inr (), s1)" "grows s s1" "founded s1" "has_columns t (insert (fst c) ns) s1"
        using step_add_column [OF assms(1) c, of ns] s same by (auto simp: step_def)
      have "table_info t s1 = table_info t s @ [c]"
        using s1(1) assms(1) by (auto simp: add_column_def table_info_def split: option.splits if_splits)
      with rest new have "existing \<inter> fst ` set cs = fst ` set (table_info t s1) \<inter> fst ` set cs" by auto
      with ih s1 obtain s2 where "add_missing existing t cs s1 = (Inr (), s2)" "grows s1 s2" "founded s2"
          "has_columns t (insert (fst c) ns \<union> fst ` set cs) s2" by (auto simp: step_def)
      with s1 False show ?thesis by (auto intro: grows_trans)
    qed
  qed
qed

section \<open>The program's schema\<close>

text \<open>Every table has all of its columns, every index exists.\<close>

definition complete :: "schema \<Rightarrow> bool" where
  "complete s \<longleftrightarrow>
     list_all (\<lambda>t. has_columns t (full_columns t) s) (map fst required_tables) \<and> list_all (\<lambda>ix. has_index ix s) required_indexes"

definition PROGRAM_TABLES :: "(string \<times> columns) list" where
  "PROGRAM_TABLES =
     [(''poi'', POI_COLUMNS), (''geom_update_jobs'', JOB_COLUMNS), (''map_event_log'', MAP_EVENT_COLUMNS),
      (''raw_query_log'', RAW_QUERY_COLUMNS), (''web_visit_event'', WEB_VISIT_COLUMNS)]"

lemma lower_names:
  "list_all (\<lambda>(t, cs). nocase t = t \<and> list_all (\<lambda>(c, _). nocase c = c) cs) PROGRAM_TABLES"
  "list_all (\<lambda>(c, _). nocase c = c) SCHEMA_COLUMNS" "distinct (map fst SCHEMA_COLUMNS)"
  "list_all (\<lambda>(i, t, ks). nocase i = i \<and> nocase t = t \<and> list_all (\<lambda>k. nocase k = k) ks \<and>
     map_of required_indexes i = Some (t, ks) \<and> set ks \<subseteq> full_columns t) required_indexes"
  "list_all (\<lambda>(t, cs). set cs \<subseteq> fst ` set (the (map_of PROGRAM_TABLES t))) legacy_tables"
  by code_simp+

lemma step_program_table:
  assumes "map_of PROGRAM_TABLES t = Some cs"
  shows "step (\<lambda>_. True) (create_table t cs) (has_columns t (base_columns t))"
proof (rule step_create_table)
  from assms have "(t, cs) \<in> set PROGRAM_TABLES" by (rule map_of_SomeD)
  with lower_names(1) have "nocase t = t" "list_all (\<lambda>(c, _). nocase c = c) cs" by (auto simp: list_all_iff)
  then show "nocase t = t" "\<forall>c \<in> fst ` set cs. nocase c = c" by (auto simp: list_all_iff)
  show "base_columns t \<subseteq> fst ` set cs"
    using assms lower_names(5)
    by (fastforce simp: columns_in_def list_all_iff split: option.splits dest!: map_of_SomeD [of legacy_tables])
qed

lemma step_program_index:
  assumes "(i, t, ks) \<in> set required_indexes"
  shows "step (has_columns t (full_columns t)) (create_index i t ks) (has_index (i, t, ks))"
proof -
  from assms lower_names(4)
  have "nocase i = i" "nocase t = t" "\<forall>k \<in> set ks. nocase k = k" "map_of required_indexes i = Some (t, ks)"
    and ks: "set ks \<subseteq> full_columns t" by (auto simp: list_all_iff)
  then show ?thesis
    by (intro step_weaken [OF step_create_index]) (auto simp: has_columns_def)
qed

lemma table_names: "map fst PROGRAM_TABLES = map fst required_tables"
  by code_simp

lemma known_tables:
  "map_of PROGRAM_TABLES ''poi'' = Some POI_COLUMNS" "map_of PROGRAM_TABLES ''geom_update_jobs'' = Some JOB_COLUMNS"
  "map_of PROGRAM_TABLES ''map_event_log'' = Some MAP_EVENT_COLUMNS" "map_of PROGRAM_TABLES ''raw_query_log'' = Some RAW_QUERY_COLUMNS"
  "map_of PROGRAM_TABLES ''web_visit_event'' = Some WEB_VISIT_COLUMNS"
  by code_simp+

lemma all_columns:
  "full_columns ''poi'' = base_columns ''poi''" "full_columns ''geom_update_jobs'' = base_columns ''geom_update_jobs''"
  "full_columns ''map_event_log'' = insert ''region_source'' (base_columns ''map_event_log'')"
  "full_columns ''raw_query_log'' = insert ''raw_click_source_input'' (base_columns ''raw_query_log'')"
  "full_columns ''web_visit_event'' = base_columns ''web_visit_event'' \<union> fst ` set SCHEMA_COLUMNS"
  by code_simp+

lemma index_statements: "map (\<lambda>(i, ks). (i, ''web_visit_event'', ks)) INDEX_STATEMENTS = web_indexes"
  by code_simp

lemma web_index_steps: "ensure_web_visit_indexes = in_order (map (\<lambda>(i, t, ks). create_index i t ks) web_indexes)"
  by (simp add: ensure_web_visit_indexes_def index_statements [symmetric] comp_def case_prod_unfold)

lemma index_tables:
  "list_all (\<lambda>(i, t, ks). t \<in> {''map_event_log'', ''raw_query_log''}) event_indexes"
  "list_all (\<lambda>(i, t, ks). t \<in> {''web_visit_event''}) web_indexes"
  by code_simp+

lemma step_indexes:
  assumes req: "set ixs \<subseteq> set required_indexes" and T: "list_all (\<lambda>(i, t, ks). t \<in> T) ixs"
  defines "P \<equiv> \<lambda>s. \<forall>t \<in> T. has_columns t (full_columns t) s"
  shows "step P (in_order (map (\<lambda>(i, t, ks). create_index i t ks) ixs)) (\<lambda>s. P s \<and> list_all (\<lambda>ix. has_index ix s) ixs)"
proof -
  let ?fqs = "map (\<lambda>(i, t, ks). (create_index i t ks, has_index (i, t, ks))) ixs"
  have P: "kept P" unfolding P_def kept_def using kept_columns by (auto simp: kept_def)
  have "list_all (\<lambda>(f, Q). step P f Q \<and> kept Q) ?fqs"
  proof (clarsimp simp: list_all_iff kept_index)
    fix i t ks assume "(i, t, ks) \<in> set ixs"
    with req T have "(i, t, ks) \<in> set required_indexes" "t \<in> T" by (auto simp: list_all_iff)
    then show "step P (create_index i t ks) (has_index (i, t, ks))"
      by (intro step_weaken [OF step_program_index]) (auto simp: P_def)
  qed
  from step_all [OF P this] show ?thesis
    by (simp add: comp_def case_prod_unfold list_all_iff)
qed

lemma event_schema_steps:
  "init_event_schema = in_order (create_table ''map_event_log'' MAP_EVENT_COLUMNS # create_table ''raw_query_log'' RAW_QUERY_COLUMNS #
     ensure_map_event_log_columns # ensure_raw_query_log_columns # map (\<lambda>(i, t, ks). create_index i t ks) event_indexes)"
  by (simp add: init_event_schema_def event_indexes_def)

lemma step_event_schema:
  "step (\<lambda>_. True) init_event_schema
     (\<lambda>s. has_columns ''map_event_log'' (full_columns ''map_event_log'') s \<and>
       has_columns ''raw_query_log'' (full_columns ''raw_query_log'') s \<and> list_all (\<lambda>ix. has_index ix s) event_indexes)"
proof -
  let ?M = "has_columns ''map_event_log''" and ?R = "has_columns ''raw_query_log''"
  let ?bm = "base_columns ''map_event_log''" and ?br = "base_columns ''raw_query_log''"
  let ?fm = "full_columns ''map_event_log''" and ?fr = "full_columns ''raw_query_log''"
  have names: "nocase ''map_event_log'' = ''map_event_log''" "nocase ''raw_query_log'' = ''raw_query_log''"
    "nocase ''region_source'' = ''region_source''" "nocase ''raw_click_source_input'' = ''raw_click_source_input''" by code_simp+
  have 1: "step (\<lambda>_. True) (create_table ''map_event_log'' MAP_EVENT_COLUMNS) (?M ?bm)"
    by (rule step_program_table [OF known_tables(3)])
  have 2: "step (?M ?bm) (create_table ''raw_query_log'' RAW_QUERY_COLUMNS) (\<lambda>s. ?M ?bm s \<and> ?R ?br s)"
    by (rule step_weaken [OF step_frame [OF step_program_table [OF known_tables(4)] kept_columns]]) auto
  have 3: "step (\<lambda>s. ?M ?bm s \<and> ?R ?br s) ensure_map_event_log_columns (\<lambda>s. ?M ?fm s \<and> ?R ?br s)"
    unfolding ensure_map_event_log_columns_def all_columns
    by (rule step_frame [OF step_ensure_column [where c = "(''region_source'', d)" for d, unfolded fst_conv] kept_columns]) (simp_all add: names)
  have 4: "step (\<lambda>s. ?M ?fm s \<and> ?R ?br s) ensure_raw_query_log_columns (\<lambda>s. ?M ?fm s \<and> ?R ?fr s)"
    unfolding ensure_raw_query_log_columns_def all_columns(4)
    by (rule step_weaken [OF step_frame [OF step_ensure_column [where t = "''raw_query_log''" and ns = ?br
          and c = "(''raw_click_source_input'', d)" for d, unfolded fst_conv] kept_columns [where t = "''map_event_log''" and ns = ?fm]]])
      (simp_all add: names)
  have 5: "step (\<lambda>s. ?M ?fm s \<and> ?R ?fr s) (in_order (map (\<lambda>(i, t, ks). create_index i t ks) event_indexes))
     (\<lambda>s. ?M ?fm s \<and> ?R ?fr s \<and> list_all (\<lambda>ix. has_index ix s) event_indexes)"
    by (rule step_weaken [OF step_indexes [OF _ index_tables(1)]]) (auto simp: required_indexes_def)
  show ?thesis unfolding event_schema_steps by (intro step_Cons [OF 1] step_Cons [OF 2] step_Cons [OF 3] step_Cons [OF 4] 5)
qed

lemma step_web_schema:
  "step (\<lambda>_. True) init_web_visit_schema
     (\<lambda>s. has_columns ''web_visit_event'' (full_columns ''web_visit_event'') s \<and> list_all (\<lambda>ix. has_index ix s) web_indexes)"
proof -
  let ?W = "has_columns ''web_visit_event''"
  have names: "nocase ''web_visit_event'' = ''web_visit_event''" by code_simp
  have 1: "step (\<lambda>_. True) (create_table ''web_visit_event'' WEB_VISIT_COLUMNS) (?W (base_columns ''web_visit_event''))"
    by (rule step_program_table [OF known_tables(5)])
  have lower: "\<forall>c \<in> fst ` set SCHEMA_COLUMNS. nocase c = c" using lower_names(2) by (auto simp: list_all_iff)
  have 2: "step (?W (base_columns ''web_visit_event'')) ensure_web_visit_columns (?W (full_columns ''web_visit_event''))"
    using step_add_missing [OF names lower lower_names(3)]
    unfolding step_def ensure_web_visit_columns_def all_columns(5) by blast
  have 3: "step (?W (full_columns ''web_visit_event'')) ensure_web_visit_indexes
     (\<lambda>s. ?W (full_columns ''web_visit_event'') s \<and> list_all (\<lambda>ix. has_index ix s) web_indexes)"
    using step_indexes [OF _ index_tables(2)]
    unfolding web_index_steps by (simp add: required_indexes_def)
  show ?thesis unfolding init_web_visit_schema_def by (intro step_Cons [OF 1] step_Cons [OF 2] step_Cons [OF 3] step_Nil)
qed

lemma step_app_schema: "step (\<lambda>_. True) init_app_schema complete"
proof -
  have 1: "step (\<lambda>_. True) init_land_schema (has_columns ''poi'' (full_columns ''poi''))"
    unfolding init_land_schema_def all_columns(1) by (rule step_program_table [OF known_tables(1)])
  have 2: "step (\<lambda>_. True) init_job_schema (has_columns ''geom_update_jobs'' (full_columns ''geom_update_jobs''))"
    unfolding init_job_schema_def all_columns(2) by (rule step_program_table [OF known_tables(2)])
  have framed: "step P f (\<lambda>s. Q s \<and> P s)" if "step (\<lambda>_. True) f Q" "kept P" for P Q f
    by (rule step_weaken [OF step_frame [OF that]]) auto
  show ?thesis
    unfolding init_app_schema_def
    by (rule step_weaken [OF step_Cons [OF 1 step_Cons [OF framed [OF 2] step_Cons [OF framed [OF step_event_schema]
            step_Cons [OF framed [OF step_web_schema] step_Nil]]]]])
      (intro kept_conj kept_list_all kept_columns kept_index | auto simp: complete_def required_tables_def required_indexes_def)+
qed

text \<open>On a complete schema nothing happens.\<close>

lemma complete_create_table: "has_columns t ns s \<Longrightarrow> nocase t = t \<Longrightarrow> create_table t cs s = (Inr (), s)"
  by (auto simp: create_table_def has_columns_def)

lemma complete_ensure_column: "has_columns t ns s \<Longrightarrow> nocase t = t \<Longrightarrow> fst c \<in> ns \<Longrightarrow> ensure_column t c s = (Inr (), s)"
  by (auto simp: ensure_column_def has_columns_def table_info_def)

lemma complete_add_missing: "fst ` set cs \<subseteq> existing \<Longrightarrow> add_missing existing t cs s = (Inr (), s)"
  by (induction cs) auto

lemma complete_in_order: "\<forall>f \<in> set fs. f s = (Inr (), s) \<Longrightarrow> in_order fs s = (Inr (), s)"
  by (induction fs) auto

lemma complete_create_index: "has_index (i, x) s \<Longrightarrow> nocase i = i \<Longrightarrow> create_index i t ks s = (Inr (), s)"
  by (auto simp: create_index_def has_index_def)

lemma complete_fixed:
  assumes "complete s"
  shows "init_app_schema s = (Inr (), s)"
proof -
  have has: "has_columns t (full_columns t) s" if "t \<in> fst ` set required_tables" for t
    using assms that by (auto simp: complete_def list_all_iff)
  have ix: "create_index i t ks s = (Inr (), s)" if "(i, t, ks) \<in> set required_indexes" for i t ks
    using assms that lower_names(4) by (fastforce simp: complete_def list_all_iff intro!: complete_create_index)
  have names: "nocase t = t" if "t \<in> fst ` set required_tables" for t
    using that lower_names(1) unfolding set_map [symmetric] table_names [symmetric] by (auto simp: list_all_iff)
  have table: "create_table t cs s = (Inr (), s)" if "t \<in> fst ` set required_tables" for t cs
    using complete_create_table [OF has names] that by blast
  have known: "''poi'' \<in> fst ` set required_tables" "''geom_update_jobs'' \<in> fst ` set required_tables"
    "''map_event_log'' \<in> fst ` set required_tables" "''raw_query_log'' \<in> fst ` set required_tables"
    "''web_visit_event'' \<in> fst ` set required_tables" by code_simp+
  have col: "ensure_column t c s = (Inr (), s)" if "t \<in> fst ` set required_tables" "fst c \<in> full_columns t" for t c
    using complete_ensure_column [OF has names] that by blast
  have "fst ` set SCHEMA_COLUMNS \<subseteq> fst ` set (table_info ''web_visit_event'' s)"
    using has [OF known(5)] names [OF known(5)] unfolding all_columns(5) has_columns_def table_info_def by (elim exE conjE) simp
  then have web: "ensure_web_visit_columns s = (Inr (), s)"
    by (simp add: ensure_web_visit_columns_def complete_add_missing)
  have web_ix: "ensure_web_visit_indexes s = (Inr (), s)"
    unfolding web_index_steps by (rule complete_in_order) (auto intro!: ix simp: required_indexes_def)
  have event_ix: "f s = (Inr (), s)" if "f \<in> set (map (\<lambda>(i, t, ks). create_index i t ks) event_indexes)" for f
    using that by (auto intro!: ix simp: required_indexes_def)
  have evt: "init_event_schema s = (Inr (), s)"
    unfolding event_schema_steps
    by (rule complete_in_order)
      (use event_ix in \<open>auto simp: table known ensure_map_event_log_columns_def ensure_raw_query_log_columns_def col all_columns(3,4)\<close>)
  show ?thesis
    unfolding init_app_schema_def
    by (simp add: init_land_schema_def init_job_schema_def table known evt init_web_visit_schema_def web web_ix)
qed

section \<open>Property\<close>

text \<open>
  C40. Schema creation. On a new database, and on any database an earlier version of the program left (\<open>founded\<close>: the
  columns of the earlier tables, listed by name in \<open>legacy_tables\<close>, with more columns or fewer tables as it may be,
  all names in lower case), \<open>init_app_schema\<close> goes through: every table has the columns listed in
  \<open>required_tables\<close>, every index listed in \<open>required_indexes\<close> exists with that table and these columns, no table
  lost or changed a column it had, and running it again changes nothing.
\<close>

theorem schema_migration:
  assumes "founded s"
  shows "case init_app_schema s of (r, s') \<Rightarrow>
    r = Inr () \<and> grows s s' \<and> complete s' \<and> init_app_schema s' = (Inr (), s')"
  using step_app_schema assms complete_fixed by (fastforce simp: step_def)

text \<open>The database of the repository's schema test, with the visits of the first version only.\<close>

definition old_schema :: schema where
  "old_schema = \<lparr>tables = [''web_visit_event'' \<mapsto>
     [(''id'', ''INTEGER PRIMARY KEY AUTOINCREMENT''), (''anon_id'', ''TEXT NOT NULL''), (''session_id'', ''TEXT NOT NULL''),
      (''event_type'', ''TEXT NOT NULL''), (''page_path'', ''TEXT NOT NULL''), (''occurred_at'', ''TEXT NOT NULL DEFAULT CURRENT_TIMESTAMP''),
      (''client_tz'', ''TEXT''), (''user_agent'', ''TEXT''), (''is_bot'', ''INTEGER NOT NULL DEFAULT 0'')]],
     indexes = Map.empty\<rparr>"

lemma old_schema_founded: "founded old_schema"
proof -
  have "list_all (\<lambda>(c, _). nocase c = c) (the (tables old_schema ''web_visit_event''))"
    "base_columns ''web_visit_event'' \<subseteq> fst ` set (the (tables old_schema ''web_visit_event''))" by code_simp+
  then show ?thesis by (auto simp: founded_def old_schema_def list_all_iff split: if_splits)
qed

lemma schema_migration_witness:
  "\<exists>s'. init_app_schema old_schema = (Inr (), s') \<and> complete s' \<and> complete (snd (init_app_schema (snd (init_app_schema s'))))"
  using schema_migration [OF old_schema_founded] by (auto split: prod.splits)

end
