(* ===== verification/Spec2Isabelle.thy ===== *)
theory Spec2Isabelle
  imports Auth Boundaries Land_Service Map_Events Web_Stats Site Raw_Export Admin_Settings
    Service Main_App Land_Seed Assets Schema
begin

text \<open>
  A model of Parcel Explorer, the Python web application under \<open>src/app\<close> that shows public land parcels on a map,
  and the theorems that make it correct.

  \<^bold>\<open>The program.\<close> A FastAPI application serves a public map (\<open>routers/map_router.py\<close>) and an administration
  (\<open>routers/admin.py\<close>, \<open>routers/auth.py\<close>). Routes call services, services call repositories over one SQLite
  database, and a boundary job asks the VWorld network service for the boundaries that parcels lack. Shared state is
  the configuration and two limiters in \<open>app.state\<close>, the process environment with the cached settings, the
  .env file, the directory of the public download, and the tables.

  \<^bold>\<open>Python and its library.\<close> \<open>Prelude\<close> has exceptions as a sum (\<open>exn\<close>, \<open>result\<close>, \<open>bindR\<close>), association lists as dictionaries,
  and the locales that the components share: \<open>invariant_machine\<close> and \<open>simulation\<close> over \<open>run_steps\<close>, and \<open>keyset\<close> for
  paged reading. A text is a list of code points; \<open>Unicode_Tables\<close> and \<open>Py_Text\<close> define the methods of \<open>str\<close>, \<open>int()\<close> on texts and UTF-8,
  \<open>Py_Value\<close> floats with rounding, NaN and infinities, \<open>float()\<close> and JSON values, \<open>Ip_Address\<close> and \<open>Url\<close> the
  \<open>ipaddress\<close> and \<open>urllib.parse\<close> functions in use (addresses are words), \<open>Calendar\<close> dates and timestamps with the locale \<open>text_order\<close>
  (timestamps compare as their texts do), \<open>Sql\<close> connections, column values and aggregates, \<open>Files\<close> a store of files.
  \<open>Messages\<close> holds the Korean messages of the source as code points.

  \<^bold>\<open>Configuration and access.\<close> \<open>Config\<close> and \<open>Runtime_Config\<close> (\<open>core/\<close>) parse the environment and rebuild the running state;
  \<open>Rate_Limit\<close> (\<open>rate_limit.py\<close>) is the sliding window, refined from the full history of admitted events;
  \<open>Auth_Security\<close> (\<open>auth_security.py\<close>) the login limiter, with the step relation \<open>guard_run\<close> of attempts that overlap and the locale
  \<open>attempt_guard\<close> that bounds them; \<open>Access\<close> (\<open>dependencies.py\<close>) the network, session and CSRF checks; \<open>Auth\<close>
  (\<open>services/auth_service.py\<close>, \<open>routers/auth.py\<close>) logins, cut in two at the check of the password (\<open>login_begin\<close>, \<open>login_end\<close>),
  with the step relations \<open>login_run\<close> of logins in a thread pool and \<open>cookies\<close> of the sessions that clients can hold.

  \<^bold>\<open>Parcels.\<close> \<open>Schema\<close> is the creation of the tables, on a new database or an older one; \<open>Database\<close> the parcel and job tables;
  \<open>Vworld\<close> (\<open>clients/\<close>) requests with retries; \<open>Geo_Service\<close> the boundary jobs and their paged scan; \<open>Upload\<close>
  (\<open>services/upload_service.py\<close>, \<open>validators/\<close>) the replacement of the parcels by a sheet, and the creation of its job, which may
  raise after the rows are committed; \<open>Land_Service\<close> reading them page by page; \<open>Boundaries\<close> the interleaving of uploads and jobs as a
  step relation whose steps are the definitions of \<open>Geo_Service\<close> and \<open>Upload\<close>, an upload cut at its write transaction; \<open>Land_Seed\<close> the tool
  \<open>scripts/export_land_seed.py\<close> against the loader of \<open>Startup\<close>.

  \<^bold>\<open>Events and statistics.\<close> \<open>Map_Events\<close> and \<open>Web_Events\<close> normalise and store what a browser reports; \<open>Web_Stats\<close> the visitor
  statistics; \<open>Raw_Export\<close> the CSV export of the raw queries with a reader of CSV for its round trip.

  \<^bold>\<open>Files and settings.\<close> \<open>Public_Download\<close> the one file offered to the public; \<open>Env_File\<close> the rewriting of .env; \<open>Admin_Settings\<close>
  (\<open>services/admin_settings_service.py\<close>) the settings form and the password over environment, file and settings cache;
  \<open>Assets\<close> (\<open>utils/assets.py\<close>) the manifest of the front end.

  \<^bold>\<open>Composition.\<close> \<open>Map_Routes\<close> has the public routes; \<open>Site\<close> runs any history of public requests and settings updates, with
  the locale \<open>delegating\<close> that carries the bounds of the limiter over to it; \<open>Admin_Routes\<close> every administration route over
  the state of the whole system, \<open>Audit_Log\<close> the records that uploads, exports, updates, logins and boundary requests leave, and the line that is written of one; \<open>Startup\<close> what runs before the first request, and the health check; \<open>Main_App\<close> the
  middlewares, the record of a request and the exception handlers around any application; \<open>Service\<close> the whole life of the service as the
  step relation \<open>service_run\<close>: starts, restarts at any moment, requests, and the transactions of the boundary jobs between them.

  \<^bold>\<open>How the model reads.\<close> Every operation takes the state it works on and returns it updated; an exception is an
  \<open>Inl\<close>, with the state as the exception leaves it. Clock readings, random tokens and UUIDs are arguments. A transaction has
  the uncommitted and the committed tables (\<open>conn\<close>), and only \<open>commit\<close> moves one to the other. Dictionaries keep their
  insertion order where the code reads it. Integers are unbounded, as in Python; where SQLite or a float bounds them, the
  overflow is written out. Loops over data are structural; the reader that follows cursors takes a number of pages to read at most, and one more
  than the parcels with a boundary is proved enough; a boundary job reads its pages up to the first that is
  empty, and the liveness theorem says that it returns.

  \<^bold>\<open>What is proved.\<close> The limiters: equivalence with the history, bounds over any window, when and how long a key is locked,
  how many passwords can be tried, by logins one after the other and by logins that overlap. Access: who passes, that authenticated sessions descend from a login, that no
  administration route changes anything without network, login and token. Boundaries: the paged scan is one
  pass, jobs always settle, no parcel shows a boundary of another address. Uploads, events and visits: a row is stored
  whole within its bounds or not at all. The network: which answer settles a request, and exactly when a boundary request raises.
  Statistics: the figures are counts and rankings of the tables, the
  window of texts counts the day in Seoul. Files: round trips of the download and its header, of the CSV, of the settings, of the
  seed, the settings as the loader of \<open>config.py\<close> reads them (python-dotenv has rules of its own). Records: every upload with the
  CSRF token of its session and every export leaves one closing record with the status of its answer. Start: the schema of an older database is completed and stays. The service as a whole: the jobs of the table are
  those in the background, the settings in force are those of the environment. Every response: which headers and which status it has.

  \<^bold>\<open>Parameters.\<close> bcrypt, python-dotenv, pandas, the network, \<open>json.dumps\<close> and \<open>json.loads\<close>, the text of a float, SHA-256 and the names of
  temporary files are arguments, with what a theorem needs of them as its hypotheses.

  \<^bold>\<open>Not modelled.\<close> The log records of retries, of boundary jobs, of the start and of exception handlers; failures of SQLite, but for the creation of
  a job after an upload, and of the operating system (a text without UTF-8 form is bound as it is by the insertion of a parcel); the parsing and
  routing of requests, the session middleware with its signed cookie, the static files and the rendering of templates, which the framework does (a
  route is a function of what the framework hands it); the pydantic declarations of \<open>schemas/\<close>;
  threads, except for the interleavings of \<open>login_run\<close>, \<open>Boundaries\<close> and \<open>Service\<close> and the race of two refresh requests. The limiters hold a
  lock, so each of their calls is atomic; a login as a whole is not, and \<open>Service\<close>, whose requests are steps, says nothing of the number of guesses; the two command line scripts that measure latencies and hash a password.
\<close>

end
